theory Spec2Isabelle
  imports Main
begin

section \<open>JavaScript values\<close>

text \<open>
  The server (\<^verbatim>\<open>mcp-server/src/index.ts\<close>) handles values that arrive as JSON: tool
  arguments, the configuration file, replies of the webhook and of the repository-content
  API. The TypeScript types (\<^verbatim>\<open>args.webhook_url as string\<close>, \<^verbatim>\<open>as any[]\<close>) are casts
  that check nothing at run time, so the model keeps the run-time values: \<open>JUndefined\<close> is
  what reading a missing property gives. Numbers are the integers; characters are the
  8-bit characters of HOL, read as code units. An object is the list of its properties in
  property order; the first binding of a key is the property.
\<close>

datatype jsval =
    JUndefined
  | JNull
  | JBool bool
  | JNum int
  | JStr string
  | JArr "jsval list"
  | JObj "(string \<times> jsval) list"

text \<open>Errors thrown: \<^verbatim>\<open>new Error(msg)\<close> of the source, and the errors of the platform.\<close>

datatype error =
    Error string
  | TypeError string
  | SyntaxError string
  | SystemError string

fun message :: "error \<Rightarrow> string" where
  "message (Error m) = m"
| "message (TypeError m) = m"
| "message (SyntaxError m) = m"
| "message (SystemError m) = m"

text \<open>Truthiness, as \<^verbatim>\<open>if (x)\<close>, \<^verbatim>\<open>!x\<close>, \<^verbatim>\<open>x || y\<close> and \<^verbatim>\<open>x ? a : b\<close> use it.\<close>

fun truthy :: "jsval \<Rightarrow> bool" where
  "truthy JUndefined = False"
| "truthy JNull = False"
| "truthy (JBool b) = b"
| "truthy (JNum n) = (n \<noteq> 0)"
| "truthy (JStr s) = (s \<noteq> [])"
| "truthy (JArr xs) = True"
| "truthy (JObj ps) = True"

definition js_or :: "jsval \<Rightarrow> jsval \<Rightarrow> jsval" where
  "js_or a b = (if truthy a then a else b)"

definition digit_char :: "nat \<Rightarrow> char" where
  "digit_char d = ''0123456789abcdef'' ! d"

fun dec_nat :: "nat \<Rightarrow> string" where
  "dec_nat n = (if n < 10 then [digit_char n] else dec_nat (n div 10) @ [digit_char (n mod 10)])"

declare dec_nat.simps [simp del]

definition dec_int :: "int \<Rightarrow> string" where
  "dec_int i = (if i < 0 then CHR ''-'' # dec_nat (nat (- i)) else dec_nat (nat i))"

fun join :: "string \<Rightarrow> string list \<Rightarrow> string" where
  "join sep [] = []"
| "join sep [x] = x"
| "join sep (x # y # ys) = x @ sep @ join sep (y # ys)"

text \<open>
  String conversion, as a template literal \<^verbatim>\<open>`${x}`\<close>, the test of a regular expression
  and the URL argument of \<^verbatim>\<open>fetch\<close> do it. An object is converted by the method it finds
  under \<^verbatim>\<open>toString\<close>: the one of \<^verbatim>\<open>Object.prototype\<close>, unless the object has a property
  of that name of its own, which in a value that came as JSON is never a function; the
  conversion then throws a \<^verbatim>\<open>TypeError\<close>. An array is joined with commas, its \<^verbatim>\<open>null\<close>
  and \<^verbatim>\<open>undefined\<close> elements empty, the others converted in turn.
\<close>

definition not_primitive :: error where
  "not_primitive = TypeError ''Cannot convert object to primitive value''"

fun ToString :: "jsval \<Rightarrow> error + string"
  and ToString_elements :: "jsval list \<Rightarrow> error + string list" where
  "ToString JUndefined = Inr ''undefined''"
| "ToString JNull = Inr ''null''"
| "ToString (JBool b) = Inr (if b then ''true'' else ''false'')"
| "ToString (JNum n) = Inr (dec_int n)"
| "ToString (JStr s) = Inr s"
| "ToString (JArr xs) =
     (case ToString_elements xs of
        Inl err \<Rightarrow> Inl err
      | Inr ss \<Rightarrow> Inr (join '','' ss))"
| "ToString (JObj ps) =
     (if ''toString'' \<in> set (map fst ps) then Inl not_primitive
      else Inr ''[object Object]'')"
| "ToString_elements [] = Inr []"
| "ToString_elements (x # xs) =
     (case (if x = JUndefined \<or> x = JNull then Inr [] else ToString x) of
        Inl err \<Rightarrow> Inl err
      | Inr s \<Rightarrow>
         (case ToString_elements xs of
            Inl err \<Rightarrow> Inl err
          | Inr ss \<Rightarrow> Inr (s # ss)))"

text \<open>
  A template literal and a concatenation of template literals: the parts are evaluated
  from left to right, a substitution is converted to a string as soon as it is evaluated,
  and the first exception ends the evaluation. \<open>Lit\<close> is a literal text, \<open>Sub\<close> a
  substitution whose expression cannot throw, \<open>Expr\<close> one whose expression can.
\<close>

datatype part = Lit string | Sub jsval | Expr "error + jsval"

fun template :: "part list \<Rightarrow> error + string" where
  "template [] = Inr []"
| "template (Lit s # ps) =
     (case template ps of Inl err \<Rightarrow> Inl err | Inr t \<Rightarrow> Inr (s @ t))"
| "template (Sub v # ps) =
     (case ToString v of
        Inl err \<Rightarrow> Inl err
      | Inr s \<Rightarrow> (case template ps of Inl err \<Rightarrow> Inl err | Inr t \<Rightarrow> Inr (s @ t)))"
| "template (Expr x # ps) =
     (case x of
        Inl err \<Rightarrow> Inl err
      | Inr v \<Rightarrow>
         (case ToString v of
            Inl err \<Rightarrow> Inl err
          | Inr s \<Rightarrow> (case template ps of Inl err \<Rightarrow> Inl err | Inr t \<Rightarrow> Inr (s @ t))))"

text \<open>
  Reading a property \<^verbatim>\<open>x.k\<close>: a \<^verbatim>\<open>TypeError\<close> on \<^verbatim>\<open>null\<close> and \<^verbatim>\<open>undefined\<close>,
  \<^verbatim>\<open>undefined\<close> where the property is missing. The keys the server reads
  (\<^verbatim>\<open>webhook_url\<close>, \<^verbatim>\<open>download_url\<close>, \<^verbatim>\<open>type\<close>, \<^verbatim>\<open>name\<close>, \<^verbatim>\<open>url\<close>, ...) are no
  built-in property of a string, number, boolean or array. \<open>get_opt\<close> is \<^verbatim>\<open>x?.k\<close>.
\<close>

fun property :: "(string \<times> jsval) list \<Rightarrow> string \<Rightarrow> jsval" where
  "property [] k = JUndefined"
| "property ((k', v) # ps) k = (if k' = k then v else property ps k)"

fun get :: "jsval \<Rightarrow> string \<Rightarrow> error + jsval" where
  "get JUndefined k = Inl (TypeError (''Cannot read properties of undefined (reading '' @ k @ '')''))"
| "get JNull k = Inl (TypeError (''Cannot read properties of null (reading '' @ k @ '')''))"
| "get (JObj ps) k = Inr (property ps k)"
| "get v k = Inr JUndefined"

fun get_opt :: "jsval \<Rightarrow> string \<Rightarrow> jsval" where
  "get_opt (JObj ps) k = property ps k"
| "get_opt v k = JUndefined"

section \<open>JSON text\<close>

text \<open>
  \<^verbatim>\<open>JSON.stringify(value, null, 2)\<close> and \<^verbatim>\<open>JSON.parse\<close> are functions of the platform;
  they are written out here after ECMA-262 so that the configuration file and the HTTP
  bodies are texts. \<open>JSON_stringify\<close> gives \<open>None\<close> for \<^verbatim>\<open>undefined\<close>; a property whose
  value is \<^verbatim>\<open>undefined\<close> is left out, an \<^verbatim>\<open>undefined\<close> array element is \<^verbatim>\<open>null\<close>.
\<close>

definition dquote :: char where "dquote = CHR 0x22"
definition bslash :: char where "bslash = CHR 0x5C"

definition QuoteJSONChar :: "char \<Rightarrow> string" where
  "QuoteJSONChar c =
    (if c = dquote then [bslash, dquote]
     else if c = bslash then [bslash, bslash]
     else if c = CHR 0x08 then [bslash, CHR ''b'']
     else if c = CHR 0x0C then [bslash, CHR ''f'']
     else if c = CHR 0x0A then [bslash, CHR ''n'']
     else if c = CHR 0x0D then [bslash, CHR ''r'']
     else if c = CHR 0x09 then [bslash, CHR ''t'']
     else if (of_char c :: nat) < 32
       then [bslash, CHR ''u'', CHR ''0'', CHR ''0'',
             digit_char (of_char c div 16), digit_char (of_char c mod 16)]
     else [c])"

definition QuoteJSONString :: "string \<Rightarrow> string" where
  "QuoteJSONString s = dquote # concat (map QuoteJSONChar s) @ [dquote]"

text \<open>
  \<open>gap\<close> is the indentation width: \<open>2\<close> in \<^verbatim>\<open>JSON.stringify(config, null, 2)\<close>,
  \<open>0\<close> in \<^verbatim>\<open>JSON.stringify(payload)\<close>, which writes no white space at all.
\<close>

definition newline_indent :: "nat \<Rightarrow> nat \<Rightarrow> string" where
  "newline_indent gap i = (if gap = 0 then [] else CHR 0x0A # replicate (gap * i) CHR '' '')"

definition colon :: "nat \<Rightarrow> string" where
  "colon gap = (if gap = 0 then '':'' else '': '')"

fun SerializeJSON :: "nat \<Rightarrow> nat \<Rightarrow> jsval \<Rightarrow> string"
  and SerializeJSONElements :: "nat \<Rightarrow> nat \<Rightarrow> jsval list \<Rightarrow> string list"
  and SerializeJSONMembers :: "nat \<Rightarrow> nat \<Rightarrow> (string \<times> jsval) list \<Rightarrow> string list" where
  "SerializeJSON gap i JUndefined = ''null''"
| "SerializeJSON gap i JNull = ''null''"
| "SerializeJSON gap i (JBool b) = (if b then ''true'' else ''false'')"
| "SerializeJSON gap i (JNum n) = dec_int n"
| "SerializeJSON gap i (JStr s) = QuoteJSONString s"
| "SerializeJSON gap i (JArr xs) =
     (if xs = [] then ''[]''
      else ''['' @ newline_indent gap (Suc i)
           @ join ('','' @ newline_indent gap (Suc i)) (SerializeJSONElements gap (Suc i) xs)
           @ newline_indent gap i @ '']'')"
| "SerializeJSON gap i (JObj ps) =
     (case SerializeJSONMembers gap (Suc i) ps of
        [] \<Rightarrow> ''{}''
      | m # ms \<Rightarrow> ''{'' @ newline_indent gap (Suc i)
           @ join ('','' @ newline_indent gap (Suc i)) (m # ms)
           @ newline_indent gap i @ ''}'')"
| "SerializeJSONElements gap i [] = []"
| "SerializeJSONElements gap i (x # xs) =
     SerializeJSON gap i x # SerializeJSONElements gap i xs"
| "SerializeJSONMembers gap i [] = []"
| "SerializeJSONMembers gap i ((k, v) # ps) =
     (if v = JUndefined then SerializeJSONMembers gap i ps
      else (QuoteJSONString k @ colon gap @ SerializeJSON gap i v)
           # SerializeJSONMembers gap i ps)"

definition JSON_stringify :: "nat \<Rightarrow> jsval \<Rightarrow> string option" where
  "JSON_stringify gap v = (if v = JUndefined then None else Some (SerializeJSON gap 0 v))"

text \<open>
  The parser: a recursive descent over the text. The number of nested calls is bounded by
  the length of the text, which \<open>JSON_parse\<close> passes as the bound. A number with a
  fraction or an exponent and a \<^verbatim>\<open>\u\<close> escape above \<^verbatim>\<open>00ff\<close> have no value in this
  model and are refused. A repeated key keeps its place and takes the last value.
\<close>

definition is_ws :: "char \<Rightarrow> bool" where
  "is_ws c = (c = CHR '' '' \<or> c = CHR 0x09 \<or> c = CHR 0x0A \<or> c = CHR 0x0D)"

fun skip_ws :: "string \<Rightarrow> string" where
  "skip_ws [] = []"
| "skip_ws (c # cs) = (if is_ws c then skip_ws cs else c # cs)"

definition is_digit :: "char \<Rightarrow> bool" where
  "is_digit c = (48 \<le> (of_char c :: nat) \<and> (of_char c :: nat) \<le> 57)"

definition digit_val :: "char \<Rightarrow> nat" where
  "digit_val c = of_char c - 48"

definition hex_val :: "char \<Rightarrow> nat option" where
  "hex_val c =
    (let n = (of_char c :: nat) in
     if 48 \<le> n \<and> n \<le> 57 then Some (n - 48)
     else if 97 \<le> n \<and> n \<le> 102 then Some (n - 87)
     else if 65 \<le> n \<and> n \<le> 70 then Some (n - 55)
     else None)"

definition unescape :: "char \<Rightarrow> char option" where
  "unescape e =
    (if e = dquote then Some dquote
     else if e = bslash then Some bslash
     else if e = CHR ''/'' then Some CHR ''/''
     else if e = CHR ''b'' then Some (CHR 0x08)
     else if e = CHR ''f'' then Some (CHR 0x0C)
     else if e = CHR ''n'' then Some (CHR 0x0A)
     else if e = CHR ''r'' then Some (CHR 0x0D)
     else if e = CHR ''t'' then Some (CHR 0x09)
     else None)"

definition hex4 :: "char \<Rightarrow> char \<Rightarrow> char \<Rightarrow> char \<Rightarrow> nat option" where
  "hex4 a b c d =
    (case (hex_val a, hex_val b, hex_val c, hex_val d) of
       (Some x, Some y, Some z, Some w) \<Rightarrow> Some (((x * 16 + y) * 16 + z) * 16 + w)
     | _ \<Rightarrow> None)"

definition cons_char :: "char \<Rightarrow> (string \<times> string) option \<Rightarrow> (string \<times> string) option" where
  "cons_char c r = (case r of None \<Rightarrow> None | Some (s, rest) \<Rightarrow> Some (c # s, rest))"

text \<open>The characters of a string literal after its opening quote, and the rest.\<close>

fun parse_string :: "string \<Rightarrow> (string \<times> string) option" where
  "parse_string [] = None"
| "parse_string (c # cs) =
    (if c = dquote then Some ([], cs)
     else if c = bslash then
       (case cs of
          [] \<Rightarrow> None
        | e # es \<Rightarrow>
            if e = CHR ''u'' then
              (case es of
                 a # b # x # d # r \<Rightarrow>
                   (case hex4 a b x d of
                      None \<Rightarrow> None
                    | Some n \<Rightarrow> if n < 256 then cons_char (char_of n) (parse_string r) else None)
               | _ \<Rightarrow> None)
            else (case unescape e of
                    None \<Rightarrow> None
                  | Some ch \<Rightarrow> cons_char ch (parse_string es)))
     else if (of_char c :: nat) < 32 then None
     else cons_char c (parse_string cs))"

definition digits_val :: "string \<Rightarrow> nat" where
  "digits_val ds = foldl (\<lambda>n c. 10 * n + digit_val c) 0 ds"

definition parse_nat :: "string \<Rightarrow> (nat \<times> string) option" where
  "parse_nat s =
    (let ds = takeWhile is_digit s; rest = dropWhile is_digit s in
     if ds = [] then None
     else if hd ds = CHR ''0'' \<and> tl ds \<noteq> [] then None
     else if rest \<noteq> [] \<and> hd rest \<in> {CHR ''.'', CHR ''e'', CHR ''E''} then None
     else Some (digits_val ds, rest))"

definition parse_number :: "string \<Rightarrow> (jsval \<times> string) option" where
  "parse_number s =
    (case s of
       [] \<Rightarrow> None
     | c # cs \<Rightarrow>
         if c = CHR ''-'' then
           (case parse_nat cs of None \<Rightarrow> None | Some (n, rest) \<Rightarrow> Some (JNum (- int n), rest))
         else
           (case parse_nat s of None \<Rightarrow> None | Some (n, rest) \<Rightarrow> Some (JNum (int n), rest)))"

fun strip_prefix :: "string \<Rightarrow> string \<Rightarrow> string option" where
  "strip_prefix [] s = Some s"
| "strip_prefix (p # ps) [] = None"
| "strip_prefix (p # ps) (c # cs) = (if p = c then strip_prefix ps cs else None)"

definition parse_literal :: "string \<Rightarrow> (jsval \<times> string) option" where
  "parse_literal s =
    (case strip_prefix ''true'' s of
       Some r \<Rightarrow> Some (JBool True, r)
     | None \<Rightarrow>
    (case strip_prefix ''false'' s of
       Some r \<Rightarrow> Some (JBool False, r)
     | None \<Rightarrow>
    (case strip_prefix ''null'' s of
       Some r \<Rightarrow> Some (JNull, r)
     | None \<Rightarrow> parse_number s)))"

fun set_property :: "string \<Rightarrow> jsval \<Rightarrow> (string \<times> jsval) list \<Rightarrow> (string \<times> jsval) list" where
  "set_property k v [] = [(k, v)]"
| "set_property k v ((k', v') # ps) =
     (if k' = k then (k, v) # ps else (k', v') # set_property k v ps)"

fun parse_value :: "nat \<Rightarrow> string \<Rightarrow> (jsval \<times> string) option"
  and parse_elements :: "nat \<Rightarrow> jsval list \<Rightarrow> string \<Rightarrow> (jsval \<times> string) option"
  and parse_members :: "nat \<Rightarrow> (string \<times> jsval) list \<Rightarrow> string \<Rightarrow> (jsval \<times> string) option" where
  "parse_value 0 s = None"
| "parse_value (Suc n) s =
    (case skip_ws s of
       [] \<Rightarrow> None
     | c # cs \<Rightarrow>
         if c = CHR ''['' then
           (case skip_ws cs of
              [] \<Rightarrow> None
            | d # ds \<Rightarrow> if d = CHR '']'' then Some (JArr [], ds) else parse_elements n [] cs)
         else if c = CHR ''{'' then
           (case skip_ws cs of
              [] \<Rightarrow> None
            | d # ds \<Rightarrow> if d = CHR ''}'' then Some (JObj [], ds) else parse_members n [] cs)
         else if c = dquote then
           (case parse_string cs of None \<Rightarrow> None | Some (str, r) \<Rightarrow> Some (JStr str, r))
         else parse_literal (c # cs))"
| "parse_elements 0 acc s = None"
| "parse_elements (Suc n) acc s =
    (case parse_value n s of
       None \<Rightarrow> None
     | Some (v, r) \<Rightarrow>
        (case skip_ws r of
           [] \<Rightarrow> None
         | c # cs \<Rightarrow>
             if c = CHR '','' then parse_elements n (acc @ [v]) cs
             else if c = CHR '']'' then Some (JArr (acc @ [v]), cs)
             else None))"
| "parse_members 0 acc s = None"
| "parse_members (Suc n) acc s =
    (case skip_ws s of
       [] \<Rightarrow> None
     | q # qs \<Rightarrow>
         if q \<noteq> dquote then None
         else
          (case parse_string qs of
             None \<Rightarrow> None
           | Some (k, r) \<Rightarrow>
              (case skip_ws r of
                 [] \<Rightarrow> None
               | c # cs \<Rightarrow>
                   if c \<noteq> CHR '':'' then None
                   else
                    (case parse_value n cs of
                       None \<Rightarrow> None
                     | Some (v, r') \<Rightarrow>
                        (case skip_ws r' of
                           [] \<Rightarrow> None
                         | e # es \<Rightarrow>
                             if e = CHR '','' then parse_members n (set_property k v acc) es
                             else if e = CHR ''}'' then Some (JObj (set_property k v acc), es)
                             else None)))))"

definition JSON_parse :: "string \<Rightarrow> jsval option" where
  "JSON_parse s =
    (case parse_value (Suc (length s)) s of
       None \<Rightarrow> None
     | Some (v, r) \<Rightarrow> if skip_ws r = [] then Some v else None)"

section \<open>The environment: file system, network, clock\<close>

text \<open>
  The configuration file \<^verbatim>\<open>~/.claude-github-logger.json\<close> (\<^verbatim>\<open>configPath\<close>) is missing,
  cannot be read, or holds a text.
\<close>

datatype file_state = Missing | Unreadable | Content string

record request =
  req_method :: string
  req_url :: string
  req_headers :: "(string \<times> string) list"
  req_body :: "string option"

record response =
  status :: nat
  statusText :: string
  body :: string

text \<open>\<^verbatim>\<open>response.ok\<close>: the status is in the range 200 to 299.\<close>

definition ok :: "response \<Rightarrow> bool" where
  "ok r = (200 \<le> status r \<and> status r < 300)"

text \<open>\<^verbatim>\<open>response.json()\<close>; \<^verbatim>\<open>response.text()\<close> is \<open>body\<close>.\<close>

definition json :: "response \<Rightarrow> error + jsval" where
  "json r = (case JSON_parse (body r) of
               None \<Rightarrow> Inl (SyntaxError ''Unexpected token in JSON'')
             | Some v \<Rightarrow> Inr v)"

datatype integer_or_infinity = NegInfinity | Finite int | PosInfinity

text \<open>
  What one tool call finds around it: the network answers a request with a response or
  fails (\<open>Inl\<close>: \<^verbatim>\<open>fetch\<close> rejects); \<open>now\<close> is \<^verbatim>\<open>Date.now()\<close>, \<open>now_iso\<close> is
  \<^verbatim>\<open>new Date().toISOString()\<close>, \<open>random36\<close> is \<^verbatim>\<open>Math.random().toString(36)\<close>;
  \<open>write_error\<close> is the error of \<^verbatim>\<open>fs.writeFile\<close> when the file cannot be written;
  \<open>StringToInteger\<close> is the platform's conversion of a string to an integer index
  (\<^verbatim>\<open>ToIntegerOrInfinity(StringToNumber(s))\<close>).
\<close>

record env =
  network :: "request \<Rightarrow> error + response"
  now :: nat
  now_iso :: string
  random36 :: string
  write_error :: "string option"
  StringToInteger :: "string \<Rightarrow> integer_or_infinity"

text \<open>
  \<^verbatim>\<open>fetch(url, options)\<close> of \<^verbatim>\<open>node-fetch\<close> 3: the request is built first, and its URL is
  the first argument converted to a string; when the conversion throws, \<^verbatim>\<open>fetch\<close> rejects
  and nothing is sent. Otherwise the request is written to the log of requests sent and
  answered by the network. \<open>GET\<close> is the request that \<^verbatim>\<open>fetch(u, { headers })\<close> builds.
\<close>

definition fetch :: "env \<Rightarrow> error + request \<Rightarrow> request list \<Rightarrow> (error + response) \<times> request list" where
  "fetch e rq log =
    (case rq of
       Inl err \<Rightarrow> (Inl err, log)
     | Inr r \<Rightarrow> (network e r, log @ [r]))"

definition GET :: "jsval \<Rightarrow> (string \<times> string) list \<Rightarrow> error + request" where
  "GET u hs =
    (case ToString u of
       Inl err \<Rightarrow> Inl err
     | Inr url \<Rightarrow> Inr \<lparr>req_method = ''GET'', req_url = url, req_headers = hs, req_body = None\<rparr>)"

section \<open>class ClaudeGitHubLogger\<close>

text \<open>
  The state: the fields \<^verbatim>\<open>config\<close> (\<^verbatim>\<open>LoggerConfig | null\<close>, at run time whatever
  \<^verbatim>\<open>JSON.parse\<close> gave) and \<^verbatim>\<open>currentUserMessage\<close> of the one logger instance, the
  configuration file, and the requests sent so far. \<^verbatim>\<open>chatBuffer\<close> is never used.
  \<^verbatim>\<open>console.error\<close> writes to the standard error stream and is left out.
\<close>

record state =
  config :: jsval
  currentUserMessage :: jsval
  configFile :: file_state
  requests :: "request list"

definition initial :: "file_state \<Rightarrow> state" where
  "initial f = \<lparr>config = JNull, currentUserMessage = JStr [], configFile = f, requests = []\<rparr>"

record ChatLogEntry =
  timestamp :: string
  session_id :: jsval
  user_msg :: jsval
  assistant_msg :: jsval
  model :: string
  tools_used :: jsval
  project :: jsval

definition readFile :: "state \<Rightarrow> error + string" where
  "readFile st =
    (case configFile st of
       Missing \<Rightarrow> Inl (SystemError ''ENOENT: no such file or directory'')
     | Unreadable \<Rightarrow> Inl (SystemError ''EACCES: permission denied'')
     | Content data \<Rightarrow> Inr data)"

definition writeFile :: "env \<Rightarrow> string option \<Rightarrow> state \<Rightarrow> (error + unit) \<times> state" where
  "writeFile e data st =
    (case data of
       None \<Rightarrow> (Inl (TypeError ''The data argument must be of type string''), st)
     | Some d \<Rightarrow>
        (case write_error e of
           Some m \<Rightarrow> (Inl (SystemError m), st)
         | None \<Rightarrow> (Inr (), st\<lparr>configFile := Content d\<rparr>)))"

text \<open>
  \<^verbatim>\<open>loadConfig\<close>: the read and the parse are inside one \<^verbatim>\<open>try\<close>; the \<^verbatim>\<open>catch\<close>
  returns \<^verbatim>\<open>null\<close> and leaves \<^verbatim>\<open>this.config\<close> as it was.
\<close>

definition try_loadConfig :: "state \<Rightarrow> (error + jsval) \<times> state" where
  "try_loadConfig st =
    (case readFile st of
       Inl err \<Rightarrow> (Inl err, st)
     | Inr data \<Rightarrow>
        (case JSON_parse data of
           None \<Rightarrow> (Inl (SyntaxError ''Unexpected token in JSON''), st)
         | Some v \<Rightarrow> (Inr v, st\<lparr>config := v\<rparr>)))"

definition loadConfig :: "state \<Rightarrow> (error + jsval) \<times> state" where
  "loadConfig st =
    (case try_loadConfig st of
       (Inl err, st') \<Rightarrow> (Inr JNull, st')
     | (Inr v, st') \<Rightarrow> (Inr v, st'))"

definition saveConfig :: "env \<Rightarrow> jsval \<Rightarrow> state \<Rightarrow> (error + unit) \<times> state" where
  "saveConfig e c st = writeFile e (JSON_stringify 2 c) (st\<lparr>config := c\<rparr>)"

definition POST :: "jsval \<Rightarrow> string option \<Rightarrow> error + request" where
  "POST u b =
    (case ToString u of
       Inl err \<Rightarrow> Inl err
     | Inr url \<Rightarrow> Inr \<lparr>req_method = ''POST'', req_url = url,
                       req_headers = [(''Content-Type'', ''application/json'')], req_body = b\<rparr>)"

definition payload :: "jsval \<Rightarrow> ChatLogEntry \<Rightarrow> jsval" where
  "payload cfg entry = JObj
    [(''session_id'', session_id entry),
     (''model'', JStr (model entry)),
     (''tools_used'', tools_used entry),
     (''user_message'', user_msg entry),
     (''assistant_message'', assistant_msg entry),
     (''project'', js_or (project entry) (js_or (get_opt cfg ''project'') (JStr [])))]"

definition sendToN8N :: "env \<Rightarrow> ChatLogEntry \<Rightarrow> state \<Rightarrow> (error + jsval) \<times> state" where
  "sendToN8N e entry st =
    (if \<not> truthy (get_opt (config st) ''webhook_url'')
     then (Inl (Error ''Webhook URL not configured''), st)
     else
      (case fetch e (POST (get_opt (config st) ''webhook_url'')
                          (JSON_stringify 0 (payload (config st) entry))) (requests st) of
         (Inl err, log) \<Rightarrow> (Inl err, st\<lparr>requests := log\<rparr>)
       | (Inr resp, log) \<Rightarrow>
           if \<not> ok resp
           then (Inl (Error (''HTTP '' @ dec_nat (status resp) @ '': '' @ statusText resp)),
                 st\<lparr>requests := log\<rparr>)
           else (json resp, st\<lparr>requests := log\<rparr>)))"

definition getGitHubHeaders :: "jsval \<Rightarrow> error + (string \<times> string) list" where
  "getGitHubHeaders cfg =
    (if truthy (get_opt cfg ''github_token'')
     then (case template [Lit ''token '', Sub (get_opt cfg ''github_token'')] of
             Inl err \<Rightarrow> Inl err
           | Inr authorization \<Rightarrow>
               Inr [(''Accept'', ''application/vnd.github+json''),
                    (''User-Agent'', ''Claude-GitHub-Logger/1.0''),
                    (''Authorization'', authorization)])
     else Inr [(''Accept'', ''application/vnd.github+json''),
               (''User-Agent'', ''Claude-GitHub-Logger/1.0'')])"

definition generateSessionId :: "env \<Rightarrow> string" where
  "generateSessionId e = ''claude-'' @ dec_nat (now e) @ ''-'' @ take 9 (drop 2 (random36 e))"

subsection \<open>retrieveTranscripts\<close>

text \<open>
  The walk pushes onto the array \<^verbatim>\<open>transcripts\<close>, which \<^verbatim>\<open>retrieveTranscripts\<close> creates
  and passes to \<^verbatim>\<open>getTranscriptsFromYearFolder\<close> by reference: what was pushed before
  an exception stays pushed. The walk threads the array and the log of requests.
\<close>

record walk =
  transcripts :: "string list"
  sent :: "request list"

definition push :: "string \<Rightarrow> walk \<Rightarrow> walk" where
  "push t w = w\<lparr>transcripts := transcripts w @ [t]\<rparr>"

definition fetch_w :: "env \<Rightarrow> error + request \<Rightarrow> walk \<Rightarrow> (error + response) \<times> walk" where
  "fetch_w e rq w = (case fetch e rq (sent w) of (res, log) \<Rightarrow> (res, w\<lparr>sent := log\<rparr>))"

text \<open>
  \<^verbatim>\<open>for (const x of v)\<close>: an array gives its elements, a string its characters, anything
  else is not iterable.
\<close>

fun iterate :: "jsval \<Rightarrow> error + jsval list" where
  "iterate (JArr xs) = Inr xs"
| "iterate (JStr s) = Inr (map (\<lambda>c. JStr [c]) s)"
| "iterate v = Inl (TypeError ''object is not iterable'')"

text \<open>\<^verbatim>\<open>name.endsWith(suffix)\<close>: a method of strings only.\<close>

definition ends_with :: "string \<Rightarrow> string \<Rightarrow> bool" where
  "ends_with s suffix = (length suffix \<le> length s \<and> drop (length s - length suffix) s = suffix)"

fun endsWith :: "jsval \<Rightarrow> string \<Rightarrow> error + bool" where
  "endsWith (JStr s) suffix = Inr (ends_with s suffix)"
| "endsWith JUndefined suffix =
     Inl (TypeError ''Cannot read properties of undefined (reading endsWith)'')"
| "endsWith JNull suffix =
     Inl (TypeError ''Cannot read properties of null (reading endsWith)'')"
| "endsWith v suffix = Inl (TypeError ''endsWith is not a function'')"

text \<open>
  \<^verbatim>\<open>/^\d{4}$/.test(name)\<close>: the name is converted to a string, which may throw, and the
  string is four decimal digits.
\<close>

definition is_year :: "jsval \<Rightarrow> error + bool" where
  "is_year name =
    (case ToString name of
       Inl err \<Rightarrow> Inl err
     | Inr s \<Rightarrow> Inr (length s = 4 \<and> list_all is_digit s))"

text \<open>
  Lines 112 to 125 and 130 to 143: the same block for the root \<^verbatim>\<open>latest.md\<close> and for the
  project's. \<open>try_latest\<close> is the body of the \<^verbatim>\<open>try\<close>, \<open>fetch_latest\<close> the block with
  its \<^verbatim>\<open>catch\<close>, which only logs.
\<close>

definition try_latest :: "env \<Rightarrow> (string \<times> string) list \<Rightarrow> string \<Rightarrow> walk \<Rightarrow> (error + unit) \<times> walk" where
  "try_latest e hs url w =
    (case fetch_w e (GET (JStr url) hs) w of
       (Inl err, w1) \<Rightarrow> (Inl err, w1)
     | (Inr latestResponse, w1) \<Rightarrow>
         if \<not> ok latestResponse then (Inr (), w1)
         else
          (case json latestResponse of
             Inl err \<Rightarrow> (Inl err, w1)
           | Inr latestData \<Rightarrow>
              (case get latestData ''download_url'' of
                 Inl err \<Rightarrow> (Inl err, w1)
               | Inr download_url \<Rightarrow>
                   if \<not> truthy download_url then (Inr (), w1)
                   else
                    (case fetch_w e (GET download_url hs) w1 of
                       (Inl err, w2) \<Rightarrow> (Inl err, w2)
                     | (Inr content, w2) \<Rightarrow>
                         if ok content then (Inr (), push (body content) w2)
                         else (Inr (), w2)))))"

definition fetch_latest :: "env \<Rightarrow> (string \<times> string) list \<Rightarrow> string \<Rightarrow> walk \<Rightarrow> walk" where
  "fetch_latest e hs url w = snd (try_latest e hs url w)"

text \<open>
  \<^verbatim>\<open>getTranscriptsFromYearFolder\<close>: the loop over the files of a date folder, the loop
  over the entries of the year folder, and the function, whose one \<^verbatim>\<open>try\<close> holds both
  loops.
\<close>

fun files_loop :: "env \<Rightarrow> (string \<times> string) list \<Rightarrow> jsval list \<Rightarrow> walk \<Rightarrow> (error + unit) \<times> walk" where
  "files_loop e hs [] w = (Inr (), w)"
| "files_loop e hs (file # rest) w =
    (case get file ''name'' of
       Inl err \<Rightarrow> (Inl err, w)
     | Inr name \<Rightarrow>
        (case endsWith name ''.md'' of
           Inl err \<Rightarrow> (Inl err, w)
         | Inr md \<Rightarrow>
             if md \<and> truthy (get_opt file ''download_url'') then
               (case fetch_w e (GET (get_opt file ''download_url'') hs) w of
                  (Inl err, w1) \<Rightarrow> (Inl err, w1)
                | (Inr content, w1) \<Rightarrow>
                    if ok content then files_loop e hs rest (push (body content) w1)
                    else files_loop e hs rest w1)
             else files_loop e hs rest w))"

fun dates_loop :: "env \<Rightarrow> (string \<times> string) list \<Rightarrow> jsval list \<Rightarrow> walk \<Rightarrow> (error + unit) \<times> walk" where
  "dates_loop e hs [] w = (Inr (), w)"
| "dates_loop e hs (dateItem # rest) w =
    (case get dateItem ''type'' of
       Inl err \<Rightarrow> (Inl err, w)
     | Inr ty \<Rightarrow>
         if ty = JStr ''dir'' then
           (case fetch_w e (GET (get_opt dateItem ''url'') hs) w of
              (Inl err, w1) \<Rightarrow> (Inl err, w1)
            | (Inr dateResponse, w1) \<Rightarrow>
                if ok dateResponse then
                  (case json dateResponse of
                     Inl err \<Rightarrow> (Inl err, w1)
                   | Inr dateContents \<Rightarrow>
                      (case iterate dateContents of
                         Inl err \<Rightarrow> (Inl err, w1)
                       | Inr files \<Rightarrow>
                          (case files_loop e hs files w1 of
                             (Inl err, w2) \<Rightarrow> (Inl err, w2)
                           | (Inr u, w2) \<Rightarrow> dates_loop e hs rest w2)))
                else dates_loop e hs rest w1)
         else dates_loop e hs rest w)"

definition try_year_folder :: "env \<Rightarrow> (string \<times> string) list \<Rightarrow> jsval \<Rightarrow> walk \<Rightarrow> (error + unit) \<times> walk" where
  "try_year_folder e hs yearFolderUrl w =
    (case fetch_w e (GET yearFolderUrl hs) w of
       (Inl err, w1) \<Rightarrow> (Inl err, w1)
     | (Inr yearResponse, w1) \<Rightarrow>
         if \<not> ok yearResponse then (Inr (), w1)
         else
          (case json yearResponse of
             Inl err \<Rightarrow> (Inl err, w1)
           | Inr yearContents \<Rightarrow>
              (case iterate yearContents of
                 Inl err \<Rightarrow> (Inl err, w1)
               | Inr dateItems \<Rightarrow> dates_loop e hs dateItems w1)))"

definition getTranscriptsFromYearFolder :: "env \<Rightarrow> (string \<times> string) list \<Rightarrow> jsval \<Rightarrow> walk \<Rightarrow> walk" where
  "getTranscriptsFromYearFolder e hs yearFolderUrl w = snd (try_year_folder e hs yearFolderUrl w)"

text \<open>
  The loop over the project folder (lines 153 to 157), the \<^verbatim>\<open>try\<close> around it (lines 147
  to 161), and \<^verbatim>\<open>retrieveTranscripts\<close>. Where \<^verbatim>\<open>item.type\<close> or \<^verbatim>\<open>file.name\<close> was read
  without an exception, the entry is not \<^verbatim>\<open>null\<close>, and its other properties are read with
  \<open>get_opt\<close>.
\<close>

fun years_loop :: "env \<Rightarrow> (string \<times> string) list \<Rightarrow> jsval list \<Rightarrow> walk \<Rightarrow> (error + unit) \<times> walk" where
  "years_loop e hs [] w = (Inr (), w)"
| "years_loop e hs (item # rest) w =
    (case get item ''type'' of
       Inl err \<Rightarrow> (Inl err, w)
     | Inr ty \<Rightarrow>
         if ty = JStr ''dir'' then
           (case is_year (get_opt item ''name'') of
              Inl err \<Rightarrow> (Inl err, w)
            | Inr year \<Rightarrow>
                if year
                then years_loop e hs rest
                       (getTranscriptsFromYearFolder e hs (get_opt item ''url'') w)
                else years_loop e hs rest w)
         else years_loop e hs rest w)"

definition try_project_folder :: "env \<Rightarrow> (string \<times> string) list \<Rightarrow> string \<Rightarrow> walk \<Rightarrow> (error + unit) \<times> walk" where
  "try_project_folder e hs projectFolderUrl w =
    (case fetch_w e (GET (JStr projectFolderUrl) hs) w of
       (Inl err, w1) \<Rightarrow> (Inl err, w1)
     | (Inr folderResponse, w1) \<Rightarrow>
         if \<not> ok folderResponse then (Inr (), w1)
         else
          (case json folderResponse of
             Inl err \<Rightarrow> (Inl err, w1)
           | Inr folderContents \<Rightarrow>
              (case iterate folderContents of
                 Inl err \<Rightarrow> (Inl err, w1)
               | Inr items \<Rightarrow> years_loop e hs items w1)))"

definition browse_project_folder :: "env \<Rightarrow> (string \<times> string) list \<Rightarrow> string \<Rightarrow> walk \<Rightarrow> walk" where
  "browse_project_folder e hs projectFolderUrl w = snd (try_project_folder e hs projectFolderUrl w)"

text \<open>The three addresses of lines 111, 129 and 146, each a template literal.\<close>

definition latestUrl :: "jsval \<Rightarrow> error + string" where
  "latestUrl repo =
     template [Lit ''https://api.github.com/repos/'', Sub repo,
               Lit ''/contents/transcripts/latest.md'']"

definition projectLatestUrl :: "jsval \<Rightarrow> jsval \<Rightarrow> error + string" where
  "projectLatestUrl repo proj =
     template [Lit ''https://api.github.com/repos/'', Sub repo,
               Lit ''/contents/transcripts/'', Sub proj, Lit ''/latest.md'']"

definition projectFolderUrl :: "jsval \<Rightarrow> jsval \<Rightarrow> error + string" where
  "projectFolderUrl repo proj =
     template [Lit ''https://api.github.com/repos/'', Sub repo,
               Lit ''/contents/transcripts/'', Sub proj]"

text \<open>
  The body of the outer \<^verbatim>\<open>try\<close> (lines 109 to 165): \<open>Inl\<close> is an exception that reaches
  the outer \<^verbatim>\<open>catch\<close>. Outside the inner blocks the read \<^verbatim>\<open>this.config.github_repo\<close> and
  the three template literals can throw; what was pushed before stays in the array, but
  the outer \<^verbatim>\<open>catch\<close> (line 168) returns a new, empty array. The template literals in the
  two inner \<^verbatim>\<open>catch\<close> blocks (lines 142 and 160) convert \<^verbatim>\<open>project\<close> again, which was
  converted at line 129 without an exception, so they throw nothing. The headers are
  built before the \<^verbatim>\<open>try\<close> (line 107): an exception there leaves \<open>retrieveTranscripts\<close>.
\<close>

definition try_retrieve :: "env \<Rightarrow> (string \<times> string) list \<Rightarrow> jsval \<Rightarrow> jsval \<Rightarrow> walk \<Rightarrow> (error + unit) \<times> walk" where
  "try_retrieve e hs cfg proj w =
    (case get cfg ''github_repo'' of
       Inl err \<Rightarrow> (Inl err, w)
     | Inr repo \<Rightarrow>
        (case latestUrl repo of
           Inl err \<Rightarrow> (Inl err, w)
         | Inr url \<Rightarrow>
            (let w1 = fetch_latest e hs url w in
             if truthy proj then
               (case projectLatestUrl repo proj of
                  Inl err \<Rightarrow> (Inl err, w1)
                | Inr project_url \<Rightarrow>
                   (let w2 = fetch_latest e hs project_url w1 in
                    case projectFolderUrl repo proj of
                      Inl err \<Rightarrow> (Inl err, w2)
                    | Inr folder_url \<Rightarrow> (Inr (), browse_project_folder e hs folder_url w2)))
             else (Inr (), w1))))"

definition retrieveTranscripts :: "env \<Rightarrow> jsval \<Rightarrow> state \<Rightarrow> (error + string list) \<times> state" where
  "retrieveTranscripts e proj st =
    (if \<not> truthy (get_opt (config st) ''github_repo'')
     then (Inl (Error ''GitHub repo not configured''), st)
     else
      (case getGitHubHeaders (config st) of
         Inl err \<Rightarrow> (Inl err, st)
       | Inr hs \<Rightarrow>
          (case try_retrieve e hs (config st) proj \<lparr>transcripts = [], sent = requests st\<rparr> of
             (Inl err, w) \<Rightarrow> (Inr [], st\<lparr>requests := sent w\<rparr>)
           | (Inr u, w) \<Rightarrow> (Inr (transcripts w), st\<lparr>requests := sent w\<rparr>))))"

section \<open>The tool handler\<close>

text \<open>
  The handler of \<^verbatim>\<open>CallToolRequestSchema\<close> (lines 330 to 492). \<open>args\<close> is
  \<^verbatim>\<open>request.params.arguments\<close>: an object, or \<^verbatim>\<open>undefined\<close> when the call has none; the
  handler reads its properties and checks no more than \<^verbatim>\<open>!args\<close>. The result is the text
  of the one content item and the flag \<^verbatim>\<open>isError\<close>.
\<close>

record tool_result =
  content :: string
  isError :: bool

definition success :: "string \<Rightarrow> tool_result" where
  "success t = \<lparr>content = t, isError = False\<rparr>"

definition failure :: "error \<Rightarrow> tool_result" where
  "failure err = \<lparr>content = ''Error: '' @ message err, isError = True\<rparr>"

definition not_configured :: error where
  "not_configured = Error ''GitHub logging not configured. Run setup_github_logging first.''"

definition no_arguments :: error where
  "no_arguments = Error ''No arguments provided''"

subsection \<open>setup_github_logging\<close>

definition setup_config :: "env \<Rightarrow> jsval \<Rightarrow> jsval" where
  "setup_config e args = JObj
    [(''webhook_url'', get_opt args ''webhook_url''),
     (''github_repo'', get_opt args ''github_repo''),
     (''github_token'', get_opt args ''github_token''),
     (''session_id'', JStr (generateSessionId e)),
     (''auto_log'', JBool (get_opt args ''auto_log'' \<noteq> JBool False)),
     (''project'', get_opt args ''project'')]"

text \<open>
  The confirmation text (lines 354 to 361) is built after the record was saved; a
  conversion that throws there is caught by the handler, with the record already saved.
\<close>

definition setup_text :: "jsval \<Rightarrow> error + string" where
  "setup_text c = template
    [Lit ''GitHub logging configured successfully!\<newline>\<newline>'',
     Lit ''- Webhook: '', Sub (get_opt c ''webhook_url''), Lit ''\<newline>'',
     Lit ''- Repository: '', Sub (get_opt c ''github_repo''), Lit ''\<newline>'',
     Lit ''- GitHub Token: '',
     Lit (if truthy (get_opt c ''github_token'') then ''Configured (hidden for security)''
          else ''Not provided''), Lit ''\<newline>'',
     Lit ''- Session ID: '', Sub (get_opt c ''session_id''), Lit ''\<newline>'',
     Lit ''- Auto-logging: '',
     Lit (if truthy (get_opt c ''auto_log'') then ''Enabled'' else ''Disabled''), Lit ''\<newline>'',
     Lit ''- Project: '', Sub (js_or (get_opt c ''project'') (JStr ''None'')),
     Lit ''\<newline>\<newline>'',
     Lit ''Your conversations will now be logged to GitHub via n8n with authenticated access.'']"

definition setup_github_logging :: "env \<Rightarrow> jsval \<Rightarrow> state \<Rightarrow> (error + string) \<times> state" where
  "setup_github_logging e args st =
    (if \<not> truthy args then (Inl no_arguments, st)
     else
      (case saveConfig e (setup_config e args) st of
         (Inl err, st') \<Rightarrow> (Inl err, st')
       | (Inr u, st') \<Rightarrow> (setup_text (setup_config e args), st')))"

subsection \<open>log_conversation\<close>

text \<open>\<^verbatim>\<open>xs.join(sep)\<close>: a method of arrays only; it converts the elements.\<close>

fun array_join :: "jsval \<Rightarrow> string \<Rightarrow> error + string" where
  "array_join (JArr xs) sep =
     (case ToString_elements xs of
        Inl err \<Rightarrow> Inl err
      | Inr ss \<Rightarrow> Inr (join sep ss))"
| "array_join v sep = Inl (TypeError ''entry.tools_used.join is not a function'')"

definition log_entry :: "env \<Rightarrow> jsval \<Rightarrow> jsval \<Rightarrow> ChatLogEntry" where
  "log_entry e cfg args =
    \<lparr>timestamp = now_iso e,
     session_id = get_opt cfg ''session_id'',
     user_msg = get_opt args ''user_message'',
     assistant_msg = get_opt args ''assistant_message'',
     model = ''claude-sonnet-4'',
     tools_used = js_or (get_opt args ''tools_used'') (JArr []),
     project = js_or (get_opt args ''project'') (get_opt cfg ''project'')\<rparr>"

text \<open>\<^verbatim>\<open>x.k || d\<close>, where reading the property may throw.\<close>

definition get_or :: "jsval \<Rightarrow> string \<Rightarrow> string \<Rightarrow> error + jsval" where
  "get_or x k d = (case get x k of Inl err \<Rightarrow> Inl err | Inr v \<Rightarrow> Inr (js_or v (JStr d)))"

definition tools :: "jsval \<Rightarrow> error + jsval" where
  "tools xs =
    (case array_join xs '', '' of
       Inl err \<Rightarrow> Inl err
     | Inr joined \<Rightarrow> Inr (js_or (JStr joined) (JStr ''none'')))"

definition log_text :: "ChatLogEntry \<Rightarrow> jsval \<Rightarrow> error + string" where
  "log_text entry result = template
    [Lit ''Conversation logged successfully!\<newline>\<newline>'',
     Lit ''- Session: '', Sub (session_id entry), Lit ''\<newline>'',
     Lit ''- Tools used: '', Expr (tools (tools_used entry)), Lit ''\<newline>'',
     Lit ''- Project: '', Sub (js_or (project entry) (JStr ''default'')),
     Lit ''\<newline>\<newline>'',
     Lit ''GitHub URLs:\<newline>'',
     Lit ''- Latest: '', Expr (get_or result ''latest_url'' ''N/A''), Lit ''\<newline>'',
     Lit ''- Dated: '', Expr (get_or result ''dated_url'' ''N/A''), Lit ''\<newline>'',
     Lit ''- Project Latest: '', Expr (get_or result ''project_latest_url'' ''N/A'')]"

definition log_conversation :: "env \<Rightarrow> jsval \<Rightarrow> state \<Rightarrow> (error + string) \<times> state" where
  "log_conversation e args st =
    (if \<not> truthy args then (Inl no_arguments, st)
     else
      (case loadConfig st of
         (loaded, st1) \<Rightarrow>
           if \<not> truthy (config st1) then (Inl not_configured, st1)
           else
            (case sendToN8N e (log_entry e (config st1) args) st1 of
               (Inl err, st2) \<Rightarrow> (Inl err, st2)
             | (Inr result, st2) \<Rightarrow> (log_text (log_entry e (config st1) args) result, st2))))"

subsection \<open>retrieve_chat_history\<close>

text \<open>
  \<^verbatim>\<open>transcripts.slice(0, limit)\<close>: the end index is converted to an integer, counted
  from the end when negative, and clamped to the length.
\<close>

fun ToIntegerOrInfinity :: "env \<Rightarrow> jsval \<Rightarrow> error + integer_or_infinity" where
  "ToIntegerOrInfinity e JUndefined = Inr (Finite 0)"
| "ToIntegerOrInfinity e JNull = Inr (Finite 0)"
| "ToIntegerOrInfinity e (JBool b) = Inr (Finite (if b then 1 else 0))"
| "ToIntegerOrInfinity e (JNum n) = Inr (Finite n)"
| "ToIntegerOrInfinity e (JStr s) = Inr (StringToInteger e s)"
| "ToIntegerOrInfinity e v =
     (case ToString v of
        Inl err \<Rightarrow> Inl err
      | Inr s \<Rightarrow> Inr (StringToInteger e s))"

definition slice0 :: "env \<Rightarrow> 'a list \<Rightarrow> jsval \<Rightarrow> error + 'a list" where
  "slice0 e xs stop =
    (if stop = JUndefined then Inr xs
     else
      (case ToIntegerOrInfinity e stop of
         Inl err \<Rightarrow> Inl err
       | Inr NegInfinity \<Rightarrow> Inr []
       | Inr (Finite n) \<Rightarrow>
           Inr (if n < 0 then take (nat (int (length xs) + n)) xs else take (nat n) xs)
       | Inr PosInfinity \<Rightarrow> Inr xs))"

definition transcript_item :: "nat \<Rightarrow> string \<Rightarrow> string" where
  "transcript_item idx transcript =
     ''**Transcript '' @ dec_nat (idx + 1) @ '':**\<newline>'' @ transcript
     @ ''\<newline>\<newline>---\<newline>''"

definition summary :: "string list \<Rightarrow> string" where
  "summary limited =
     join ''\<newline>'' (map (\<lambda>(idx, t). transcript_item idx t) (enumerate 0 limited))"

definition history_text :: "env \<Rightarrow> string list \<Rightarrow> jsval \<Rightarrow> error + string" where
  "history_text e ts args =
    (let limit = js_or (get_opt args ''limit'') (JNum 10) in
     case slice0 e ts limit of
       Inl err \<Rightarrow> Inl err
     | Inr limited \<Rightarrow>
         Inr (if length limited = 0 then ''No chat transcripts found in the repository.''
              else ''Found '' @ dec_nat (length ts) @ '' transcripts (showing ''
                   @ dec_nat (length limited) @ ''):\<newline>\<newline>'' @ summary limited))"

definition retrieve_chat_history :: "env \<Rightarrow> jsval \<Rightarrow> state \<Rightarrow> (error + string) \<times> state" where
  "retrieve_chat_history e args st =
    (case loadConfig st of
       (loaded, st1) \<Rightarrow>
         if \<not> truthy (config st1) then (Inl not_configured, st1)
         else
          (case retrieveTranscripts e (get_opt args ''project'') st1 of
             (Inl err, st2) \<Rightarrow> (Inl err, st2)
           | (Inr ts, st2) \<Rightarrow> (history_text e ts args, st2)))"

subsection \<open>get_logger_status\<close>

text \<open>
  Each line of the status text starts with a pictogram; \<open>mark\<close> gives them by the bytes
  of the source text.
\<close>

definition mark :: "nat \<Rightarrow> string" where
  "mark i =
    [[CHR 0xE2, CHR 0x80, CHR 0x9A, CHR 0xC3, CHR 0xBA, CHR 0xC3, CHR 0x96],
     [CHR 0xEF, CHR 0xA3, CHR 0xBF, CHR 0xC3, CHR 0xBC, CHR 0xC3, CHR 0xAE, CHR 0xC3, CHR 0xB3],
     [CHR 0xEF, CHR 0xA3, CHR 0xBF, CHR 0xC3, CHR 0xBC, CHR 0xC3, CHR 0xAC, CHR 0xC3, CHR 0x85],
     [CHR 0xEF, CHR 0xA3, CHR 0xBF, CHR 0xC3, CHR 0xBC, CHR 0xC3, CHR 0xAE, CHR 0xC3, CHR 0xAA],
     [CHR 0xEF, CHR 0xA3, CHR 0xBF, CHR 0xC3, CHR 0xBC, CHR 0xC3, CHR 0x9C, CHR 0xC3, CHR 0xAE],
     [CHR 0xEF, CHR 0xA3, CHR 0xBF, CHR 0xC3, CHR 0xBC, CHR 0xC2, CHR 0xA7, CHR 0xC3, CHR 0xB1],
     [CHR 0xEF, CHR 0xA3, CHR 0xBF, CHR 0xC3, CHR 0xBC, CHR 0xC3, CHR 0xAC, CHR 0xC3, CHR 0x87]] ! i"

definition status_text :: "jsval \<Rightarrow> error + string" where
  "status_text c = template
    [Lit ''GitHub Logger Status:\<newline>\<newline>'',
     Lit (mark 0), Lit '' Configured: Yes\<newline>'',
     Lit (mark 1), Lit '' Webhook: '', Sub (get_opt c ''webhook_url''), Lit ''\<newline>'',
     Lit (mark 2), Lit '' Repository: '', Sub (get_opt c ''github_repo''), Lit ''\<newline>'',
     Lit (mark 3), Lit '' GitHub Token: '',
     Lit (if truthy (get_opt c ''github_token'') then ''Configured'' else ''Missing''),
     Lit ''\<newline>'',
     Lit (mark 4), Lit '' Session: '', Sub (get_opt c ''session_id''), Lit ''\<newline>'',
     Lit (mark 5), Lit '' Auto-logging: '',
     Lit (if truthy (get_opt c ''auto_log'') then ''Enabled'' else ''Disabled''), Lit ''\<newline>'',
     Lit (mark 6), Lit '' Project: '', Sub (js_or (get_opt c ''project'') (JStr ''None'')),
     Lit ''\<newline>\<newline>'',
     Lit ''Ready to log conversations to GitHub with authenticated access!'']"

definition get_logger_status :: "state \<Rightarrow> (error + string) \<times> state" where
  "get_logger_status st =
    (case loadConfig st of
       (Inl err, st1) \<Rightarrow> (Inl err, st1)
     | (Inr c, st1) \<Rightarrow>
         if \<not> truthy c
         then (Inr ''GitHub logging is not configured. Run 'setup_github_logging' to get started.'',
               st1)
         else (status_text c, st1))"

subsection \<open>update_session_context\<close>

definition update_session_context :: "jsval \<Rightarrow> state \<Rightarrow> (error + string) \<times> state" where
  "update_session_context args st =
    (if \<not> truthy args then (Inl no_arguments, st)
     else (Inr ''Session context updated. User message prepared for logging.'',
           st\<lparr>currentUserMessage := get_opt args ''user_message''\<rparr>))"

subsection \<open>The switch and the outer catch\<close>

definition dispatch :: "env \<Rightarrow> string \<Rightarrow> jsval \<Rightarrow> state \<Rightarrow> (error + string) \<times> state" where
  "dispatch e name args st =
    (if name = ''setup_github_logging'' then setup_github_logging e args st
     else if name = ''log_conversation'' then log_conversation e args st
     else if name = ''retrieve_chat_history'' then retrieve_chat_history e args st
     else if name = ''get_logger_status'' then get_logger_status st
     else if name = ''update_session_context'' then update_session_context args st
     else (Inl (Error (''Unknown tool: '' @ name)), st))"

definition call_tool :: "env \<Rightarrow> string \<Rightarrow> jsval \<Rightarrow> state \<Rightarrow> tool_result \<times> state" where
  "call_tool e name args st =
    (case dispatch e name args st of
       (Inl err, st') \<Rightarrow> (failure err, st')
     | (Inr t, st') \<Rightarrow> (success t, st'))"

section \<open>Sequences of tool calls\<close>

text \<open>
  The server answers one request at a time: a sequence of calls, each with the
  environment it finds, takes the state through the handler call by call.
\<close>

fun run :: "(env \<times> string \<times> jsval) list \<Rightarrow> state \<Rightarrow> state" where
  "run [] st = st"
| "run ((e, name, args) # calls) st = run calls (snd (call_tool e name args st))"

text \<open>
  What the handler returns for the outcome of a case of the switch: the text, or the
  message of the exception with the flag \<^verbatim>\<open>isError\<close>.
\<close>

definition returned :: "error + string \<Rightarrow> tool_result" where
  "returned r = (case r of Inl err \<Rightarrow> failure err | Inr t \<Rightarrow> success t)"

text \<open>The \<^verbatim>\<open>session_id\<close> of the stored record: what a parse of the file finds.\<close>

definition stored_session_id :: "state \<Rightarrow> jsval" where
  "stored_session_id st =
    (case configFile st of
       Content data \<Rightarrow> (case JSON_parse data of Some c \<Rightarrow> get_opt c ''session_id'' | None \<Rightarrow> JUndefined)
     | _ \<Rightarrow> JUndefined)"

section \<open>Example environments\<close>

text \<open>
  An environment without network, the same a minute later, and one whose webhook answers
  every request with status 500; a configuration file as \<^verbatim>\<open>setup_github_logging\<close> writes
  it.
\<close>

definition offline :: env where
  "offline =
    \<lparr>network = (\<lambda>r. Inl (SystemError ''fetch failed'')),
     now = 1757000000000, now_iso = ''2025-09-04T15:33:20.000Z'',
     random36 = ''0.4fzyo82mvyr'', write_error = None,
     StringToInteger = (\<lambda>s. Finite 0)\<rparr>"

definition later :: env where
  "later = offline\<lparr>now := 1757000060000, random36 := ''0.k3j9x0q2mzp''\<rparr>"

definition failing_webhook :: env where
  "failing_webhook = offline
    \<lparr>network := (\<lambda>r. Inr \<lparr>status = 500, statusText = ''Internal Server Error'', body = []\<rparr>)\<rparr>"

definition example_args :: "jsval \<Rightarrow> jsval" where
  "example_args token = JObj
    [(''webhook_url'', JStr ''https://n8n.example/webhook/log''),
     (''github_repo'', JStr ''john/chat-transcripts''),
     (''github_token'', token)]"

definition example_config :: "jsval \<Rightarrow> jsval" where
  "example_config token = JObj
    [(''webhook_url'', JStr ''https://n8n.example/webhook/log''),
     (''github_repo'', JStr ''john/chat-transcripts''),
     (''github_token'', token),
     (''session_id'', JStr ''claude-1757000000000-4fzyo82mv''),
     (''auto_log'', JBool True)]"

definition example_file :: "jsval \<Rightarrow> string" where
  "example_file token = SerializeJSON 2 0 (example_config token)"

text \<open>
  A webhook that accepts every request with the reply of the workflow, and a repository
  \<^verbatim>\<open>john/chat-transcripts\<close> behind the content API: the root \<^verbatim>\<open>latest.md\<close>, a project
  \<^verbatim>\<open>p\<close> with its \<^verbatim>\<open>latest.md\<close>, a folder \<^verbatim>\<open>notes\<close> and the year \<^verbatim>\<open>2025\<close> with two date
  folders.
\<close>

definition reply :: "string \<Rightarrow> error + response" where
  "reply b = Inr \<lparr>status = 200, statusText = ''OK'', body = b\<rparr>"

definition not_found :: "error + response" where
  "not_found = Inr \<lparr>status = 404, statusText = ''Not Found'', body = []\<rparr>"

definition accepting_webhook :: env where
  "accepting_webhook = offline
    \<lparr>network := (\<lambda>r. reply (SerializeJSON 0 0
                  (JObj [(''ok'', JBool True), (''latest_url'', JStr ''X'')])))\<rparr>"

definition unconfigured_webhook_file :: string where
  "unconfigured_webhook_file = SerializeJSON 2 0
    (JObj [(''session_id'', JStr ''claude-1757000000000-4fzyo82mv''), (''auto_log'', JBool True)])"

definition example_turn :: jsval where
  "example_turn = JObj
    [(''user_message'', JStr ''What is a monad?''),
     (''assistant_message'', JStr ''A monoid in the category of endofunctors.'')]"

definition remote_entry :: "string \<Rightarrow> string \<Rightarrow> string \<Rightarrow> jsval \<Rightarrow> jsval" where
  "remote_entry name ty url download_url = JObj
    [(''name'', JStr name), (''type'', JStr ty), (''url'', JStr url),
     (''download_url'', download_url)]"

definition listing :: "jsval list \<Rightarrow> error + response" where
  "listing xs = reply (SerializeJSON 0 0 (JArr xs))"

definition api :: "string \<Rightarrow> string" where
  "api path = ''https://api.github.com/repos/john/chat-transcripts/contents/'' @ path"

definition repository :: "string \<Rightarrow> error + response" where
  "repository url =
    (if url = api ''transcripts/latest.md''
       then reply (SerializeJSON 0 0 (remote_entry ''latest.md'' ''file'' ''u0'' (JStr ''https://raw.test/latest.md'')))
     else if url = ''https://raw.test/latest.md'' then reply ''ROOT''
     else if url = api ''transcripts/p/latest.md''
       then reply (SerializeJSON 0 0 (remote_entry ''latest.md'' ''file'' ''u1'' (JStr ''https://raw.test/p/latest.md'')))
     else if url = ''https://raw.test/p/latest.md'' then reply ''P''
     else if url = api ''transcripts/p''
       then listing [remote_entry ''latest.md'' ''file'' ''u1'' (JStr ''https://raw.test/p/latest.md''),
                     remote_entry ''notes'' ''dir'' ''https://api.test/notes'' JNull,
                     remote_entry ''2025'' ''dir'' ''https://api.test/2025'' JNull]
     else if url = ''https://api.test/2025''
       then listing [remote_entry ''2025-09-13'' ''dir'' ''https://api.test/d13'' JNull,
                     remote_entry ''2025-09-14'' ''dir'' ''https://api.test/d14'' JNull]
     else if url = ''https://api.test/d13''
       then listing [remote_entry ''a.md'' ''file'' ''u2'' (JStr ''https://raw.test/a.md''),
                     remote_entry ''b.txt'' ''file'' ''u3'' (JStr ''https://raw.test/b.txt'')]
     else if url = ''https://api.test/d14''
       then listing [remote_entry ''session.md'' ''file'' ''u4'' (JStr ''https://raw.test/session.md'')]
     else if url = ''https://raw.test/a.md'' then reply ''A''
     else if url = ''https://raw.test/session.md'' then reply ''S''
     else not_found)"

definition online :: env where
  "online = offline\<lparr>network := (\<lambda>r. repository (req_url r))\<rparr>"

text \<open>The same repository, but the download of \<^verbatim>\<open>a.md\<close> fails in the network.\<close>

definition flaky :: env where
  "flaky = offline\<lparr>network := (\<lambda>r. if req_url r = ''https://raw.test/a.md''
                                    then Inl (SystemError ''socket hang up'')
                                    else repository (req_url r))\<rparr>"

text \<open>
  The same repository, but the entry \<^verbatim>\<open>session.md\<close> of the date folder \<^verbatim>\<open>2025-09-14\<close> is
  listed with the type \<^verbatim>\<open>dir\<close>.
\<close>

definition mislabelled :: env where
  "mislabelled = offline\<lparr>network := (\<lambda>r. if req_url r = ''https://api.test/d14''
      then listing [remote_entry ''session.md'' ''dir'' ''u4'' (JStr ''https://raw.test/session.md'')]
      else repository (req_url r))\<rparr>"

text \<open>A value that cannot be converted to a string: \<^verbatim>\<open>{"toString": 1}\<close>.\<close>

definition unconvertible :: jsval where
  "unconvertible = JObj [(''toString'', JNum 1)]"

definition configured :: state where
  "configured = initial (Content (example_file (JStr ''ghp_a'')))"

section \<open>Discovery order\<close>

text \<open>
  The transcript set as the specification words it: the bodies in discovery order, the
  root \<^verbatim>\<open>latest.md\<close>, then the project's, then the year folders in listing order, their
  date folders in listing order, their files in listing order. These definitions follow
  the specification; they collect nothing in place and keep no log of requests. A visit
  of an entry yields the bodies found and tells whether an exception ended it; a failure
  means that the branch yields nothing further.
\<close>

fun in_listing_order :: "('a \<Rightarrow> bool \<times> string list) \<Rightarrow> 'a list \<Rightarrow> bool \<times> string list" where
  "in_listing_order visit [] = (False, [])"
| "in_listing_order visit (x # xs) =
    (case visit x of
       (True, bs) \<Rightarrow> (True, bs)
     | (False, bs) \<Rightarrow> (case in_listing_order visit xs of (stop, bs') \<Rightarrow> (stop, bs @ bs')))"

definition nullish :: "jsval \<Rightarrow> bool" where
  "nullish v = (v = JNull \<or> v = JUndefined)"

definition is_dir :: "jsval \<Rightarrow> bool" where
  "is_dir entry = (get_opt entry ''type'' = JStr ''dir'')"

text \<open>
  The entries of a project folder that are descended into: directories named by a year.
  An entry of a project folder is broken when it is \<^verbatim>\<open>null\<close>, or a directory whose name
  cannot be converted to a string.
\<close>

definition year_dir :: "jsval \<Rightarrow> bool" where
  "year_dir item = (is_dir item \<and> is_year (get_opt item ''name'') = Inr True)"

definition broken :: "jsval \<Rightarrow> bool" where
  "broken item = (nullish item \<or> (is_dir item \<and> isl (is_year (get_opt item ''name''))))"

text \<open>
  The entries of a date folder whose body is fetched: the name ends in \<^verbatim>\<open>.md\<close> and there
  is a download URL. An entry is malformed when it is \<^verbatim>\<open>null\<close> or its name is no string.
\<close>

definition md_file :: "jsval \<Rightarrow> bool" where
  "md_file f = (case get_opt f ''name'' of
                  JStr s \<Rightarrow> ends_with s ''.md'' \<and> truthy (get_opt f ''download_url'')
                | _ \<Rightarrow> False)"

definition malformed :: "jsval \<Rightarrow> bool" where
  "malformed f = (nullish f \<or> (case get_opt f ''name'' of JStr s \<Rightarrow> False | _ \<Rightarrow> True))"

text \<open>
  The answer to a request: none when the request could not be built. The two operations
  of the remote content lister: the listing of a directory, empty on a non-success
  status, and the body of a file.
\<close>

definition answer :: "env \<Rightarrow> error + request \<Rightarrow> error + response" where
  "answer e rq = (case rq of Inl err \<Rightarrow> Inl err | Inr r \<Rightarrow> network e r)"

text \<open>The walk after a request: the request, when it could be built, is in the log.\<close>

definition logged :: "error + request \<Rightarrow> walk \<Rightarrow> walk" where
  "logged rq w = (case rq of Inl err \<Rightarrow> w | Inr r \<Rightarrow> w\<lparr>sent := sent w @ [r]\<rparr>)"

definition listDirectory :: "env \<Rightarrow> (string \<times> string) list \<Rightarrow> jsval \<Rightarrow> error + jsval list" where
  "listDirectory e hs url =
    (case answer e (GET url hs) of
       Inl err \<Rightarrow> Inl err
     | Inr r \<Rightarrow> if \<not> ok r then Inr []
               else (case json r of Inl err \<Rightarrow> Inl err | Inr v \<Rightarrow> iterate v))"

definition fetchFileBody :: "env \<Rightarrow> (string \<times> string) list \<Rightarrow> jsval \<Rightarrow> bool \<times> string list" where
  "fetchFileBody e hs download_url =
    (case answer e (GET download_url hs) of
       Inl err \<Rightarrow> (True, [])
     | Inr r \<Rightarrow> (False, if ok r then [body r] else []))"

definition file_visit :: "env \<Rightarrow> (string \<times> string) list \<Rightarrow> jsval \<Rightarrow> bool \<times> string list" where
  "file_visit e hs f =
    (if malformed f then (True, [])
     else if md_file f then fetchFileBody e hs (get_opt f ''download_url'')
     else (False, []))"

definition date_visit :: "env \<Rightarrow> (string \<times> string) list \<Rightarrow> jsval \<Rightarrow> bool \<times> string list" where
  "date_visit e hs d =
    (if nullish d then (True, [])
     else if is_dir d then
       (case listDirectory e hs (get_opt d ''url'') of
          Inl err \<Rightarrow> (True, [])
        | Inr files \<Rightarrow> in_listing_order (file_visit e hs) files)
     else (False, []))"

definition year_bodies :: "env \<Rightarrow> (string \<times> string) list \<Rightarrow> jsval \<Rightarrow> string list" where
  "year_bodies e hs url =
    (case listDirectory e hs url of
       Inl err \<Rightarrow> []
     | Inr dates \<Rightarrow> snd (in_listing_order (date_visit e hs) dates))"

definition item_visit :: "env \<Rightarrow> (string \<times> string) list \<Rightarrow> jsval \<Rightarrow> bool \<times> string list" where
  "item_visit e hs item =
    (if broken item then (True, [])
     else if year_dir item then (False, year_bodies e hs (get_opt item ''url''))
     else (False, []))"

definition archive_bodies :: "env \<Rightarrow> (string \<times> string) list \<Rightarrow> string \<Rightarrow> string list" where
  "archive_bodies e hs url =
    (case listDirectory e hs (JStr url) of
       Inl err \<Rightarrow> []
     | Inr items \<Rightarrow> snd (in_listing_order (item_visit e hs) items))"

definition latest_bodies :: "env \<Rightarrow> (string \<times> string) list \<Rightarrow> string \<Rightarrow> string list" where
  "latest_bodies e hs url =
    (case answer e (GET (JStr url) hs) of
       Inl err \<Rightarrow> []
     | Inr r \<Rightarrow>
         if \<not> ok r then []
         else (case json r of
                 Inl err \<Rightarrow> []
               | Inr latestData \<Rightarrow>
                   if nullish latestData \<or> \<not> truthy (get_opt latestData ''download_url'') then []
                   else snd (fetchFileBody e hs (get_opt latestData ''download_url''))))"

text \<open>
  What a date folder adds when its listing and its downloads go through: the bodies of
  the entries whose name ends in \<^verbatim>\<open>.md\<close> and that carry a download URL. \<open>request_of\<close>
  is the request that was sent, if it could be built.
\<close>

definition download :: "env \<Rightarrow> (string \<times> string) list \<Rightarrow> jsval \<Rightarrow> string list" where
  "download e hs f = snd (fetchFileBody e hs (get_opt f ''download_url''))"

definition date_bodies :: "env \<Rightarrow> (string \<times> string) list \<Rightarrow> jsval \<Rightarrow> string list" where
  "date_bodies e hs d =
    (case listDirectory e hs (get_opt d ''url'') of
       Inl err \<Rightarrow> []
     | Inr files \<Rightarrow> concat (map (download e hs) (filter md_file files)))"

definition request_of :: "error + request \<Rightarrow> request list" where
  "request_of rq = (case rq of Inl err \<Rightarrow> [] | Inr r \<Rightarrow> [r])"

text \<open>
  The addresses of the content API for the repository \<open>repo\<close>, and the transcript set of a
  retrieval with the headers \<open>hs\<close> for the project \<open>proj\<close>, if one is given.
\<close>

definition contents :: "string \<Rightarrow> string \<Rightarrow> string" where
  "contents repo path = ''https://api.github.com/repos/'' @ repo @ ''/contents/'' @ path"

definition discovery_order :: "env \<Rightarrow> (string \<times> string) list \<Rightarrow> string \<Rightarrow> string option \<Rightarrow> string list" where
  "discovery_order e hs repo proj =
     latest_bodies e hs (contents repo ''transcripts/latest.md'')
     @ (case proj of
          None \<Rightarrow> []
        | Some p \<Rightarrow>
            latest_bodies e hs (contents repo (''transcripts/'' @ p @ ''/latest.md''))
            @ archive_bodies e hs (contents repo (''transcripts/'' @ p)))"

section \<open>LoggerConfig values\<close>

text \<open>
  The interface \<^verbatim>\<open>LoggerConfig\<close> at run time: an object whose \<^verbatim>\<open>webhook_url\<close>,
  \<^verbatim>\<open>github_repo\<close> and \<^verbatim>\<open>session_id\<close> are strings, whose \<^verbatim>\<open>auto_log\<close> is a boolean, and
  whose \<^verbatim>\<open>project\<close> and \<^verbatim>\<open>github_token\<close> are strings or \<^verbatim>\<open>undefined\<close>; its keys are
  distinct and all its properties are flat values. A property that is \<^verbatim>\<open>undefined\<close> and a
  property that is missing read the same; \<open>without_undefined\<close> leaves the first out.
\<close>

fun flat :: "jsval \<Rightarrow> bool" where
  "flat (JArr xs) = False"
| "flat (JObj ps) = False"
| "flat (JNum n) = False"
| "flat v = True"

fun is_string :: "jsval \<Rightarrow> bool" where
  "is_string (JStr s) = True"
| "is_string v = False"

fun is_boolean :: "jsval \<Rightarrow> bool" where
  "is_boolean (JBool b) = True"
| "is_boolean v = False"

fun optional_string :: "jsval \<Rightarrow> bool" where
  "optional_string (JStr s) = True"
| "optional_string JUndefined = True"
| "optional_string v = False"

fun LoggerConfig :: "jsval \<Rightarrow> bool" where
  "LoggerConfig (JObj ps) =
    (distinct (map fst ps) \<and> list_all (\<lambda>p. flat (snd p)) ps
     \<and> is_string (property ps ''webhook_url'')
     \<and> is_string (property ps ''github_repo'')
     \<and> is_string (property ps ''session_id'')
     \<and> is_boolean (property ps ''auto_log'')
     \<and> optional_string (property ps ''project'')
     \<and> optional_string (property ps ''github_token''))"
| "LoggerConfig v = False"

definition defined :: "(string \<times> jsval) list \<Rightarrow> (string \<times> jsval) list" where
  "defined ps = filter (\<lambda>p. snd p \<noteq> JUndefined) ps"

fun without_undefined :: "jsval \<Rightarrow> jsval" where
  "without_undefined (JObj ps) = JObj (defined ps)"
| "without_undefined v = v"

text \<open>One member of an object in the text of the file.\<close>

definition member :: "string \<times> jsval \<Rightarrow> string" where
  "member p = QuoteJSONString (fst p) @ colon 2 @ SerializeJSON 2 (Suc 0) (snd p)"

section \<open>Evaluation of the JSON functions\<close>

lemma parse_value_numeral:
  "parse_value (numeral k) s = parse_value (Suc (pred_numeral k)) s"
  by (simp only: numeral_eq_Suc)

lemma parse_elements_numeral:
  "parse_elements (numeral k) acc s = parse_elements (Suc (pred_numeral k)) acc s"
  by (simp only: numeral_eq_Suc)

lemma parse_members_numeral:
  "parse_members (numeral k) acc s = parse_members (Suc (pred_numeral k)) acc s"
  by (simp only: numeral_eq_Suc)

lemma replicate_numeral_unfold:
  "replicate (numeral k) x = x # replicate (pred_numeral k) x"
  by (simp add: numeral_eq_Suc)

lemmas json_eval =
  JSON_parse_def JSON_stringify_def is_ws_def dquote_def bslash_def parse_literal_def
  parse_number_def parse_nat_def is_digit_def digits_val_def digit_val_def
  QuoteJSONString_def QuoteJSONChar_def newline_indent_def colon_def cons_char_def
  unescape_def hex4_def hex_val_def digit_char_def dec_int_def
  parse_value_numeral parse_elements_numeral parse_members_numeral replicate_numeral_unfold

lemmas walk_eval =
  retrieveTranscripts_def try_retrieve_def getGitHubHeaders_def latestUrl_def
  projectLatestUrl_def projectFolderUrl_def
  fetch_latest_def try_latest_def fetch_w_def fetch_def GET_def browse_project_folder_def
  try_project_folder_def getTranscriptsFromYearFolder_def try_year_folder_def is_year_def
  ends_with_def ok_def json_def push_def Let_def

lemmas example_eval =
  configured_def initial_def example_config_def example_file_def example_args_def
  offline_def failing_webhook_def accepting_webhook_def online_def flaky_def
  unconfigured_webhook_file_def example_turn_def
  repository_def api_def reply_def not_found_def remote_entry_def listing_def

section \<open>The fuel of the parser\<close>

text \<open>
  \<^verbatim>\<open>JSON.parse\<close> is modelled by a recursive descent with a fuel argument, called with one more
  than the length of the text. Each call that succeeds consumes at least one character and
  succeeds again, with the same result, with any fuel above the number of characters consumed.
  So a text that parses with some fuel parses with the fuel \<^const>\<open>JSON_parse\<close> gives: the fuel
  never makes a text fail.
\<close>

lemma length_skip_ws: "length (skip_ws s) \<le> length s"
  by (induction s) auto

lemma skip_ws_Cons: "skip_ws s = c # cs \<Longrightarrow> length cs < length s"
  using length_skip_ws [of s] by simp

lemma parse_string_shorter: "parse_string s = Some (str, r) \<Longrightarrow> length r < length s"
proof (induction s arbitrary: str r rule: parse_string.induct)
  case 1
  then show ?case by simp
next
  case (2 c cs)
  show ?case
  proof (cases "c = dquote")
    case True
    with "2.prems" show ?thesis by auto
  next
    case nq: False
    show ?thesis
    proof (cases "c = bslash")
      case True
      with nq "2.prems" obtain e es where cs: "cs = e # es"
        by (cases cs) auto
      show ?thesis
      proof (cases "e = CHR ''u''")
        case u: True
        with nq True cs "2.prems" obtain a b x d r' where es: "es = a # b # x # d # r'"
          by (auto split: list.splits)
        with nq True cs u "2.prems" obtain n where h: "hex4 a b x d = Some n" "n < 256"
          by (auto split: option.splits if_splits)
        with nq True cs u es "2.prems" obtain str' where
          p: "parse_string r' = Some (str', r)"
          by (auto simp add: cons_char_def split: option.splits)
        have "length r < length r'"
          using "2.IH"(1) [OF nq True cs u es refl refl refl h(1) h(2) p] .
        with cs es show ?thesis by simp
      next
        case nu: False
        with nq True cs "2.prems" obtain ch where un: "unescape e = Some ch"
          by (auto split: option.splits)
        with nq True cs nu "2.prems" obtain str' where
          p: "parse_string es = Some (str', r)"
          by (auto simp add: cons_char_def split: option.splits)
        have "length r < length es"
          using "2.IH"(2) [OF nq True cs nu un p] .
        with cs show ?thesis by simp
      qed
    next
      case nb: False
      with nq "2.prems" have ctl: "\<not> (of_char c :: nat) < 32"
        by (auto split: if_splits)
      with nq nb "2.prems" obtain str' where p: "parse_string cs = Some (str', r)"
        by (auto simp add: cons_char_def split: option.splits)
      have "length r < length cs"
        using "2.IH"(3) [OF nq nb ctl p] .
      then show ?thesis by simp
    qed
  qed
qed

lemma strip_prefix_length: "strip_prefix p s = Some r \<Longrightarrow> length s = length p + length r"
  by (induction p s rule: strip_prefix.induct) (auto split: if_splits)

lemma parse_nat_shorter: "parse_nat s = Some (n, r) \<Longrightarrow> length r < length s"
proof -
  assume a: "parse_nat s = Some (n, r)"
  then have r: "r = dropWhile is_digit s" and ne: "takeWhile is_digit s \<noteq> []"
    by (auto simp add: parse_nat_def Let_def split: if_splits)
  have "length (takeWhile is_digit s) + length (dropWhile is_digit s) = length s"
    by (metis length_append takeWhile_dropWhile_id)
  with r ne show ?thesis
    by (cases "takeWhile is_digit s") auto
qed

lemma parse_literal_shorter: "parse_literal s = Some (v, r) \<Longrightarrow> length r < length s"
  by (auto simp add: parse_literal_def parse_number_def
      split: option.splits list.splits if_splits
      dest!: strip_prefix_length parse_nat_shorter)


lemma fuel_suffices:
  "(\<forall>s v r. parse_value n s = Some (v, r) \<longrightarrow>
       length r < length s \<and>
       (\<forall>m. length s - length r < m \<longrightarrow> parse_value m s = Some (v, r)))
 \<and> (\<forall>acc s v r. parse_elements n acc s = Some (v, r) \<longrightarrow>
       length r < length s \<and>
       (\<forall>m. length s - length r < m \<longrightarrow> parse_elements m acc s = Some (v, r)))
 \<and> (\<forall>acc s v r. parse_members n acc s = Some (v, r) \<longrightarrow>
       length r < length s \<and>
       (\<forall>m. length s - length r < m \<longrightarrow> parse_members m acc s = Some (v, r)))"
proof (induction n)
  case 0
  show ?case by simp
next
  case (Suc n)
  note V = Suc.IH [THEN conjunct1, rule_format]
  note E = Suc.IH [THEN conjunct2, THEN conjunct1, rule_format]
  note M = Suc.IH [THEN conjunct2, THEN conjunct2, rule_format]
  have v: "length r < length s \<and>
      (\<forall>m. length s - length r < m \<longrightarrow> parse_value m s = Some (v, r))"
    if p: "parse_value (Suc n) s = Some (v, r)" for s v r
  proof -
    from p obtain c cs where sk: "skip_ws s = c # cs"
      by (auto split: list.splits)
    have len: "length cs < length s"
      by (rule skip_ws_Cons [OF sk])
    show ?thesis
    proof (cases "c = CHR ''[''")
      case arr: True
      from p sk arr obtain d ds where sk2: "skip_ws cs = d # ds"
        by (auto split: list.splits)
      have len2: "length ds < length cs"
        by (rule skip_ws_Cons [OF sk2])
      show ?thesis
      proof (cases "d = CHR '']''")
        case True
        with p sk arr sk2 have res: "v = JArr []" "r = ds"
          by auto
        show ?thesis
        proof (intro conjI allI impI)
          show "length r < length s"
            using res len len2 by simp
        next
          fix m
          assume "length s - length r < m"
          then obtain m' where m: "m = Suc m'"
            by (cases m) auto
          show "parse_value m s = Some (v, r)"
            by (simp add: m sk arr sk2 True res)
        qed
      next
        case False
        with p sk arr sk2 have e: "parse_elements n [] cs = Some (v, r)"
          by simp
        note ih = E [OF e]
        note ih1 = ih [THEN conjunct1]
        show ?thesis
        proof (intro conjI allI impI)
          show "length r < length s"
            using ih1 len by arith
        next
          fix m
          assume a: "length s - length r < m"
          then obtain m' where m: "m = Suc m'"
            by (cases m) auto
          from a m len ih1 have "length cs - length r < m'"
            by arith
          with ih have "parse_elements m' [] cs = Some (v, r)"
            by simp
          then show "parse_value m s = Some (v, r)"
            by (simp add: m sk arr sk2 False)
        qed
      qed
    next
      case narr: False
      show ?thesis
      proof (cases "c = CHR ''{''")
        case obj: True
        from p sk narr obj obtain d ds where sk2: "skip_ws cs = d # ds"
          by (auto split: list.splits)
        have len2: "length ds < length cs"
          by (rule skip_ws_Cons [OF sk2])
        show ?thesis
        proof (cases "d = CHR ''}''")
          case True
          with p sk narr obj sk2 have res: "v = JObj []" "r = ds"
            by auto
          show ?thesis
          proof (intro conjI allI impI)
            show "length r < length s"
              using res len len2 by simp
          next
            fix m
            assume "length s - length r < m"
            then obtain m' where m: "m = Suc m'"
              by (cases m) auto
            show "parse_value m s = Some (v, r)"
              by (simp add: m sk obj sk2 True res)
          qed
        next
          case False
          with p sk narr obj sk2 have e: "parse_members n [] cs = Some (v, r)"
            by simp
          note ih = M [OF e]
          note ih1 = ih [THEN conjunct1]
          show ?thesis
          proof (intro conjI allI impI)
            show "length r < length s"
              using ih1 len by arith
          next
            fix m
            assume a: "length s - length r < m"
            then obtain m' where m: "m = Suc m'"
              by (cases m) auto
            from a m len ih1 have "length cs - length r < m'"
              by arith
            with ih have "parse_members m' [] cs = Some (v, r)"
              by simp
            then show "parse_value m s = Some (v, r)"
              by (simp add: m sk obj sk2 False)
          qed
        qed
      next
        case nobj: False
        show ?thesis
        proof (cases "c = dquote")
          case q: True
          from p sk narr nobj q obtain str where
            ps: "parse_string cs = Some (str, r)" and res: "v = JStr str"
            by (auto split: option.splits)
          have len2: "length r < length cs"
            by (rule parse_string_shorter [OF ps])
          show ?thesis
          proof (intro conjI allI impI)
            show "length r < length s"
              using len len2 by simp
          next
            fix m
            assume "length s - length r < m"
            then obtain m' where m: "m = Suc m'"
              by (cases m) auto
            from narr nobj q show "parse_value m s = Some (v, r)"
              by (simp add: m sk ps res)
          qed
        next
          case nq: False
          with p sk narr nobj have pl: "parse_literal (c # cs) = Some (v, r)"
            by simp
          have len2: "length r < length (c # cs)"
            by (rule parse_literal_shorter [OF pl])
          show ?thesis
          proof (intro conjI allI impI)
            show "length r < length s"
              using len len2 by simp
          next
            fix m
            assume "length s - length r < m"
            then obtain m' where m: "m = Suc m'"
              by (cases m) auto
            from narr nobj nq show "parse_value m s = Some (v, r)"
              by (simp add: m sk pl)
          qed
        qed
      qed
    qed
  qed
  have e: "length r < length s \<and>
      (\<forall>m. length s - length r < m \<longrightarrow> parse_elements m acc s = Some (v, r))"
    if p: "parse_elements (Suc n) acc s = Some (v, r)" for acc s v r
  proof -
    from p obtain v1 r1 where pv: "parse_value n s = Some (v1, r1)"
      by (auto split: option.splits)
    note ihv = V [OF pv]
    note ihv1 = ihv [THEN conjunct1]
    from p pv obtain c cs where sk: "skip_ws r1 = c # cs"
      by (auto split: list.splits)
    have len: "length cs < length r1"
      by (rule skip_ws_Cons [OF sk])
    show ?thesis
    proof (cases "c = CHR '',''")
      case True
      with p pv sk have pe: "parse_elements n (acc @ [v1]) cs = Some (v, r)"
        by simp
      note ihe = E [OF pe]
      note ihe1 = ihe [THEN conjunct1]
      show ?thesis
      proof (intro conjI allI impI)
        show "length r < length s"
          using ihv1 ihe1 len by arith
      next
        fix m
        assume a: "length s - length r < m"
        then obtain m' where m: "m = Suc m'"
          by (cases m) auto
        from a m len ihv1 ihe1 have "length s - length r1 < m'" "length cs - length r < m'"
          by arith+
        with ihv ihe have "parse_value m' s = Some (v1, r1)"
          "parse_elements m' (acc @ [v1]) cs = Some (v, r)"
          by simp_all
        then show "parse_elements m acc s = Some (v, r)"
          by (simp add: m sk True)
      qed
    next
      case False
      with p pv sk have c: "c = CHR '']''" and res: "v = JArr (acc @ [v1])" "r = cs"
        by (auto split: if_splits)
      show ?thesis
      proof (intro conjI allI impI)
        show "length r < length s"
          using ihv1 len unfolding res(2) by arith
      next
        fix m
        assume a: "length s - length r < m"
        then obtain m' where m: "m = Suc m'"
          by (cases m) auto
        from a [unfolded res(2)] m len ihv1 have "length s - length r1 < m'"
          by arith
        with ihv have "parse_value m' s = Some (v1, r1)"
          by simp
        then show "parse_elements m acc s = Some (v, r)"
          by (simp add: m sk c res)
      qed
    qed
  qed
  have m: "length r < length s \<and>
      (\<forall>m. length s - length r < m \<longrightarrow> parse_members m acc s = Some (v, r))"
    if p: "parse_members (Suc n) acc s = Some (v, r)" for acc s v r
  proof -
    from p obtain q qs where sk0: "skip_ws s = q # qs"
      by (auto split: list.splits)
    from p sk0 have q: "q = dquote"
      by (auto split: if_splits)
    from p sk0 q obtain k r0 where ps: "parse_string qs = Some (k, r0)"
      by (auto split: option.splits)
    from p sk0 q ps obtain c cs where sk1: "skip_ws r0 = c # cs"
      by (auto split: list.splits)
    from p sk0 q ps sk1 have c: "c = CHR '':''"
      by (auto split: if_splits)
    from p sk0 q ps sk1 c obtain v1 r1 where pv: "parse_value n cs = Some (v1, r1)"
      by (auto split: option.splits)
    from p sk0 q ps sk1 c pv obtain x xs where sk2: "skip_ws r1 = x # xs"
      by (auto split: list.splits)
    note ihv = V [OF pv]
    note ihv1 = ihv [THEN conjunct1]
    have len: "length qs < length s" "length r0 < length qs" "length cs < length r0"
      "length xs < length r1"
      using skip_ws_Cons [OF sk0] parse_string_shorter [OF ps] skip_ws_Cons [OF sk1]
        skip_ws_Cons [OF sk2] by simp_all
    show ?thesis
    proof (cases "x = CHR '',''")
      case True
      with p sk0 q ps sk1 c pv sk2 have
        pm: "parse_members n (set_property k v1 acc) xs = Some (v, r)"
        by simp
      note ihm = M [OF pm]
      note ihm1 = ihm [THEN conjunct1]
      show ?thesis
      proof (intro conjI allI impI)
        show "length r < length s"
          using ihv1 ihm1 len by arith
      next
        fix m
        assume a: "length s - length r < m"
        then obtain m' where m: "m = Suc m'"
          by (cases m) auto
        from a m len ihv1 ihm1 have "length cs - length r1 < m'" "length xs - length r < m'"
          by arith+
        with ihv ihm have "parse_value m' cs = Some (v1, r1)"
          "parse_members m' (set_property k v1 acc) xs = Some (v, r)"
          by simp_all
        then show "parse_members m acc s = Some (v, r)"
          by (simp add: m sk0 q ps sk1 c sk2 True)
      qed
    next
      case False
      with p sk0 q ps sk1 c pv sk2 have x: "x = CHR ''}''"
        and res: "v = JObj (set_property k v1 acc)" "r = xs"
        by (auto split: if_splits)
      show ?thesis
      proof (intro conjI allI impI)
        show "length r < length s"
          using ihv1 len unfolding res(2) by arith
      next
        fix m
        assume a: "length s - length r < m"
        then obtain m' where m: "m = Suc m'"
          by (cases m) auto
        from a [unfolded res(2)] m len ihv1 have "length cs - length r1 < m'"
          by arith
        with ihv have "parse_value m' cs = Some (v1, r1)"
          by simp
        then show "parse_members m acc s = Some (v, r)"
          by (simp add: m sk0 q ps sk1 c sk2 x res)
      qed
    qed
  qed
  from v e m show ?case
    by blast
qed

lemma JSON_parse_fuel:
  "JSON_parse s = Some v \<longleftrightarrow> (\<exists>n r. parse_value n s = Some (v, r) \<and> skip_ws r = [])"
proof
  assume "JSON_parse s = Some v"
  then obtain r where "parse_value (Suc (length s)) s = Some (v, r)" "skip_ws r = []"
    by (auto simp add: JSON_parse_def simp del: parse_value.simps split: option.splits if_splits)
  then show "\<exists>n r. parse_value n s = Some (v, r) \<and> skip_ws r = []"
    by blast
next
  assume "\<exists>n r. parse_value n s = Some (v, r) \<and> skip_ws r = []"
  then obtain n r where p: "parse_value n s = Some (v, r)" and ws: "skip_ws r = []"
    by blast
  from fuel_suffices [of n, THEN conjunct1, rule_format, OF p]
  have "parse_value (Suc (length s)) s = Some (v, r)"
    by (simp del: parse_value.simps)
  with ws show "JSON_parse s = Some v"
    by (simp add: JSON_parse_def del: parse_value.simps)
qed

section \<open>The configuration store\<close>

lemma loadConfig_cases:
  "loadConfig st =
    (case configFile st of
       Content data \<Rightarrow> (case JSON_parse data of
                           None \<Rightarrow> (Inr JNull, st)
                         | Some v \<Rightarrow> (Inr v, st\<lparr>config := v\<rparr>))
     | _ \<Rightarrow> (Inr JNull, st))"
  by (simp add: loadConfig_def try_loadConfig_def readFile_def
           split: file_state.splits option.splits)

lemma loadConfig_configFile: "configFile (snd (loadConfig st)) = configFile st"
  by (simp add: loadConfig_cases split: file_state.splits option.splits)

lemma loadConfig_requests: "requests (snd (loadConfig st)) = requests st"
  by (simp add: loadConfig_cases split: file_state.splits option.splits)

lemma loadConfig_parsed:
  "configFile st = Content data \<Longrightarrow> JSON_parse data = Some c \<Longrightarrow>
   loadConfig st = (Inr c, st\<lparr>config := c\<rparr>)"
  by (simp add: loadConfig_cases)

text \<open>
  C5. Whatever the state of the configuration file, \<open>loadConfig\<close> returns a value and
  raises nothing; when the file is missing, cannot be read, or holds a text that does
  not parse, the value is \<^verbatim>\<open>null\<close> and the state is as it was.
\<close>

theorem loadConfig_never_raises:
  "(\<exists>v. fst (loadConfig st) = Inr v) \<and>
   (configFile st = Missing \<or> configFile st = Unreadable \<or>
    (\<exists>data. configFile st = Content data \<and> JSON_parse data = None)
    \<longrightarrow> loadConfig st = (Inr JNull, st))"
  by (auto simp add: loadConfig_cases split: file_state.splits option.splits)

theorem loadConfig_never_raises_witness:
  "loadConfig (initial Missing) = (Inr JNull, initial Missing) \<and>
   loadConfig (initial Unreadable) = (Inr JNull, initial Unreadable) \<and>
   JSON_parse ''{oops'' = None \<and>
   loadConfig (initial (Content ''{oops'')) = (Inr JNull, initial (Content ''{oops''))"
proof -
  have p: "JSON_parse ''{oops'' = None"
    by (simp add: json_eval)
  have a: "loadConfig (initial Missing) = (Inr JNull, initial Missing)"
    using loadConfig_never_raises [of "initial Missing"] by (simp add: initial_def)
  have b: "loadConfig (initial Unreadable) = (Inr JNull, initial Unreadable)"
    using loadConfig_never_raises [of "initial Unreadable"] by (simp add: initial_def)
  have c: "loadConfig (initial (Content ''{oops'')) = (Inr JNull, initial (Content ''{oops''))"
    using loadConfig_never_raises [of "initial (Content ''{oops'')"] p
    by (simp add: initial_def)
  from p a b c show ?thesis by simp
qed

section \<open>The handler, tool by tool\<close>

lemma snd_call_tool: "snd (call_tool e name args st) = snd (dispatch e name args st)"
  by (cases "dispatch e name args st") (simp add: call_tool_def split: sum.splits)

lemma setup_config_stringify:
  "JSON_stringify 2 (setup_config e args) = Some (SerializeJSON 2 0 (setup_config e args))"
  by (simp add: JSON_stringify_def setup_config_def)

lemma call_tool_returned:
  "call_tool e name args st = (returned (fst (dispatch e name args st)), snd (dispatch e name args st))"
  by (cases "dispatch e name args st") (simp add: call_tool_def returned_def split: sum.splits)

lemma call_setup:
  "call_tool e ''setup_github_logging'' args st =
    (if \<not> truthy args then (failure no_arguments, st)
     else case write_error e of
            Some m \<Rightarrow> (failure (SystemError m), st\<lparr>config := setup_config e args\<rparr>)
          | None \<Rightarrow> (returned (setup_text (setup_config e args)),
                     st\<lparr>config := setup_config e args,
                        configFile := Content (SerializeJSON 2 0 (setup_config e args))\<rparr>))"
  by (simp add: call_tool_returned returned_def dispatch_def setup_github_logging_def saveConfig_def
      writeFile_def setup_config_stringify split: option.splits)

lemma call_status:
  "call_tool e ''get_logger_status'' args st =
    (case loadConfig st of
       (Inr c, st1) \<Rightarrow>
         (if \<not> truthy c
          then success ''GitHub logging is not configured. Run 'setup_github_logging' to get started.''
          else returned (status_text c), st1)
     | (Inl err, st1) \<Rightarrow> (failure err, st1))"
  by (simp add: call_tool_returned returned_def dispatch_def get_logger_status_def
      split: prod.splits sum.splits)

lemma call_update:
  "call_tool e ''update_session_context'' args st =
    (if \<not> truthy args then (failure no_arguments, st)
     else (success ''Session context updated. User message prepared for logging.'',
           st\<lparr>currentUserMessage := get_opt args ''user_message''\<rparr>))"
  by (simp add: call_tool_def dispatch_def update_session_context_def)

lemma property_set_property:
  "property (set_property k v ps) k' = (if k' = k then v else property ps k')"
  by (induction ps) auto

lemma example_file_parses:
  "JSON_parse (example_file (JStr ''ghp_a'')) = Some (example_config (JStr ''ghp_a''))"
  by (simp add: example_file_def example_config_def json_eval)

lemma example_file_parses_b:
  "JSON_parse (example_file (JStr ''ghp_b'')) = Some (example_config (JStr ''ghp_b''))"
  by (simp add: example_file_def example_config_def json_eval)

lemma loadConfig_configured:
  "loadConfig configured =
     (Inr (example_config (JStr ''ghp_a'')),
      configured\<lparr>config := example_config (JStr ''ghp_a'')\<rparr>)"
  by (rule loadConfig_parsed [OF _ example_file_parses]) (simp add: configured_def initial_def)

lemma generateSessionId_offline:
  "generateSessionId offline = ''claude-1757000000000-4fzyo82mv''"
  by (simp add: generateSessionId_def offline_def dec_nat.simps digit_char_def)

section \<open>Save, then load\<close>

lemma hex_val_digit_char:
  assumes "d < 16"
  shows "hex_val (digit_char d) = Some d"
proof -
  from assms have "d = 0 \<or> d = 1 \<or> d = 2 \<or> d = 3 \<or> d = 4 \<or> d = 5 \<or> d = 6 \<or> d = 7
      \<or> d = 8 \<or> d = 9 \<or> d = 10 \<or> d = 11 \<or> d = 12 \<or> d = 13 \<or> d = 14 \<or> d = 15"
    by arith
  then show ?thesis
    by (elim disjE) (simp_all add: hex_val_def digit_char_def)
qed

lemma hex_val_zero: "hex_val CHR ''0'' = Some 0"
  by (simp add: hex_val_def)

lemma parse_string_QuoteJSONChar:
  "parse_string (QuoteJSONChar c @ tail) = cons_char c (parse_string tail)"
proof -
  let ?n = "of_char c :: nat"
  consider (special) "c \<in> {dquote, bslash, CHR 0x08, CHR 0x0C, CHR 0x0A, CHR 0x0D, CHR 0x09}"
    | (control) "c \<notin> {dquote, bslash, CHR 0x08, CHR 0x0C, CHR 0x0A, CHR 0x0D, CHR 0x09}" "?n < 32"
    | (plain) "c \<notin> {dquote, bslash, CHR 0x08, CHR 0x0C, CHR 0x0A, CHR 0x0D, CHR 0x09}" "\<not> ?n < 32"
    by blast
  then show ?thesis
  proof cases
    case special
    then show ?thesis
      by (auto simp add: QuoteJSONChar_def unescape_def dquote_def bslash_def)
  next
    case control
    from control(2) have d: "?n div 16 < 16" "?n mod 16 < 16" by simp_all
    have n: "(?n div 16) * 16 + ?n mod 16 = ?n" by simp
    have lt: "?n < 256" using control(2) by simp
    from control show ?thesis
      by (simp add: QuoteJSONChar_def dquote_def bslash_def hex4_def hex_val_zero
          hex_val_digit_char [OF d(1)] hex_val_digit_char [OF d(2)] n lt)
  next
    case plain
    then show ?thesis
      by (simp add: QuoteJSONChar_def)
  qed
qed

lemma parse_string_quoted:
  "parse_string (concat (map QuoteJSONChar s) @ dquote # rest) = Some (s, rest)"
  by (induction s) (simp_all add: parse_string_QuoteJSONChar cons_char_def)

lemma SerializeJSONMembers_defined:
  "SerializeJSONMembers 2 (Suc 0) ps = map member (defined ps)"
  by (induction ps) (auto simp add: defined_def member_def)

lemma parse_value_flat:
  assumes "flat v" and "v \<noteq> JUndefined"
  shows "parse_value (Suc n) (CHR '' '' # SerializeJSON 2 (Suc 0) v @ rest) = Some (v, rest)"
proof (cases v)
  case (JStr s)
  then show ?thesis
    by (simp add: is_ws_def QuoteJSONString_def parse_string_quoted) (simp add: dquote_def)
next
  case (JBool b)
  then show ?thesis
    by (cases b) (simp_all add: is_ws_def dquote_def parse_literal_def)
next
  case JNull
  then show ?thesis
    by (simp add: is_ws_def dquote_def parse_literal_def)
qed (use assms in simp_all)

lemma set_property_fresh: "k \<notin> fst ` set acc \<Longrightarrow> set_property k v acc = acc @ [(k, v)]"
  by (induction acc) auto

lemma parse_member:
  assumes "flat v" and "v \<noteq> JUndefined"
  shows "parse_members (Suc (Suc n)) acc (newline_indent 2 (Suc 0) @ member (k, v) @ tail) =
    (case skip_ws tail of
       [] \<Rightarrow> None
     | e # es \<Rightarrow>
         if e = CHR '','' then parse_members (Suc n) (set_property k v acc) es
         else if e = CHR ''}'' then Some (JObj (set_property k v acc), es)
         else None)"
proof -
  have "parse_value (Suc n) (CHR '' '' # SerializeJSON 2 (Suc 0) v @ tail) = Some (v, tail)"
    using assms by (rule parse_value_flat)
  then show ?thesis
    by (simp add: newline_indent_def member_def colon_def QuoteJSONString_def is_ws_def
        parse_string_quoted numeral_2_eq_2)
       (simp add: dquote_def)
qed


lemma parse_members_list:
  assumes "ms \<noteq> []" and "list_all (\<lambda>p. flat (snd p) \<and> snd p \<noteq> JUndefined) ms"
    and "distinct (map fst ms)" and "fst ` set ms \<inter> fst ` set acc = {}"
    and "length ms < n"
  shows "parse_members n acc
           (newline_indent 2 (Suc 0) @ join ('','' @ newline_indent 2 (Suc 0)) (map member ms)
            @ newline_indent 2 0 @ ''}'' @ rest)
         = Some (JObj (acc @ ms), rest)"
  using assms
proof (induction ms arbitrary: acc n)
  case Nil
  then show ?case by simp
next
  case (Cons m ms)
  obtain k v where m: "m = (k, v)" by (cases m)
  from Cons.prems m have fv: "flat v" "v \<noteq> JUndefined" by simp_all
  from Cons.prems m have fresh: "k \<notin> fst ` set acc" by auto
  from Cons.prems obtain n' where n: "n = Suc (Suc n')" and n': "length ms < Suc n'"
    by (cases n; cases "n - 1") auto
  show ?case
  proof (cases ms)
    case Nil
    have "parse_members (Suc (Suc n')) acc
            (newline_indent 2 (Suc 0) @ member (k, v) @ (newline_indent 2 0 @ ''}'' @ rest))
          = Some (JObj (acc @ [(k, v)]), rest)"
      by (simp only: parse_member [OF fv])
         (simp add: newline_indent_def is_ws_def set_property_fresh [OF fresh])
    with Nil m n show ?thesis by simp
  next
    case (Cons m' ms')
    let ?tail = "'','' @ newline_indent 2 (Suc 0) @ join ('','' @ newline_indent 2 (Suc 0)) (map member ms)
                 @ newline_indent 2 0 @ ''}'' @ rest"
    have step: "parse_members (Suc (Suc n')) acc (newline_indent 2 (Suc 0) @ member (k, v) @ ?tail)
          = parse_members (Suc n') (acc @ [(k, v)])
              (newline_indent 2 (Suc 0) @ join ('','' @ newline_indent 2 (Suc 0)) (map member ms)
                 @ newline_indent 2 0 @ ''}'' @ rest)"
      by (simp only: parse_member [OF fv])
         (simp add: is_ws_def set_property_fresh [OF fresh] del: parse_members.simps)
    have ih: "parse_members (Suc n') (acc @ [(k, v)])
              (newline_indent 2 (Suc 0) @ join ('','' @ newline_indent 2 (Suc 0)) (map member ms)
                 @ newline_indent 2 0 @ ''}'' @ rest)
          = Some (JObj ((acc @ [(k, v)]) @ ms), rest)"
    proof (rule Cons.IH)
      show "ms \<noteq> []" using Cons by simp
      show "list_all (\<lambda>p. flat (snd p) \<and> snd p \<noteq> JUndefined) ms"
        using Cons.prems by simp
      show "distinct (map fst ms)" using Cons.prems by simp
      show "fst ` set ms \<inter> fst ` set (acc @ [(k, v)]) = {}"
        using Cons.prems m by auto
      show "length ms < Suc n'" by (rule n')
    qed
    from step ih Cons m n show ?thesis by simp
  qed
qed

lemma length_join:
  "\<forall>x \<in> set xs. x \<noteq> [] \<Longrightarrow> length xs \<le> length (join sep xs)"
proof (induction sep xs rule: join.induct)
  case (2 sep x)
  then show ?case by (cases x) simp_all
next
  case (3 sep x y ys)
  then show ?case by (cases x) simp_all
qed simp

lemma join_first: "\<exists>t. join sep ((c # x) # xs) = c # t"
  by (cases xs) simp_all

lemma member_first: "\<exists>t. member p = dquote # t"
  by (simp add: member_def QuoteJSONString_def)

lemma member_not_empty: "member p \<noteq> []"
  by (simp add: member_def QuoteJSONString_def)

lemma parse_flat_object:
  assumes "list_all (\<lambda>p. flat (snd p)) ps" and "distinct (map fst ps)"
  shows "JSON_parse (SerializeJSON 2 0 (JObj ps)) = Some (JObj (defined ps))"
proof (cases "defined ps")
  case Nil
  then show ?thesis
    by (simp add: SerializeJSONMembers_defined JSON_parse_def is_ws_def dquote_def)
next
  case (Cons m ms)
  let ?ms = "defined ps"
  let ?inner = "newline_indent 2 (Suc 0) @ join ('','' @ newline_indent 2 (Suc 0)) (map member ?ms)
                @ newline_indent 2 0 @ ''}'' @ []"
  from Cons have ne: "?ms \<noteq> []" by simp
  have fl: "list_all (\<lambda>p. flat (snd p) \<and> snd p \<noteq> JUndefined) ?ms"
    using assms(1) by (simp add: defined_def list_all_iff)
  have di: "distinct (map fst ?ms)"
    using assms(2) by (simp add: defined_def distinct_map_filter)
  have ser: "SerializeJSON 2 0 (JObj ps) = CHR ''{'' # ?inner"
    using Cons by (simp add: SerializeJSONMembers_defined)
  have "length ?ms \<le> length (join ('','' @ newline_indent 2 (Suc 0)) (map member ?ms))"
    using length_join [of "map member ?ms"] by (simp add: member_not_empty)
  then have fuel: "length ?ms < length (CHR ''{'' # ?inner)"
    by simp
  have inner: "parse_members (length (CHR ''{'' # ?inner)) [] ?inner = Some (JObj ([] @ ?ms), [])"
    using ne fl di _ fuel by (rule parse_members_list) simp
  obtain t where "member m = dquote # t"
    using member_first by blast
  then obtain t' where "join ('','' @ newline_indent 2 (Suc 0)) (map member ?ms) = dquote # t'"
    using Cons join_first [of "'','' @ newline_indent 2 (Suc 0)" dquote t "map member ms"]
    by auto
  then have first: "skip_ws ?inner \<noteq> [] \<and> hd (skip_ws ?inner) \<noteq> CHR ''}''"
    by (simp add: newline_indent_def is_ws_def numeral_2_eq_2) (simp add: dquote_def)
  then obtain d ds where sk: "skip_ws ?inner = d # ds" and d: "d \<noteq> CHR ''}''"
    by (cases "skip_ws ?inner") auto
  have "parse_value (Suc (length (CHR ''{'' # ?inner))) (CHR ''{'' # ?inner)
          = Some (JObj ?ms, [])"
    using inner sk d by (simp add: is_ws_def del: parse_members.simps)
  then show ?thesis
    by (simp only: ser JSON_parse_def) simp
qed

lemma property_missing: "k \<notin> fst ` set ps \<Longrightarrow> property ps k = JUndefined"
  by (induction ps) auto

lemma property_defined:
  "distinct (map fst ps) \<Longrightarrow> property (defined ps) k = property ps k"
proof (induction ps)
  case Nil
  then show ?case by (simp add: defined_def)
next
  case (Cons p ps)
  obtain k' v' where p: "p = (k', v')" by (cases p)
  from Cons.prems p have fresh: "k' \<notin> fst ` set ps" and d: "distinct (map fst ps)"
    by simp_all
  from Cons.IH [OF d] have ih: "property (defined ps) k = property ps k" .
  show ?case
  proof (cases "v' = JUndefined")
    case True
    with p ih property_missing [OF fresh] show ?thesis
      by (auto simp add: defined_def)
  next
    case False
    with p ih show ?thesis
      by (simp add: defined_def)
  qed
qed

lemma defined_all: "JUndefined \<notin> snd ` set ps \<Longrightarrow> defined ps = ps"
  by (induction ps) (auto simp add: defined_def)

lemma saveConfig_object:
  "write_error e = None \<Longrightarrow>
   saveConfig e (JObj ps) st =
     (Inr (), st\<lparr>config := JObj ps, configFile := Content (SerializeJSON 2 0 (JObj ps))\<rparr>)"
  by (simp add: saveConfig_def writeFile_def JSON_stringify_def)

text \<open>
  C4. For every \<^verbatim>\<open>LoggerConfig\<close> value, when the file can be written, \<open>saveConfig\<close>
  followed by \<open>loadConfig\<close> returns the value saved: the same object when none of its
  properties is \<^verbatim>\<open>undefined\<close>, and otherwise the object without those properties, which
  is a \<^verbatim>\<open>LoggerConfig\<close> again and reads the same at every key.
\<close>

theorem save_then_load:
  assumes "LoggerConfig (JObj ps)" and "write_error e = None"
  shows "saveConfig e (JObj ps) st =
           (Inr (), st\<lparr>config := JObj ps, configFile := Content (SerializeJSON 2 0 (JObj ps))\<rparr>)
    \<and> fst (loadConfig (snd (saveConfig e (JObj ps) st))) = Inr (JObj (defined ps))
    \<and> (\<forall>k. get_opt (JObj (defined ps)) k = get_opt (JObj ps) k)
    \<and> LoggerConfig (JObj (defined ps))
    \<and> (JUndefined \<notin> snd ` set ps \<longrightarrow>
         fst (loadConfig (snd (saveConfig e (JObj ps) st))) = Inr (JObj ps))"
proof -
  from assms(1) have fl: "list_all (\<lambda>p. flat (snd p)) ps" and di: "distinct (map fst ps)"
    by simp_all
  have p: "JSON_parse (SerializeJSON 2 0 (JObj ps)) = Some (JObj (defined ps))"
    using fl di by (rule parse_flat_object)
  have s: "saveConfig e (JObj ps) st =
           (Inr (), st\<lparr>config := JObj ps, configFile := Content (SerializeJSON 2 0 (JObj ps))\<rparr>)"
    using assms(2) by (rule saveConfig_object)
  have l: "fst (loadConfig (snd (saveConfig e (JObj ps) st))) = Inr (JObj (defined ps))"
    by (simp add: s loadConfig_cases p del: SerializeJSON.simps)
  have g: "\<forall>k. get_opt (JObj (defined ps)) k = get_opt (JObj ps) k"
    using property_defined [OF di] by simp
  have c: "LoggerConfig (JObj (defined ps))"
    using assms(1) property_defined [OF di]
    by (simp add: defined_def distinct_map_filter list_all_iff)
  from s l g c show ?thesis
    by (auto simp add: defined_all)
qed

theorem save_then_load_witness:
  "LoggerConfig (setup_config offline (example_args (JStr ''ghp_a'')))
   \<and> fst (loadConfig (snd (saveConfig offline (setup_config offline (example_args (JStr ''ghp_a'')))
                             (initial Missing))))
     = Inr (example_config (JStr ''ghp_a''))
   \<and> fst (loadConfig (snd (saveConfig offline (example_config (JStr ''ghp_a'')) (initial Missing))))
     = Inr (example_config (JStr ''ghp_a''))"
proof -
  let ?ps = "[(''webhook_url'', JStr ''https://n8n.example/webhook/log''),
     (''github_repo'', JStr ''john/chat-transcripts''),
     (''github_token'', JStr ''ghp_a''),
     (''session_id'', JStr ''claude-1757000000000-4fzyo82mv''),
     (''auto_log'', JBool True),
     (''project'', JUndefined)]"
  let ?qs = "[(''webhook_url'', JStr ''https://n8n.example/webhook/log''),
     (''github_repo'', JStr ''john/chat-transcripts''),
     (''github_token'', JStr ''ghp_a''),
     (''session_id'', JStr ''claude-1757000000000-4fzyo82mv''),
     (''auto_log'', JBool True)]"
  have c: "setup_config offline (example_args (JStr ''ghp_a'')) = JObj ?ps"
    by (simp add: setup_config_def example_args_def generateSessionId_offline)
  have x: "example_config (JStr ''ghp_a'') = JObj ?qs"
    by (simp add: example_config_def)
  have d: "defined ?ps = ?qs"
    by (simp add: defined_def)
  have lc: "LoggerConfig (JObj ?ps)" "LoggerConfig (JObj ?qs)"
    by simp_all
  have w: "write_error offline = None"
    by (simp add: offline_def)
  have u: "JUndefined \<notin> snd ` set ?qs"
    by simp
  have a: "fst (loadConfig (snd (saveConfig offline (JObj ?ps) (initial Missing)))) = Inr (JObj ?qs)"
    using save_then_load [OF lc(1) w, of "initial Missing", THEN conjunct2, THEN conjunct1]
    by (simp only: d)
  have b: "fst (loadConfig (snd (saveConfig offline (JObj ?qs) (initial Missing)))) = Inr (JObj ?qs)"
    using save_then_load [OF lc(2) w, of "initial Missing", THEN conjunct2, THEN conjunct2,
        THEN conjunct2, THEN conjunct2, THEN mp, OF u] .
  from lc a b show ?thesis
    by (simp only: c x simp_thms)
qed

section \<open>The stored session id\<close>

lemma sendToN8N_configFile: "configFile (snd (sendToN8N e ent st)) = configFile st"
  by (simp add: sendToN8N_def fetch_def split: prod.splits sum.splits)

lemma retrieveTranscripts_configFile:
  "configFile (snd (retrieveTranscripts e proj st)) = configFile st"
  by (simp add: retrieveTranscripts_def split: prod.splits sum.splits)

lemma log_conversation_configFile:
  "configFile (snd (log_conversation e args st)) = configFile st"
proof -
  obtain l st1 where l: "loadConfig st = (l, st1)" by (cases "loadConfig st")
  then have c: "configFile st1 = configFile st"
    using loadConfig_configFile [of st] by simp
  obtain r st2 where s: "sendToN8N e (log_entry e (config st1) args) st1 = (r, st2)"
    by (cases "sendToN8N e (log_entry e (config st1) args) st1")
  then have "configFile st2 = configFile st1"
    using sendToN8N_configFile [of e "log_entry e (config st1) args" st1] by simp
  with c l s show ?thesis
    by (simp add: log_conversation_def split: sum.splits)
qed

lemma retrieve_chat_history_configFile:
  "configFile (snd (retrieve_chat_history e args st)) = configFile st"
proof -
  obtain l st1 where l: "loadConfig st = (l, st1)" by (cases "loadConfig st")
  then have c: "configFile st1 = configFile st"
    using loadConfig_configFile [of st] by simp
  obtain r st2 where s: "retrieveTranscripts e (get_opt args ''project'') st1 = (r, st2)"
    by (cases "retrieveTranscripts e (get_opt args ''project'') st1")
  then have "configFile st2 = configFile st1"
    using retrieveTranscripts_configFile [of e "get_opt args ''project''" st1] by simp
  with c l s show ?thesis
    by (simp add: retrieve_chat_history_def split: sum.splits)
qed

lemma get_logger_status_configFile:
  "configFile (snd (get_logger_status st)) = configFile st"
  using loadConfig_configFile [of st]
  by (cases "loadConfig st") (simp add: get_logger_status_def split: sum.splits)

lemma update_session_context_configFile:
  "configFile (snd (update_session_context args st)) = configFile st"
  by (simp add: update_session_context_def)

lemma call_tool_configFile:
  "name \<noteq> ''setup_github_logging'' \<Longrightarrow>
   configFile (snd (call_tool e name args st)) = configFile st"
  by (simp add: snd_call_tool dispatch_def log_conversation_configFile
      retrieve_chat_history_configFile get_logger_status_configFile
      update_session_context_configFile)

lemma run_configFile:
  "\<forall>c \<in> set calls. fst (snd c) \<noteq> ''setup_github_logging'' \<Longrightarrow>
   configFile (run calls st) = configFile st"
proof (induction calls arbitrary: st)
  case Nil
  then show ?case by simp
next
  case (Cons c calls)
  obtain e name args where c: "c = (e, name, args)" by (cases c)
  with Cons.prems have n: "name \<noteq> ''setup_github_logging''" by simp
  from Cons.prems have "\<forall>c \<in> set calls. fst (snd c) \<noteq> ''setup_github_logging''" by simp
  then have "configFile (run calls (snd (call_tool e name args st)))
              = configFile (snd (call_tool e name args st))"
    by (rule Cons.IH)
  with c call_tool_configFile [OF n] show ?case by simp
qed

lemma stored_setup:
  assumes "LoggerConfig (setup_config e args)"
  shows "stored_session_id
           (st\<lparr>config := setup_config e args,
               configFile := Content (SerializeJSON 2 0 (setup_config e args))\<rparr>)
         = JStr (generateSessionId e)"
proof -
  obtain ps where ps: "setup_config e args = JObj ps"
    by (simp add: setup_config_def)
  with assms have "list_all (\<lambda>p. flat (snd p)) ps" and d: "distinct (map fst ps)"
    by simp_all
  then have p: "JSON_parse (SerializeJSON 2 0 (JObj ps)) = Some (JObj (defined ps))"
    by (rule parse_flat_object)
  have "property (defined ps) ''session_id'' = property ps ''session_id''"
    using d by (rule property_defined)
  also have "\<dots> = get_opt (setup_config e args) ''session_id''"
    by (simp add: ps)
  also have "\<dots> = JStr (generateSessionId e)"
    by (simp add: setup_config_def)
  finally show ?thesis
    by (simp add: stored_session_id_def ps p del: SerializeJSON.simps)
qed

subsection \<open>The generated id\<close>

text \<open>
  \<open>generateSessionId\<close> writes the clock in decimal digits, a hyphen, and nine characters
  of the random source: two generated ids are equal only when the clock and those nine
  characters are.
\<close>

lemma digit_char_cases:
  assumes "d < 10"
  shows "d = 0 \<or> d = 1 \<or> d = 2 \<or> d = 3 \<or> d = 4 \<or> d = 5 \<or> d = 6 \<or> d = 7 \<or> d = 8 \<or> d = (9::nat)"
  using assms by arith

lemma digit_val_digit_char: "d < 10 \<Longrightarrow> digit_val (digit_char d) = d"
  by (drule digit_char_cases) (elim disjE, simp_all add: digit_val_def digit_char_def)

lemma is_digit_digit_char: "d < 10 \<Longrightarrow> is_digit (digit_char d)"
  by (drule digit_char_cases) (elim disjE, simp_all add: is_digit_def digit_char_def)

lemma digits_val_snoc: "digits_val (ds @ [c]) = 10 * digits_val ds + digit_val c"
  by (simp add: digits_val_def)

lemma digits_val_dec_nat: "digits_val (dec_nat n) = n"
proof (induction n rule: dec_nat.induct)
  case (1 n)
  show ?case
  proof (cases "n < 10")
    case True
    then show ?thesis
      by (simp add: dec_nat.simps [of n] digits_val_def digit_val_digit_char)
  next
    case False
    with 1 have "digits_val (dec_nat (n div 10)) = n div 10"
      by simp
    with False show ?thesis
      by (simp add: dec_nat.simps [of n] digits_val_snoc digit_val_digit_char)
  qed
qed

lemma dec_nat_digits: "list_all is_digit (dec_nat n)"
proof (induction n rule: dec_nat.induct)
  case (1 n)
  show ?case
  proof (cases "n < 10")
    case True
    then show ?thesis
      by (simp add: dec_nat.simps [of n] is_digit_digit_char)
  next
    case False
    with 1 have "list_all is_digit (dec_nat (n div 10))"
      by simp
    with False show ?thesis
      by (simp add: dec_nat.simps [of n] is_digit_digit_char)
  qed
qed

lemma dec_nat_inj: "dec_nat m = dec_nat n \<Longrightarrow> m = n"
  by (metis digits_val_dec_nat)

lemma takeWhile_first: "c \<notin> set a \<Longrightarrow> takeWhile (\<lambda>x. x \<noteq> c) (a @ c # r) = a"
  by (induction a) auto

lemma split_at_first:
  assumes "c \<notin> set a" and "c \<notin> set b" and "a @ c # r = b @ c # t"
  shows "a = b \<and> r = t"
proof -
  have "takeWhile (\<lambda>x. x \<noteq> c) (a @ c # r) = takeWhile (\<lambda>x. x \<noteq> c) (b @ c # t)"
    by (simp only: assms(3))
  then have "a = b"
    by (simp only: takeWhile_first [OF assms(1)] takeWhile_first [OF assms(2)])
  with assms(3) show ?thesis
    by (simp only: same_append_eq list.inject simp_thms)
qed

lemma dec_nat_no_dash: "CHR ''-'' \<notin> set (dec_nat n)"
proof
  assume "CHR ''-'' \<in> set (dec_nat n)"
  with dec_nat_digits [of n] have "is_digit CHR ''-''"
    by (simp add: list_all_iff)
  then show False
    by (simp add: is_digit_def)
qed

lemma generateSessionId_eq:
  "generateSessionId e = generateSessionId e' \<longleftrightarrow>
     now e = now e' \<and> take 9 (drop 2 (random36 e)) = take 9 (drop 2 (random36 e'))"
proof
  assume "generateSessionId e = generateSessionId e'"
  then have "dec_nat (now e) @ CHR ''-'' # take 9 (drop 2 (random36 e))
           = dec_nat (now e') @ CHR ''-'' # take 9 (drop 2 (random36 e'))"
    by (simp add: generateSessionId_def)
  from split_at_first [OF dec_nat_no_dash dec_nat_no_dash this]
  show "now e = now e' \<and> take 9 (drop 2 (random36 e)) = take 9 (drop 2 (random36 e'))"
    by (auto dest: dec_nat_inj)
next
  assume "now e = now e' \<and> take 9 (drop 2 (random36 e)) = take 9 (drop 2 (random36 e'))"
  then show "generateSessionId e = generateSessionId e'"
    by (simp add: generateSessionId_def)
qed

lemma generateSessionId_later:
  "generateSessionId later = ''claude-1757000060000-k3j9x0q2m''"
  by (simp add: generateSessionId_def later_def offline_def dec_nat.simps digit_char_def)

subsection \<open>The stored id\<close>

text \<open>
  C8. A sequence of calls none of which is \<^verbatim>\<open>setup_github_logging\<close> leaves the
  configuration file, and so the stored \<^verbatim>\<open>session_id\<close>, as they were. A call of
  \<^verbatim>\<open>setup_github_logging\<close> with arguments, when the file can be written, replaces the
  record in memory and the file by the record built from the arguments and a session id
  generated from the clock and the random source of that call: nothing of the previous
  record remains, and when the new record is a \<^verbatim>\<open>LoggerConfig\<close> the session id read back
  from the file is the generated one. A call of \<^verbatim>\<open>setup_github_logging\<close> that fails
  leaves the file as it was. The generated id is \<^verbatim>\<open>claude-\<close>, the clock of the call in
  decimal digits, a hyphen, and the third to eleventh character of the random source of
  the call; the ids of two calls are equal only when the two clocks and the two
  nine-character parts are equal, so a call at another time stores another id.
\<close>

theorem session_id_stable:
  "((\<forall>c \<in> set calls. fst (snd c) \<noteq> ''setup_github_logging'')
      \<longrightarrow> configFile (run calls st) = configFile st
          \<and> stored_session_id (run calls st) = stored_session_id st)
   \<and> (truthy args \<and> write_error e = None
      \<longrightarrow> snd (call_tool e ''setup_github_logging'' args st) =
            st\<lparr>config := setup_config e args,
               configFile := Content (SerializeJSON 2 0 (setup_config e args))\<rparr>
          \<and> get_opt (setup_config e args) ''session_id'' = JStr (generateSessionId e))
   \<and> (truthy args \<and> write_error e = None \<and> LoggerConfig (setup_config e args)
      \<longrightarrow> stored_session_id (snd (call_tool e ''setup_github_logging'' args st))
            = JStr (generateSessionId e))
   \<and> (\<not> truthy args \<or> write_error e \<noteq> None
      \<longrightarrow> configFile (snd (call_tool e ''setup_github_logging'' args st)) = configFile st)
   \<and> generateSessionId e
        = ''claude-'' @ dec_nat (now e) @ ''-'' @ take 9 (drop 2 (random36 e))
   \<and> (generateSessionId e = generateSessionId e' \<longleftrightarrow>
        now e = now e' \<and> take 9 (drop 2 (random36 e)) = take 9 (drop 2 (random36 e')))
   \<and> (now e \<noteq> now e' \<and> truthy args \<and> write_error e = None \<and> truthy args'
        \<and> write_error e' = None \<and> LoggerConfig (setup_config e args)
        \<and> LoggerConfig (setup_config e' args')
      \<longrightarrow> stored_session_id
            (snd (call_tool e' ''setup_github_logging'' args'
                    (snd (call_tool e ''setup_github_logging'' args st))))
          \<noteq> stored_session_id (snd (call_tool e ''setup_github_logging'' args st)))"
proof (intro conjI impI)
  show "generateSessionId e
        = ''claude-'' @ dec_nat (now e) @ ''-'' @ take 9 (drop 2 (random36 e))"
    by (simp add: generateSessionId_def)
next
  show "generateSessionId e = generateSessionId e' \<longleftrightarrow>
        now e = now e' \<and> take 9 (drop 2 (random36 e)) = take 9 (drop 2 (random36 e'))"
    by (rule generateSessionId_eq)
next
  assume a: "now e \<noteq> now e' \<and> truthy args \<and> write_error e = None \<and> truthy args'
        \<and> write_error e' = None \<and> LoggerConfig (setup_config e args)
        \<and> LoggerConfig (setup_config e' args')"
  then have "generateSessionId e' \<noteq> generateSessionId e"
    by (simp add: generateSessionId_eq)
  with a show "stored_session_id
            (snd (call_tool e' ''setup_github_logging'' args'
                    (snd (call_tool e ''setup_github_logging'' args st))))
          \<noteq> stored_session_id (snd (call_tool e ''setup_github_logging'' args st))"
    by (simp add: call_setup stored_setup)
next
  assume "\<forall>c \<in> set calls. fst (snd c) \<noteq> ''setup_github_logging''"
  then show "configFile (run calls st) = configFile st"
    by (rule run_configFile)
  then show "stored_session_id (run calls st) = stored_session_id st"
    by (simp add: stored_session_id_def)
next
  assume a: "truthy args \<and> write_error e = None \<and> LoggerConfig (setup_config e args)"
  show "stored_session_id (snd (call_tool e ''setup_github_logging'' args st))
            = JStr (generateSessionId e)"
    using a by (simp add: call_setup stored_setup)
qed (auto simp add: call_setup setup_config_def)

lemma stored_configured: "stored_session_id configured = JStr ''claude-1757000000000-4fzyo82mv''"
  by (simp add: stored_session_id_def configured_def initial_def example_file_parses)
     (simp add: example_config_def)

theorem session_id_stable_witness:
  "stored_session_id
     (run [(online, ''get_logger_status'', JUndefined),
           (offline, ''update_session_context'', JObj [(''user_message'', JStr ''hello'')]),
           (offline, ''log_conversation'', JUndefined)] configured)
     = JStr ''claude-1757000000000-4fzyo82mv''
   \<and> snd (call_tool later ''setup_github_logging'' (example_args (JStr ''ghp_b'')) configured)
     = configured\<lparr>config := setup_config later (example_args (JStr ''ghp_b'')),
          configFile := Content (SerializeJSON 2 0 (setup_config later (example_args (JStr ''ghp_b''))))\<rparr>
   \<and> get_opt (setup_config later (example_args (JStr ''ghp_b''))) ''session_id''
     = JStr ''claude-1757000060000-k3j9x0q2m''
   \<and> stored_session_id configured = JStr ''claude-1757000000000-4fzyo82mv''
   \<and> stored_session_id
       (snd (call_tool later ''setup_github_logging'' (example_args (JStr ''ghp_b'')) configured))
     = JStr ''claude-1757000060000-k3j9x0q2m''
   \<and> configFile (snd (call_tool offline ''setup_github_logging'' JUndefined configured))
     = configFile configured
   \<and> generateSessionId offline = ''claude-1757000000000-4fzyo82mv''
   \<and> generateSessionId offline \<noteq> generateSessionId later
   \<and> stored_session_id
         (snd (call_tool later ''setup_github_logging'' (example_args (JStr ''ghp_b''))
                 (snd (call_tool offline ''setup_github_logging'' (example_args (JStr ''ghp_a''))
                         (initial Missing)))))
       \<noteq> stored_session_id
           (snd (call_tool offline ''setup_github_logging'' (example_args (JStr ''ghp_a''))
                   (initial Missing)))"
proof -
  let ?calls = "[(online, ''get_logger_status'', JUndefined),
           (offline, ''update_session_context'', JObj [(''user_message'', JStr ''hello'')]),
           (offline, ''log_conversation'', JUndefined)]"
  let ?a = "example_args (JStr ''ghp_a'')"
  let ?b = "example_args (JStr ''ghp_b'')"
  have n: "\<forall>c \<in> set ?calls. fst (snd c) \<noteq> ''setup_github_logging''"
    by simp
  have a: "stored_session_id (run ?calls configured) = JStr ''claude-1757000000000-4fzyo82mv''"
    using session_id_stable [where calls = ?calls and st = configured] n stored_configured
    by simp
  have t: "truthy ?b \<and> write_error later = None"
    by (simp add: example_args_def later_def offline_def)
  have b: "snd (call_tool later ''setup_github_logging'' ?b configured)
     = configured\<lparr>config := setup_config later ?b,
          configFile := Content (SerializeJSON 2 0 (setup_config later ?b))\<rparr>
   \<and> get_opt (setup_config later ?b) ''session_id'' = JStr ''claude-1757000060000-k3j9x0q2m''"
    using session_id_stable [where st = configured and args = ?b and e = later,
        THEN conjunct2, THEN conjunct1, THEN mp, OF t]
    by (simp only: generateSessionId_later)
  have lc: "LoggerConfig (setup_config later ?b)" "LoggerConfig (setup_config offline ?a)"
    by (simp_all add: setup_config_def example_args_def)
  have d: "stored_session_id (snd (call_tool later ''setup_github_logging'' ?b configured))
     = JStr ''claude-1757000060000-k3j9x0q2m''"
    using session_id_stable [where st = configured and args = ?b and e = later,
        THEN conjunct2, THEN conjunct2, THEN conjunct1, THEN mp, OF conjI [OF conjunct1 [OF t]
          conjI [OF conjunct2 [OF t] lc(1)]]]
    by (simp only: generateSessionId_later)
  have c: "configFile (snd (call_tool offline ''setup_github_logging'' JUndefined configured))
     = configFile configured"
    using session_id_stable [where st = configured and args = JUndefined and e = offline
        and calls = "[]"]
    by simp
  have g: "generateSessionId offline = ''claude-1757000000000-4fzyo82mv''"
    using session_id_stable [where e = offline, THEN conjunct2, THEN conjunct2, THEN conjunct2,
        THEN conjunct2, THEN conjunct1]
    by (simp add: offline_def dec_nat.simps digit_char_def)
  have k: "now offline \<noteq> now later"
    by (simp add: later_def offline_def)
  have h: "generateSessionId offline \<noteq> generateSessionId later"
    using session_id_stable [where e = offline and e' = later, THEN conjunct2, THEN conjunct2,
        THEN conjunct2, THEN conjunct2, THEN conjunct2, THEN conjunct1] k
    by simp
  have u: "now offline \<noteq> now later \<and> truthy ?a \<and> write_error offline = None \<and> truthy ?b
        \<and> write_error later = None \<and> LoggerConfig (setup_config offline ?a)
        \<and> LoggerConfig (setup_config later ?b)"
    using k lc t by (simp add: example_args_def offline_def)
  have f: "stored_session_id
         (snd (call_tool later ''setup_github_logging'' ?b
                 (snd (call_tool offline ''setup_github_logging'' ?a (initial Missing)))))
       \<noteq> stored_session_id
           (snd (call_tool offline ''setup_github_logging'' ?a (initial Missing)))"
    using session_id_stable [where e = offline and e' = later and args = ?a and args' = ?b
        and st = "initial Missing", THEN conjunct2, THEN conjunct2,
        THEN conjunct2, THEN conjunct2, THEN conjunct2, THEN conjunct2, THEN mp, OF u] .
  from a b c d g h f stored_configured show ?thesis
    by (simp only: simp_thms)
qed

section \<open>What the texts show of the token\<close>

lemma status_text_token:
  "truthy t1 \<Longrightarrow> truthy t2 \<Longrightarrow>
   status_text (JObj (set_property ''github_token'' t1 ps)) =
   status_text (JObj (set_property ''github_token'' t2 ps))"
  by (simp add: status_text_def property_set_property)

lemma setup_text_token:
  "truthy t1 \<Longrightarrow> truthy t2 \<Longrightarrow>
   setup_text (setup_config e (JObj (set_property ''github_token'' t1 ps))) =
   setup_text (setup_config e (JObj (set_property ''github_token'' t2 ps)))"
  by (simp add: setup_text_def setup_config_def property_set_property)

text \<open>
  C9. Two stored configurations, or two argument objects of \<^verbatim>\<open>setup_github_logging\<close>,
  that differ only in the value of a present (truthy) \<^verbatim>\<open>github_token\<close> give the same
  result of \<^verbatim>\<open>get_logger_status\<close>, and the same result of \<^verbatim>\<open>setup_github_logging\<close>:
  the text shows that a token is there, never its value.
\<close>

theorem token_value_not_displayed:
  assumes "truthy t1" and "truthy t2"
  shows
   "(JSON_parse d1 = Some (JObj (set_property ''github_token'' t1 ps)) \<and>
     JSON_parse d2 = Some (JObj (set_property ''github_token'' t2 ps))
     \<longrightarrow> fst (call_tool e ''get_logger_status'' args (st\<lparr>configFile := Content d1\<rparr>))
         = fst (call_tool e ''get_logger_status'' args (st\<lparr>configFile := Content d2\<rparr>)))
    \<and> fst (call_tool e ''setup_github_logging'' (JObj (set_property ''github_token'' t1 ps)) st)
      = fst (call_tool e ''setup_github_logging'' (JObj (set_property ''github_token'' t2 ps)) st)"
proof (intro conjI impI)
  assume p: "JSON_parse d1 = Some (JObj (set_property ''github_token'' t1 ps)) \<and>
     JSON_parse d2 = Some (JObj (set_property ''github_token'' t2 ps))"
  then show "fst (call_tool e ''get_logger_status'' args (st\<lparr>configFile := Content d1\<rparr>))
         = fst (call_tool e ''get_logger_status'' args (st\<lparr>configFile := Content d2\<rparr>))"
    using status_text_token [OF assms, of ps]
    by (simp add: call_status loadConfig_cases)
next
  show "fst (call_tool e ''setup_github_logging'' (JObj (set_property ''github_token'' t1 ps)) st)
      = fst (call_tool e ''setup_github_logging'' (JObj (set_property ''github_token'' t2 ps)) st)"
    using setup_text_token [OF assms, of e ps]
    by (simp add: call_setup split: option.splits)
qed

theorem token_value_not_displayed_witness:
  "fst (call_tool offline ''get_logger_status'' JUndefined
          (configured\<lparr>configFile := Content (example_file (JStr ''ghp_a''))\<rparr>))
   = fst (call_tool offline ''get_logger_status'' JUndefined
          (configured\<lparr>configFile := Content (example_file (JStr ''ghp_b''))\<rparr>))
   \<and> fst (call_tool offline ''setup_github_logging'' (example_args (JStr ''ghp_a'')) configured)
   = fst (call_tool offline ''setup_github_logging'' (example_args (JStr ''ghp_b'')) configured)"
proof -
  let ?ps = "[(''webhook_url'', JStr ''https://n8n.example/webhook/log''),
     (''github_repo'', JStr ''john/chat-transcripts''),
     (''github_token'', JNull),
     (''session_id'', JStr ''claude-1757000000000-4fzyo82mv''),
     (''auto_log'', JBool True)]"
  let ?qs = "[(''webhook_url'', JStr ''https://n8n.example/webhook/log''),
     (''github_repo'', JStr ''john/chat-transcripts''),
     (''github_token'', JNull)]"
  have c: "example_config t = JObj (set_property ''github_token'' t ?ps)" for t
    by (simp add: example_config_def)
  have a: "example_args t = JObj (set_property ''github_token'' t ?qs)" for t
    by (simp add: example_args_def)
  have t: "truthy (JStr ''ghp_a'')" "truthy (JStr ''ghp_b'')"
    by simp_all
  show ?thesis
    using token_value_not_displayed [OF t, of "example_file (JStr ''ghp_a'')" ?ps
              "example_file (JStr ''ghp_b'')" offline JUndefined configured]
          token_value_not_displayed [OF t, of "[]" ?qs "[]" offline JUndefined configured]
          example_file_parses example_file_parses_b
    by (simp only: c a)
qed

section \<open>The limit of retrieve_chat_history\<close>

lemma online_root:
  "fst (retrieveTranscripts online JUndefined (configured\<lparr>config := example_config (JStr ''ghp_a'')\<rparr>)) = Inr [''ROOT'']"
  by (simp add: walk_eval example_eval json_eval)

lemma slice0_10: "slice0 e ts (JNum 10) = Inr (take 10 ts)"
  by (simp add: slice0_def)

lemma history_text_falsy:
  "\<not> truthy (get_opt args ''limit'') \<Longrightarrow>
   history_text e ts args =
     Inr (if ts = [] then ''No chat transcripts found in the repository.''
          else ''Found '' @ dec_nat (length ts) @ '' transcripts (showing ''
               @ dec_nat (min 10 (length ts)) @ ''):\<newline>\<newline>'' @ summary (take 10 ts))"
  by (simp add: history_text_def js_or_def slice0_10 Let_def min_def)

text \<open>
  C10. When the \<^verbatim>\<open>limit\<close> argument of \<^verbatim>\<open>retrieve_chat_history\<close> is falsy (absent,
  \<^verbatim>\<open>0\<close>, \<^verbatim>\<open>null\<close>, \<^verbatim>\<open>false\<close>, the empty string) and the retrieval finds transcripts,
  the result shows the first ten of them (all of them when there are fewer): never none.
\<close>

theorem limit_falsy_is_ten:
  assumes "\<not> truthy (get_opt args ''limit'')"
    and "loadConfig st = (loaded, st1)"
    and "truthy (config st1)"
    and "retrieveTranscripts e (get_opt args ''project'') st1 = (Inr ts, st2)"
    and "ts \<noteq> []"
  shows "call_tool e ''retrieve_chat_history'' args st =
           (success (''Found '' @ dec_nat (length ts) @ '' transcripts (showing ''
                     @ dec_nat (min 10 (length ts)) @ ''):\<newline>\<newline>''
                     @ summary (take 10 ts)), st2)
         \<and> 0 < min 10 (length ts) \<and> take 10 ts \<noteq> []"
  using assms
  by (simp add: call_tool_def dispatch_def retrieve_chat_history_def history_text_falsy)

theorem limit_falsy_is_ten_witness:
  "content (fst (call_tool online ''retrieve_chat_history'' (JObj [(''limit'', JNum 0)]) configured))
     = ''Found 1 transcripts (showing 1):\<newline>\<newline>**Transcript 1:**\<newline>ROOT\<newline>\<newline>---\<newline>''"
proof -
  let ?st1 = "configured\<lparr>config := example_config (JStr ''ghp_a'')\<rparr>"
  let ?args = "JObj [(''limit'', JNum 0)]"
  obtain st2 where r: "retrieveTranscripts online (get_opt ?args ''project'') ?st1 = (Inr [''ROOT''], st2)"
    using online_root by (cases "retrieveTranscripts online JUndefined ?st1") simp
  have t: "truthy (config ?st1)"
    by (simp add: example_config_def)
  have f: "\<not> truthy (get_opt ?args ''limit'')"
    by simp
  show ?thesis
    using limit_falsy_is_ten [OF f loadConfig_configured t r]
    by (simp add: success_def summary_def transcript_item_def dec_nat.simps digit_char_def enumerate_eq_zip)
qed

section \<open>The log relay\<close>

lemma call_log:
  "call_tool e ''log_conversation'' args st =
    (if \<not> truthy args then (failure no_arguments, st)
     else case loadConfig st of
       (l, st1) \<Rightarrow>
         if \<not> truthy (config st1) then (failure not_configured, st1)
         else (case sendToN8N e (log_entry e (config st1) args) st1 of
                 (Inl err, st2) \<Rightarrow> (failure err, st2)
               | (Inr v, st2) \<Rightarrow>
                   (returned (log_text (log_entry e (config st1) args) v), st2)))"
  by (simp add: call_tool_returned returned_def dispatch_def log_conversation_def
      split: prod.splits sum.splits)

lemma sendToN8N_cases:
  assumes "truthy (get_opt (config st) ''webhook_url'')"
    and "POST (get_opt (config st) ''webhook_url'')
              (JSON_stringify 0 (payload (config st) ent)) = Inr rq"
    and "network e rq = Inr resp"
  shows "sendToN8N e ent st =
          ((if ok resp then json resp
            else Inl (Error (''HTTP '' @ dec_nat (status resp) @ '': '' @ statusText resp))),
           st\<lparr>requests := requests st @ [rq]\<rparr>)"
  using assms by (simp add: sendToN8N_def fetch_def)

text \<open>
  C6. \<open>sendToN8N\<close>, with a webhook address configured and a reply from the endpoint to
  the request it builds, sends exactly that one request. When the status of the reply is
  outside 200 to 299 it fails with the message \<^verbatim>\<open>HTTP <status>: <status text>\<close>; when
  the status is inside and the body is JSON it returns the parsed body, whatever its
  shape.
\<close>

theorem sendToN8N_reply:
  assumes "truthy (get_opt (config st) ''webhook_url'')"
    and "POST (get_opt (config st) ''webhook_url'')
              (JSON_stringify 0 (payload (config st) ent)) = Inr rq"
    and "network e rq = Inr resp"
  shows
    "(status resp < 200 \<or> 300 \<le> status resp \<longrightarrow>
        sendToN8N e ent st =
          (Inl (Error (''HTTP '' @ dec_nat (status resp) @ '': '' @ statusText resp)),
           st\<lparr>requests := requests st @ [rq]\<rparr>))
     \<and> (200 \<le> status resp \<and> status resp < 300 \<and> JSON_parse (body resp) = Some v \<longrightarrow>
        sendToN8N e ent st = (Inr v, st\<lparr>requests := requests st @ [rq]\<rparr>))
     \<and> req_method rq = ''POST''
     \<and> Inr (req_url rq) = ToString (get_opt (config st) ''webhook_url'')
     \<and> req_body rq = JSON_stringify 0 (payload (config st) ent)"
  using sendToN8N_cases [OF assms] assms(2)
  by (auto simp add: ok_def json_def POST_def split: sum.splits)

theorem sendToN8N_reply_witness:
  "fst (sendToN8N failing_webhook (log_entry failing_webhook (example_config (JStr ''ghp_a'')) example_turn)
         (configured\<lparr>config := example_config (JStr ''ghp_a'')\<rparr>))
     = Inl (Error ''HTTP 500: Internal Server Error'')
   \<and> length (requests (snd (sendToN8N failing_webhook
         (log_entry failing_webhook (example_config (JStr ''ghp_a'')) example_turn)
         (configured\<lparr>config := example_config (JStr ''ghp_a'')\<rparr>)))) = 1
   \<and> fst (sendToN8N accepting_webhook (log_entry accepting_webhook (example_config (JStr ''ghp_a'')) example_turn)
         (configured\<lparr>config := example_config (JStr ''ghp_a'')\<rparr>))
     = Inr (JObj [(''ok'', JBool True), (''latest_url'', JStr ''X'')])"
proof -
  let ?st = "configured\<lparr>config := example_config (JStr ''ghp_a'')\<rparr>"
  let ?r500 = "\<lparr>status = 500, statusText = ''Internal Server Error'', body = []\<rparr>"
  let ?r200 = "\<lparr>status = 200, statusText = ''OK'',
                body = SerializeJSON 0 0 (JObj [(''ok'', JBool True), (''latest_url'', JStr ''X'')])\<rparr>"
  let ?rq = "\<lambda>e. \<lparr>req_method = ''POST'', req_url = ''https://n8n.example/webhook/log'',
              req_headers = [(''Content-Type'', ''application/json'')],
              req_body = JSON_stringify 0 (payload (config ?st)
                           (log_entry e (example_config (JStr ''ghp_a'')) example_turn))\<rparr>"
  have t: "truthy (get_opt (config ?st) ''webhook_url'')"
    by (simp add: example_config_def)
  have q: "POST (get_opt (config ?st) ''webhook_url'')
             (JSON_stringify 0 (payload (config ?st)
                (log_entry e (example_config (JStr ''ghp_a'')) example_turn))) = Inr (?rq e)" for e
    by (simp add: POST_def example_config_def)
  have n5: "network failing_webhook r = Inr ?r500" for r
    by (simp add: failing_webhook_def)
  have n2: "network accepting_webhook r = Inr ?r200" for r
    by (simp add: accepting_webhook_def reply_def)
  have p: "JSON_parse (body ?r200) = Some (JObj [(''ok'', JBool True), (''latest_url'', JStr ''X'')])"
    by (simp add: json_eval)
  have d: "dec_nat 500 = ''500''"
    by (simp add: dec_nat.simps digit_char_def)
  have a: "sendToN8N failing_webhook (log_entry failing_webhook (example_config (JStr ''ghp_a'')) example_turn) ?st
        = (Inl (Error ''HTTP 500: Internal Server Error''),
           ?st\<lparr>requests := requests ?st @ [?rq failing_webhook]\<rparr>)"
    using sendToN8N_reply [OF t q n5] d
    by simp
  have b: "fst (sendToN8N accepting_webhook (log_entry accepting_webhook (example_config (JStr ''ghp_a'')) example_turn) ?st)
        = Inr (JObj [(''ok'', JBool True), (''latest_url'', JStr ''X'')])"
    using sendToN8N_reply [OF t q n2] p
    by simp
  from a b show ?thesis
    by (simp add: configured_def initial_def)
qed

section \<open>Missing arguments\<close>

lemma unconfigured_parses:
  "JSON_parse unconfigured_webhook_file =
     Some (JObj [(''session_id'', JStr ''claude-1757000000000-4fzyo82mv''), (''auto_log'', JBool True)])"
  by (simp add: unconfigured_webhook_file_def json_eval)

lemma setup_config_empty:
  "SerializeJSON 2 0 (setup_config offline (JObj [])) = unconfigured_webhook_file"
  by (simp add: setup_config_def unconfigured_webhook_file_def generateSessionId_offline)

text \<open>
  Against C3 as stated: \<^verbatim>\<open>setup_github_logging\<close> with an empty arguments object
  succeeds and writes a record without \<^verbatim>\<open>webhook_url\<close>; \<^verbatim>\<open>log_conversation\<close> with an
  empty arguments object sends its request to the webhook and succeeds.
\<close>

theorem missing_arguments_accepted:
  "isError (fst (call_tool offline ''setup_github_logging'' (JObj []) (initial Missing))) = False
   \<and> configFile (snd (call_tool offline ''setup_github_logging'' (JObj []) (initial Missing)))
       = Content unconfigured_webhook_file
   \<and> get_opt (config (snd (call_tool offline ''setup_github_logging'' (JObj []) (initial Missing))))
         ''webhook_url'' = JUndefined
   \<and> isError (fst (call_tool accepting_webhook ''log_conversation'' (JObj []) configured)) = False
   \<and> length (requests (snd (call_tool accepting_webhook ''log_conversation'' (JObj []) configured))) = 1"
proof -
  have w: "write_error offline = None"
    by (simp add: offline_def)
  have a: "call_tool offline ''setup_github_logging'' (JObj []) (initial Missing)
        = (returned (setup_text (setup_config offline (JObj []))),
           (initial Missing)\<lparr>config := setup_config offline (JObj []),
                             configFile := Content unconfigured_webhook_file\<rparr>)"
    by (simp add: call_setup w setup_config_empty)
  have a': "\<exists>t. setup_text (setup_config offline (JObj [])) = Inr t"
    by (simp add: setup_text_def setup_config_def js_or_def)
  let ?c = "example_config (JStr ''ghp_a'')"
  let ?st1 = "configured\<lparr>config := ?c\<rparr>"
  let ?ent = "log_entry accepting_webhook ?c (JObj [])"
  let ?v = "JObj [(''ok'', JBool True), (''latest_url'', JStr ''X'')]"
  let ?r200 = "\<lparr>status = 200, statusText = ''OK'', body = SerializeJSON 0 0 ?v\<rparr>"
  have t: "truthy (get_opt (config ?st1) ''webhook_url'')"
    by (simp add: example_config_def)
  have n2: "network accepting_webhook r = Inr ?r200" for r
    by (simp add: accepting_webhook_def reply_def)
  have j: "ok ?r200" "json ?r200 = Inr ?v"
    by (simp_all add: ok_def json_def json_eval)
  obtain rq where q: "POST (get_opt (config ?st1) ''webhook_url'')
                       (JSON_stringify 0 (payload (config ?st1) ?ent)) = Inr rq"
    by (simp add: POST_def example_config_def)
  have s: "sendToN8N accepting_webhook ?ent ?st1 =
            (Inr ?v, ?st1\<lparr>requests := requests ?st1 @ [rq]\<rparr>)"
    using sendToN8N_cases [OF t q n2] j by simp
  have x: "\<exists>t. log_text ?ent ?v = Inr t"
    by (simp add: log_text_def log_entry_def js_or_def tools_def get_or_def example_config_def)
  then obtain msg where x': "log_text ?ent ?v = Inr msg" ..
  have c: "truthy (config ?st1)"
    by (simp add: example_config_def)
  have b: "call_tool accepting_webhook ''log_conversation'' (JObj []) configured
        = (success msg, ?st1\<lparr>requests := requests ?st1 @ [rq]\<rparr>)"
    using c by (simp add: call_log loadConfig_configured s x' returned_def)
  from a' obtain t where "setup_text (setup_config offline (JObj [])) = Inr t" ..
  with a b show ?thesis
    by (simp add: success_def returned_def setup_config_def configured_def initial_def)
qed


lemma call_log_unconfigured_webhook:
  assumes "truthy args" and "configFile st = Content d" and "JSON_parse d = Some c"
    and "truthy c" and "\<not> truthy (get_opt c ''webhook_url'')"
  shows "call_tool e ''log_conversation'' args st =
           (failure (Error ''Webhook URL not configured''), st\<lparr>config := c\<rparr>)"
  using assms by (simp add: call_log loadConfig_parsed sendToN8N_def)

lemma setup_text_convertible:
  assumes "ToString (get_opt args ''webhook_url'') = Inr webhook"
    and "ToString (get_opt args ''github_repo'') = Inr repo"
    and "ToString (js_or (get_opt args ''project'') (JStr ''None'')) = Inr proj"
  shows "setup_text (setup_config e args) =
    Inr (''GitHub logging configured successfully!\<newline>\<newline>''
         @ ''- Webhook: '' @ webhook @ ''\<newline>''
         @ ''- Repository: '' @ repo @ ''\<newline>''
         @ ''- GitHub Token: ''
         @ (if truthy (get_opt args ''github_token'') then ''Configured (hidden for security)''
            else ''Not provided'') @ ''\<newline>''
         @ ''- Session ID: '' @ generateSessionId e @ ''\<newline>''
         @ ''- Auto-logging: ''
         @ (if get_opt args ''auto_log'' \<noteq> JBool False then ''Enabled'' else ''Disabled'')
         @ ''\<newline>''
         @ ''- Project: '' @ proj @ ''\<newline>\<newline>''
         @ ''Your conversations will now be logged to GitHub via n8n with authenticated access.'')"
  using assms by (simp add: setup_text_def setup_config_def)

lemma setup_text_thrown:
  assumes "ToString (get_opt args ''webhook_url'') = Inl err"
  shows "setup_text (setup_config e args) = Inl err"
  using assms by (simp add: setup_text_def setup_config_def)

text \<open>
  C3, amended. \<^verbatim>\<open>setup_github_logging\<close>, \<^verbatim>\<open>log_conversation\<close> and
  \<^verbatim>\<open>update_session_context\<close> called without an arguments object fail with
  \<^verbatim>\<open>No arguments provided\<close> and leave the state as it was: no request is sent, nothing
  is written. The single arguments are not checked: \<^verbatim>\<open>setup_github_logging\<close> with an
  arguments object, when the file can be written, saves the record built from whatever
  is there, a missing \<^verbatim>\<open>webhook_url\<close> as missing, and then returns what the
  confirmation text gives: the text, in which a missing argument reads \<^verbatim>\<open>undefined\<close>,
  or, with the record already saved, the error of an argument that cannot be converted
  to a string. A stored record without \<^verbatim>\<open>webhook_url\<close> makes a later
  \<^verbatim>\<open>log_conversation\<close> fail with \<^verbatim>\<open>Webhook URL not configured\<close> before any request
  is sent.
\<close>

theorem arguments_checked_as_a_whole:
  "(name \<in> {''setup_github_logging'', ''log_conversation'', ''update_session_context''}
      \<and> \<not> truthy args
      \<longrightarrow> call_tool e name args st = (failure no_arguments, st))
   \<and> (truthy args \<and> write_error e = None
      \<longrightarrow> snd (call_tool e ''setup_github_logging'' args st) =
            st\<lparr>config := setup_config e args,
               configFile := Content (SerializeJSON 2 0 (setup_config e args))\<rparr>
          \<and> fst (call_tool e ''setup_github_logging'' args st) =
            returned (setup_text (setup_config e args))
          \<and> get_opt (config (snd (call_tool e ''setup_github_logging'' args st))) ''webhook_url''
            = get_opt args ''webhook_url'')
   \<and> (truthy args \<and> write_error e = None
        \<and> ToString (get_opt args ''webhook_url'') = Inr webhook
        \<and> ToString (get_opt args ''github_repo'') = Inr repo
        \<and> ToString (js_or (get_opt args ''project'') (JStr ''None'')) = Inr proj
      \<longrightarrow> fst (call_tool e ''setup_github_logging'' args st) =
            success
             (''GitHub logging configured successfully!\<newline>\<newline>''
              @ ''- Webhook: '' @ webhook @ ''\<newline>''
              @ ''- Repository: '' @ repo @ ''\<newline>''
              @ ''- GitHub Token: ''
              @ (if truthy (get_opt args ''github_token'')
                 then ''Configured (hidden for security)'' else ''Not provided'') @ ''\<newline>''
              @ ''- Session ID: '' @ generateSessionId e @ ''\<newline>''
              @ ''- Auto-logging: ''
              @ (if get_opt args ''auto_log'' \<noteq> JBool False then ''Enabled'' else ''Disabled'')
              @ ''\<newline>''
              @ ''- Project: '' @ proj @ ''\<newline>\<newline>''
              @ ''Your conversations will now be logged to GitHub via n8n with authenticated access.''))
   \<and> (truthy args \<and> write_error e = None
        \<and> ToString (get_opt args ''webhook_url'') = Inl err
      \<longrightarrow> fst (call_tool e ''setup_github_logging'' args st) = failure err
          \<and> configFile (snd (call_tool e ''setup_github_logging'' args st))
            = Content (SerializeJSON 2 0 (setup_config e args)))
   \<and> (truthy args \<and> configFile st = Content d \<and> JSON_parse d = Some c
      \<and> truthy c \<and> \<not> truthy (get_opt c ''webhook_url'')
      \<longrightarrow> call_tool e ''log_conversation'' args st =
            (failure (Error ''Webhook URL not configured''), st\<lparr>config := c\<rparr>))"
proof (intro conjI impI)
  assume "name \<in> {''setup_github_logging'', ''log_conversation'', ''update_session_context''}
      \<and> \<not> truthy args"
  then show "call_tool e name args st = (failure no_arguments, st)"
    by (auto simp add: call_setup call_log call_update)
next
  assume "truthy args \<and> write_error e = None"
  then show "snd (call_tool e ''setup_github_logging'' args st) =
            st\<lparr>config := setup_config e args,
               configFile := Content (SerializeJSON 2 0 (setup_config e args))\<rparr>"
    and "fst (call_tool e ''setup_github_logging'' args st) =
            returned (setup_text (setup_config e args))"
    and "get_opt (config (snd (call_tool e ''setup_github_logging'' args st))) ''webhook_url''
            = get_opt args ''webhook_url''"
    by (simp_all add: call_setup setup_config_def)
next
  assume a: "truthy args \<and> write_error e = None
        \<and> ToString (get_opt args ''webhook_url'') = Inr webhook
        \<and> ToString (get_opt args ''github_repo'') = Inr repo
        \<and> ToString (js_or (get_opt args ''project'') (JStr ''None'')) = Inr proj"
  then have "setup_text (setup_config e args) =
    Inr (''GitHub logging configured successfully!\<newline>\<newline>''
         @ ''- Webhook: '' @ webhook @ ''\<newline>''
         @ ''- Repository: '' @ repo @ ''\<newline>''
         @ ''- GitHub Token: ''
         @ (if truthy (get_opt args ''github_token'') then ''Configured (hidden for security)''
            else ''Not provided'') @ ''\<newline>''
         @ ''- Session ID: '' @ generateSessionId e @ ''\<newline>''
         @ ''- Auto-logging: ''
         @ (if get_opt args ''auto_log'' \<noteq> JBool False then ''Enabled'' else ''Disabled'')
         @ ''\<newline>''
         @ ''- Project: '' @ proj @ ''\<newline>\<newline>''
         @ ''Your conversations will now be logged to GitHub via n8n with authenticated access.'')"
    by (simp add: setup_text_convertible)
  with a show "fst (call_tool e ''setup_github_logging'' args st) =
            success
             (''GitHub logging configured successfully!\<newline>\<newline>''
              @ ''- Webhook: '' @ webhook @ ''\<newline>''
              @ ''- Repository: '' @ repo @ ''\<newline>''
              @ ''- GitHub Token: ''
              @ (if truthy (get_opt args ''github_token'')
                 then ''Configured (hidden for security)'' else ''Not provided'') @ ''\<newline>''
              @ ''- Session ID: '' @ generateSessionId e @ ''\<newline>''
              @ ''- Auto-logging: ''
              @ (if get_opt args ''auto_log'' \<noteq> JBool False then ''Enabled'' else ''Disabled'')
              @ ''\<newline>''
              @ ''- Project: '' @ proj @ ''\<newline>\<newline>''
              @ ''Your conversations will now be logged to GitHub via n8n with authenticated access.'')"
    by (simp only: call_setup returned_def) simp
next
  assume a: "truthy args \<and> write_error e = None
        \<and> ToString (get_opt args ''webhook_url'') = Inl err"
  then have "setup_text (setup_config e args) = Inl err"
    by (simp add: setup_text_thrown)
  with a show "fst (call_tool e ''setup_github_logging'' args st) = failure err"
    and "configFile (snd (call_tool e ''setup_github_logging'' args st))
            = Content (SerializeJSON 2 0 (setup_config e args))"
    by (simp_all add: call_setup returned_def del: SerializeJSON.simps)
next
  assume "truthy args \<and> configFile st = Content d \<and> JSON_parse d = Some c
      \<and> truthy c \<and> \<not> truthy (get_opt c ''webhook_url'')"
  then show "call_tool e ''log_conversation'' args st =
            (failure (Error ''Webhook URL not configured''), st\<lparr>config := c\<rparr>)"
    by (simp add: call_log_unconfigured_webhook)
qed

theorem arguments_checked_as_a_whole_witness:
  "call_tool accepting_webhook ''log_conversation'' JUndefined configured
     = (failure (Error ''No arguments provided''), configured)
   \<and> snd (call_tool offline ''setup_github_logging'' (JObj []) (initial Missing))
     = (initial Missing)\<lparr>config := setup_config offline (JObj []),
                         configFile := Content unconfigured_webhook_file\<rparr>
   \<and> get_opt (config (snd (call_tool offline ''setup_github_logging'' (JObj []) (initial Missing))))
        ''webhook_url'' = JUndefined
   \<and> fst (call_tool offline ''setup_github_logging'' (JObj []) (initial Missing))
     = success
        (''GitHub logging configured successfully!\<newline>\<newline>''
         @ ''- Webhook: undefined\<newline>''
         @ ''- Repository: undefined\<newline>''
         @ ''- GitHub Token: Not provided\<newline>''
         @ ''- Session ID: claude-1757000000000-4fzyo82mv\<newline>''
         @ ''- Auto-logging: Enabled\<newline>''
         @ ''- Project: None\<newline>\<newline>''
         @ ''Your conversations will now be logged to GitHub via n8n with authenticated access.'')
   \<and> fst (call_tool offline ''setup_github_logging''
            (JObj [(''webhook_url'', unconvertible)]) (initial Missing))
     = failure not_primitive
   \<and> (\<exists>d. configFile (snd (call_tool offline ''setup_github_logging''
                 (JObj [(''webhook_url'', unconvertible)]) (initial Missing))) = Content d)
   \<and> call_tool accepting_webhook ''log_conversation'' example_turn
         (initial (Content unconfigured_webhook_file))
     = (failure (Error ''Webhook URL not configured''),
        (initial (Content unconfigured_webhook_file))
           \<lparr>config := JObj [(''session_id'', JStr ''claude-1757000000000-4fzyo82mv''),
                            (''auto_log'', JBool True)]\<rparr>)"
proof -
  let ?c = "JObj [(''session_id'', JStr ''claude-1757000000000-4fzyo82mv''),
                  (''auto_log'', JBool True)]"
  let ?x = "JObj [(''webhook_url'', unconvertible)]"
  have a: "call_tool accepting_webhook ''log_conversation'' JUndefined configured
     = (failure (Error ''No arguments provided''), configured)"
    using arguments_checked_as_a_whole
            [where name = "''log_conversation''" and args = JUndefined and e = accepting_webhook
               and st = configured]
    by (simp add: no_arguments_def)
  have w: "truthy (JObj []) \<and> write_error offline = None"
    by (simp add: offline_def)
  have b: "snd (call_tool offline ''setup_github_logging'' (JObj []) (initial Missing))
     = (initial Missing)\<lparr>config := setup_config offline (JObj []),
                         configFile := Content unconfigured_webhook_file\<rparr>
     \<and> get_opt (config (snd (call_tool offline ''setup_github_logging'' (JObj [])
                               (initial Missing)))) ''webhook_url'' = JUndefined"
    using arguments_checked_as_a_whole
            [where args = "JObj []" and e = offline and st = "initial Missing",
             THEN conjunct2, THEN conjunct1, THEN mp, OF w]
    by (simp add: setup_config_empty) (simp add: setup_config_def)
  have w2: "truthy (JObj []) \<and> write_error offline = None
        \<and> ToString (get_opt (JObj []) ''webhook_url'') = Inr ''undefined''
        \<and> ToString (get_opt (JObj []) ''github_repo'') = Inr ''undefined''
        \<and> ToString (js_or (get_opt (JObj []) ''project'') (JStr ''None'')) = Inr ''None''"
    by (simp add: offline_def js_or_def)
  have b2: "fst (call_tool offline ''setup_github_logging'' (JObj []) (initial Missing))
     = success
        (''GitHub logging configured successfully!\<newline>\<newline>''
         @ ''- Webhook: undefined\<newline>''
         @ ''- Repository: undefined\<newline>''
         @ ''- GitHub Token: Not provided\<newline>''
         @ ''- Session ID: claude-1757000000000-4fzyo82mv\<newline>''
         @ ''- Auto-logging: Enabled\<newline>''
         @ ''- Project: None\<newline>\<newline>''
         @ ''Your conversations will now be logged to GitHub via n8n with authenticated access.'')"
    using arguments_checked_as_a_whole
            [where args = "JObj []" and e = offline and st = "initial Missing",
             THEN conjunct2, THEN conjunct2, THEN conjunct1, THEN mp, OF w2]
    by (simp add: generateSessionId_offline)
  have w3: "truthy ?x \<and> write_error offline = None
        \<and> ToString (get_opt ?x ''webhook_url'') = Inl not_primitive"
    by (simp add: offline_def unconvertible_def)
  have b3: "fst (call_tool offline ''setup_github_logging'' ?x (initial Missing))
              = failure not_primitive
     \<and> (\<exists>d. configFile (snd (call_tool offline ''setup_github_logging'' ?x (initial Missing)))
              = Content d)"
    using arguments_checked_as_a_whole
            [where args = ?x and e = offline and st = "initial Missing",
             THEN conjunct2, THEN conjunct2, THEN conjunct2, THEN conjunct1, THEN mp, OF w3]
    by (simp del: SerializeJSON.simps)
  have h: "truthy example_turn \<and>
           configFile (initial (Content unconfigured_webhook_file)) = Content unconfigured_webhook_file
           \<and> JSON_parse unconfigured_webhook_file = Some ?c
           \<and> truthy ?c \<and> \<not> truthy (get_opt ?c ''webhook_url'')"
    by (simp add: example_turn_def initial_def unconfigured_parses)
  have c: "call_tool accepting_webhook ''log_conversation'' example_turn
         (initial (Content unconfigured_webhook_file))
     = (failure (Error ''Webhook URL not configured''),
        (initial (Content unconfigured_webhook_file))\<lparr>config := ?c\<rparr>)"
    using arguments_checked_as_a_whole
            [where args = example_turn and e = accepting_webhook
               and st = "initial (Content unconfigured_webhook_file)"
               and d = unconfigured_webhook_file and c = ?c,
             THEN conjunct2, THEN conjunct2, THEN conjunct2, THEN conjunct2, THEN mp, OF h] .
  from a b b2 b3 c show ?thesis
    by blast
qed

section \<open>The walk\<close>

lemma get_not_nullish: "\<not> nullish v \<Longrightarrow> get v k = Inr (get_opt v k)"
  by (cases v) (simp_all add: nullish_def)

lemma get_nullish: "nullish v \<Longrightarrow> \<exists>err. get v k = Inl err"
  by (cases v) (simp_all add: nullish_def)

lemma fetch_w_eq: "fetch_w e rq w = (answer e rq, logged rq w)"
  by (simp add: fetch_w_def fetch_def answer_def logged_def split: sum.splits)

lemma transcripts_logged: "transcripts (logged rq w) = transcripts w"
  by (simp add: logged_def split: sum.splits)

lemma GET_string:
  "GET (JStr url) hs = Inr \<lparr>req_method = ''GET'', req_url = url, req_headers = hs, req_body = None\<rparr>"
  by (simp add: GET_def)

subsection \<open>One step of each loop\<close>

lemma files_loop_malformed:
  assumes "malformed f"
  shows "\<exists>err. \<forall>rest w. files_loop e hs (f # rest) w = (Inl err, w)"
proof (cases "nullish f")
  case True
  then obtain err where "get f ''name'' = Inl err"
    using get_nullish by blast
  then show ?thesis by simp
next
  case False
  with assms show ?thesis
    by (cases "get_opt f ''name''") (simp_all add: malformed_def get_not_nullish)
qed

lemma files_loop_md:
  assumes "\<not> malformed f" and "md_file f"
  shows "files_loop e hs (f # rest) w =
    (case answer e (GET (get_opt f ''download_url'') hs) of
       Inl err \<Rightarrow> (Inl err, logged (GET (get_opt f ''download_url'') hs) w)
     | Inr r \<Rightarrow>
         files_loop e hs rest
           (if ok r
            then push (body r) (logged (GET (get_opt f ''download_url'') hs) w)
            else logged (GET (get_opt f ''download_url'') hs) w))"
  using assms
  by (cases "get_opt f ''name''")
     (simp_all add: malformed_def md_file_def get_not_nullish fetch_w_eq split: sum.splits)

lemma files_loop_skip:
  assumes "\<not> malformed f" and "\<not> md_file f"
  shows "files_loop e hs (f # rest) w = files_loop e hs rest w"
  using assms
  by (cases "get_opt f ''name''")
     (auto simp add: malformed_def md_file_def get_not_nullish)

lemma dates_loop_nullish:
  assumes "nullish d"
  shows "\<exists>err. \<forall>rest w. dates_loop e hs (d # rest) w = (Inl err, w)"
proof -
  obtain err where "get d ''type'' = Inl err"
    using assms get_nullish by blast
  then show ?thesis by simp
qed

lemma dates_loop_skip:
  assumes "\<not> nullish d" and "\<not> is_dir d"
  shows "dates_loop e hs (d # rest) w = dates_loop e hs rest w"
  using assms by (simp add: get_not_nullish is_dir_def)

lemma dates_loop_dir:
  assumes "is_dir d"
  shows "dates_loop e hs (d # rest) w =
    (case listDirectory e hs (get_opt d ''url'') of
       Inl err \<Rightarrow> (Inl err, logged (GET (get_opt d ''url'') hs) w)
     | Inr files \<Rightarrow>
        (case files_loop e hs files (logged (GET (get_opt d ''url'') hs) w) of
           (Inl err, w2) \<Rightarrow> (Inl err, w2)
         | (Inr u, w2) \<Rightarrow> dates_loop e hs rest w2))"
proof -
  from assms have "\<not> nullish d"
    by (cases d) (simp_all add: is_dir_def nullish_def)
  with assms show ?thesis
    by (simp add: get_not_nullish is_dir_def fetch_w_eq listDirectory_def
        split: sum.splits prod.splits)
qed

lemma try_year_folder_eq:
  "try_year_folder e hs url w =
    (case listDirectory e hs url of
       Inl err \<Rightarrow> (Inl err, logged (GET url hs) w)
     | Inr dates \<Rightarrow> dates_loop e hs dates (logged (GET url hs) w))"
  by (simp add: try_year_folder_def fetch_w_eq listDirectory_def split: sum.splits)

lemma year_dir_not_broken: "year_dir item \<Longrightarrow> \<not> broken item"
  by (cases item) (simp_all add: year_dir_def broken_def is_dir_def nullish_def)

lemma years_loop_broken:
  assumes "broken item"
  shows "\<exists>err. \<forall>rest w. years_loop e hs (item # rest) w = (Inl err, w)"
proof (cases "nullish item")
  case True
  then obtain err where "get item ''type'' = Inl err"
    using get_nullish by blast
  then show ?thesis by simp
next
  case False
  with assms have "is_dir item" and "isl (is_year (get_opt item ''name''))"
    by (simp_all add: broken_def)
  then obtain err where "get_opt item ''type'' = JStr ''dir''"
    and "is_year (get_opt item ''name'') = Inl err"
    by (cases "is_year (get_opt item ''name'')") (simp_all add: is_dir_def)
  with False show ?thesis
    by (simp add: get_not_nullish)
qed

lemma years_loop_skip:
  assumes "\<not> broken item" and "\<not> year_dir item"
  shows "years_loop e hs (item # rest) w = years_loop e hs rest w"
  using assms
  by (cases "is_year (get_opt item ''name'')")
     (auto simp add: get_not_nullish year_dir_def broken_def is_dir_def)

lemma years_loop_descend:
  assumes "year_dir item"
  shows "years_loop e hs (item # rest) w =
           years_loop e hs rest (getTranscriptsFromYearFolder e hs (get_opt item ''url'') w)"
proof -
  from assms have "\<not> nullish item"
    by (cases item) (simp_all add: year_dir_def is_dir_def nullish_def)
  with assms show ?thesis
    by (simp add: get_not_nullish year_dir_def is_dir_def)
qed

lemma try_project_folder_eq:
  "try_project_folder e hs url w =
    (case listDirectory e hs (JStr url) of
       Inl err \<Rightarrow> (Inl err, logged (GET (JStr url) hs) w)
     | Inr items \<Rightarrow> years_loop e hs items (logged (GET (JStr url) hs) w))"
  by (simp add: try_project_folder_def fetch_w_eq listDirectory_def split: sum.splits)

subsection \<open>What each loop yields\<close>

lemma files_loop_yield:
  "transcripts (snd (files_loop e hs fs w))
     = transcripts w @ snd (in_listing_order (file_visit e hs) fs)
   \<and> isl (fst (files_loop e hs fs w)) = fst (in_listing_order (file_visit e hs) fs)"
proof (induction fs arbitrary: w)
  case Nil
  then show ?case by simp
next
  case (Cons f fs)
  show ?case
  proof (cases "malformed f")
    case True
    then obtain err where s: "files_loop e hs (f # fs) w = (Inl err, w)"
      using files_loop_malformed by blast
    from True have v: "file_visit e hs f = (True, [])"
      by (simp add: file_visit_def)
    show ?thesis
      by (simp only: s in_listing_order.simps v) simp
  next
    case False
    show ?thesis
    proof (cases "md_file f")
      case True
      let ?r = "GET (get_opt f ''download_url'') hs"
      let ?w1 = "logged ?r w"
      note step = files_loop_md [OF False True, of e hs fs w]
      show ?thesis
      proof (cases "answer e ?r")
        case (Inl err)
        from False True Inl have v: "file_visit e hs f = (True, [])"
          by (simp add: file_visit_def fetchFileBody_def)
        from step Inl have s: "files_loop e hs (f # fs) w = (Inl err, ?w1)"
          by simp
        show ?thesis
          by (simp only: s in_listing_order.simps v) (simp add: transcripts_logged)
      next
        case (Inr r)
        from False True Inr
        have v: "file_visit e hs f = (False, if ok r then [body r] else [])"
          by (simp add: file_visit_def fetchFileBody_def)
        from step Inr
        have s: "files_loop e hs (f # fs) w =
                   files_loop e hs fs (if ok r then push (body r) ?w1 else ?w1)"
          by simp
        show ?thesis
          using Cons.IH [of "if ok r then push (body r) ?w1 else ?w1"]
          by (simp only: s in_listing_order.simps v)
             (simp add: push_def transcripts_logged split: prod.splits)
      qed
    next
      case nomd: False
      from False nomd have v: "file_visit e hs f = (False, [])"
        by (simp add: file_visit_def)
      have s: "files_loop e hs (f # fs) w = files_loop e hs fs w"
        using False nomd by (rule files_loop_skip)
      show ?thesis
        using Cons.IH [of w]
        by (simp only: s in_listing_order.simps v) (simp split: prod.splits)
    qed
  qed
qed

lemma dates_loop_yield:
  "transcripts (snd (dates_loop e hs ds w))
     = transcripts w @ snd (in_listing_order (date_visit e hs) ds)
   \<and> isl (fst (dates_loop e hs ds w)) = fst (in_listing_order (date_visit e hs) ds)"
proof (induction ds arbitrary: w)
  case Nil
  then show ?case by simp
next
  case (Cons d ds)
  show ?case
  proof (cases "nullish d")
    case True
    then obtain err where s: "dates_loop e hs (d # ds) w = (Inl err, w)"
      using dates_loop_nullish by blast
    from True have v: "date_visit e hs d = (True, [])"
      by (simp add: date_visit_def)
    show ?thesis
      by (simp only: s in_listing_order.simps v) simp
  next
    case False
    show ?thesis
    proof (cases "is_dir d")
      case nodir: False
      from False nodir have v: "date_visit e hs d = (False, [])"
        by (simp add: date_visit_def)
      have s: "dates_loop e hs (d # ds) w = dates_loop e hs ds w"
        using False nodir by (rule dates_loop_skip)
      show ?thesis
        using Cons.IH [of w]
        by (simp only: s in_listing_order.simps v) (simp split: prod.splits)
    next
      case True
      let ?w1 = "logged (GET (get_opt d ''url'') hs) w"
      note step = dates_loop_dir [OF True, of e hs ds w]
      show ?thesis
      proof (cases "listDirectory e hs (get_opt d ''url'')")
        case (Inl err)
        from False True Inl have v: "date_visit e hs d = (True, [])"
          by (simp add: date_visit_def)
        from step Inl have s: "dates_loop e hs (d # ds) w = (Inl err, ?w1)"
          by simp
        show ?thesis
          by (simp only: s in_listing_order.simps v) (simp add: transcripts_logged)
      next
        case (Inr files)
        from False True Inr
        have v: "date_visit e hs d = in_listing_order (file_visit e hs) files"
          by (simp add: date_visit_def)
        obtain res w2 where f: "files_loop e hs files ?w1 = (res, w2)"
          by (cases "files_loop e hs files ?w1")
        with files_loop_yield [of e hs files ?w1]
        have y: "transcripts w2 = transcripts w @ snd (in_listing_order (file_visit e hs) files)"
          "isl res = fst (in_listing_order (file_visit e hs) files)"
          by (simp_all add: transcripts_logged)
        obtain stop bs where i: "in_listing_order (file_visit e hs) files = (stop, bs)"
          by (cases "in_listing_order (file_visit e hs) files")
        show ?thesis
        proof (cases res)
          case (Inl err)
          with step Inr f have s: "dates_loop e hs (d # ds) w = (Inl err, w2)"
            by simp
          from Inl y i have "stop" by simp
          with y i show ?thesis
            by (simp only: s in_listing_order.simps v) simp
        next
          case r: (Inr u)
          with step Inr f have s: "dates_loop e hs (d # ds) w = dates_loop e hs ds w2"
            by simp
          from r y i have "\<not> stop" by simp
          with y i Cons.IH [of w2] show ?thesis
            by (simp only: s in_listing_order.simps v) (simp split: prod.splits)
        qed
      qed
    qed
  qed
qed

lemma year_folder_yield:
  "transcripts (getTranscriptsFromYearFolder e hs url w) = transcripts w @ year_bodies e hs url"
  using dates_loop_yield [of e hs _ "logged (GET url hs) w"]
  by (simp add: getTranscriptsFromYearFolder_def try_year_folder_eq year_bodies_def
           transcripts_logged split: sum.splits)

lemma years_loop_yield:
  "transcripts (snd (years_loop e hs items w))
     = transcripts w @ snd (in_listing_order (item_visit e hs) items)
   \<and> isl (fst (years_loop e hs items w)) = fst (in_listing_order (item_visit e hs) items)"
proof (induction items arbitrary: w)
  case Nil
  then show ?case by simp
next
  case (Cons item items)
  show ?case
  proof (cases "broken item")
    case True
    then obtain err where s: "years_loop e hs (item # items) w = (Inl err, w)"
      using years_loop_broken by blast
    from True have v: "item_visit e hs item = (True, [])"
      by (simp add: item_visit_def)
    show ?thesis
      by (simp only: s in_listing_order.simps v) simp
  next
    case False
    show ?thesis
    proof (cases "year_dir item")
      case True
      from False True
      have v: "item_visit e hs item = (False, year_bodies e hs (get_opt item ''url''))"
        by (simp add: item_visit_def)
      have s: "years_loop e hs (item # items) w =
                 years_loop e hs items (getTranscriptsFromYearFolder e hs (get_opt item ''url'') w)"
        using True by (rule years_loop_descend)
      show ?thesis
        using Cons.IH [of "getTranscriptsFromYearFolder e hs (get_opt item ''url'') w"]
        by (simp only: s in_listing_order.simps v)
           (simp add: year_folder_yield split: prod.splits)
    next
      case noyear: False
      from False noyear have v: "item_visit e hs item = (False, [])"
        by (simp add: item_visit_def)
      have s: "years_loop e hs (item # items) w = years_loop e hs items w"
        using False noyear by (rule years_loop_skip)
      show ?thesis
        using Cons.IH [of w]
        by (simp only: s in_listing_order.simps v) (simp split: prod.splits)
    qed
  qed
qed

lemma project_folder_yield:
  "transcripts (browse_project_folder e hs url w) = transcripts w @ archive_bodies e hs url"
  using years_loop_yield [of e hs _ "logged (GET (JStr url) hs) w"]
  by (simp add: browse_project_folder_def try_project_folder_eq archive_bodies_def
           transcripts_logged split: sum.splits)

lemma latest_yield:
  "transcripts (fetch_latest e hs url w) = transcripts w @ latest_bodies e hs url"
proof (cases "answer e (GET (JStr url) hs)")
  case (Inl err)
  then show ?thesis
    by (simp add: fetch_latest_def try_latest_def fetch_w_eq latest_bodies_def transcripts_logged)
next
  case (Inr r)
  show ?thesis
  proof (cases "json r")
    case (Inl err)
    with Inr show ?thesis
      by (simp add: fetch_latest_def try_latest_def fetch_w_eq latest_bodies_def
          transcripts_logged)
  next
    case j: (Inr latestData)
    show ?thesis
    proof (cases "nullish latestData")
      case True
      then obtain err where "get latestData ''download_url'' = Inl err"
        using get_nullish by blast
      with Inr j True show ?thesis
        by (simp add: fetch_latest_def try_latest_def fetch_w_eq latest_bodies_def
            transcripts_logged)
    next
      case False
      with Inr j show ?thesis
        by (simp add: fetch_latest_def try_latest_def fetch_w_eq latest_bodies_def
            get_not_nullish fetchFileBody_def push_def transcripts_logged split: sum.splits)
    qed
  qed
qed

subsection \<open>The addresses\<close>

lemma latestUrl_string:
  "ToString repo = Inr r \<Longrightarrow> latestUrl repo = Inr (contents r ''transcripts/latest.md'')"
  by (simp add: latestUrl_def contents_def)

lemma latestUrl_thrown: "ToString repo = Inl err \<Longrightarrow> latestUrl repo = Inl err"
  by (simp add: latestUrl_def)

lemma projectLatestUrl_string:
  "ToString repo = Inr r \<Longrightarrow> ToString proj = Inr p \<Longrightarrow>
   projectLatestUrl repo proj = Inr (contents r (''transcripts/'' @ p @ ''/latest.md''))"
  by (simp add: projectLatestUrl_def contents_def)

lemma projectLatestUrl_thrown:
  "ToString repo = Inr r \<Longrightarrow> ToString proj = Inl err \<Longrightarrow> projectLatestUrl repo proj = Inl err"
  by (simp add: projectLatestUrl_def)

lemma projectFolderUrl_string:
  "ToString repo = Inr r \<Longrightarrow> ToString proj = Inr p \<Longrightarrow>
   projectFolderUrl repo proj = Inr (contents r (''transcripts/'' @ p))"
  by (simp add: projectFolderUrl_def contents_def)

lemma get_github_repo:
  assumes "truthy (get_opt cfg ''github_repo'')"
  shows "get cfg ''github_repo'' = Inr (get_opt cfg ''github_repo'')"
proof -
  have "\<not> nullish cfg"
    using assms by (cases cfg) (simp_all add: nullish_def)
  then show ?thesis
    by (rule get_not_nullish)
qed

subsection \<open>The outer block\<close>

lemma try_retrieve_no_project:
  assumes "truthy (get_opt cfg ''github_repo'')"
    and "ToString (get_opt cfg ''github_repo'') = Inr r"
    and "\<not> truthy proj"
  shows "try_retrieve e hs cfg proj w =
           (Inr (), fetch_latest e hs (contents r ''transcripts/latest.md'') w)"
  using assms(3)
  by (simp add: try_retrieve_def get_github_repo [OF assms(1)] latestUrl_string [OF assms(2)]
      Let_def)

lemma try_retrieve_project:
  assumes "truthy (get_opt cfg ''github_repo'')"
    and "ToString (get_opt cfg ''github_repo'') = Inr r"
    and "truthy proj" and "ToString proj = Inr p"
  shows "try_retrieve e hs cfg proj w =
           (Inr (),
            browse_project_folder e hs (contents r (''transcripts/'' @ p))
              (fetch_latest e hs (contents r (''transcripts/'' @ p @ ''/latest.md''))
                 (fetch_latest e hs (contents r ''transcripts/latest.md'') w)))"
  using assms(3)
  by (simp add: try_retrieve_def get_github_repo [OF assms(1)] latestUrl_string [OF assms(2)]
      projectLatestUrl_string [OF assms(2,4)] projectFolderUrl_string [OF assms(2,4)] Let_def)

lemma try_retrieve_project_thrown:
  assumes "truthy (get_opt cfg ''github_repo'')"
    and "ToString (get_opt cfg ''github_repo'') = Inr r"
    and "truthy proj" and "ToString proj = Inl err"
  shows "try_retrieve e hs cfg proj w =
           (Inl err, fetch_latest e hs (contents r ''transcripts/latest.md'') w)"
  using assms(3)
  by (simp add: try_retrieve_def get_github_repo [OF assms(1)] latestUrl_string [OF assms(2)]
      projectLatestUrl_thrown [OF assms(2,4)] Let_def)

lemma try_retrieve_repo_thrown:
  assumes "truthy (get_opt cfg ''github_repo'')"
    and "ToString (get_opt cfg ''github_repo'') = Inl err"
  shows "try_retrieve e hs cfg proj w = (Inl err, w)"
  by (simp add: try_retrieve_def get_github_repo [OF assms(1)] latestUrl_thrown [OF assms(2)])

lemma discovery_order_yield:
  "transcripts (fetch_latest e hs (contents r ''transcripts/latest.md'') w)
     = transcripts w @ discovery_order e hs r None"
  "transcripts
     (browse_project_folder e hs (contents r (''transcripts/'' @ p))
        (fetch_latest e hs (contents r (''transcripts/'' @ p @ ''/latest.md''))
           (fetch_latest e hs (contents r ''transcripts/latest.md'') w)))
     = transcripts w @ discovery_order e hs r (Some p)"
  by (simp_all add: discovery_order_def latest_yield project_folder_yield)

lemma retrieveTranscripts_no_project:
  assumes "truthy (get_opt (config st) ''github_repo'')"
    and "getGitHubHeaders (config st) = Inr hs"
    and "ToString (get_opt (config st) ''github_repo'') = Inr r"
    and "\<not> truthy proj"
  shows "fst (retrieveTranscripts e proj st) = Inr (discovery_order e hs r None)"
  using assms(1,2)
  by (simp add: retrieveTranscripts_def try_retrieve_no_project [OF assms(1,3,4)]
      discovery_order_yield)

lemma retrieveTranscripts_project:
  assumes "truthy (get_opt (config st) ''github_repo'')"
    and "getGitHubHeaders (config st) = Inr hs"
    and "ToString (get_opt (config st) ''github_repo'') = Inr r"
    and "truthy proj" and "ToString proj = Inr p"
  shows "fst (retrieveTranscripts e proj st) = Inr (discovery_order e hs r (Some p))"
  using assms(1,2)
  by (simp add: retrieveTranscripts_def try_retrieve_project [OF assms(1,3,4,5)]
      discovery_order_yield del: append_Cons)

lemma retrieveTranscripts_project_thrown:
  assumes "truthy (get_opt (config st) ''github_repo'')"
    and "getGitHubHeaders (config st) = Inr hs"
    and "ToString (get_opt (config st) ''github_repo'') = Inr r"
    and "truthy proj" and "ToString proj = Inl err"
  shows "retrieveTranscripts e proj st =
           (Inr [], st\<lparr>requests := sent (fetch_latest e hs (contents r ''transcripts/latest.md'')
                                          \<lparr>transcripts = [], sent = requests st\<rparr>)\<rparr>)"
  using assms(1,2)
  by (simp add: retrieveTranscripts_def try_retrieve_project_thrown [OF assms(1,3,4,5)])

lemma retrieveTranscripts_repo_thrown:
  assumes "truthy (get_opt (config st) ''github_repo'')"
    and "getGitHubHeaders (config st) = Inr hs"
    and "ToString (get_opt (config st) ''github_repo'') = Inl err"
  shows "retrieveTranscripts e proj st = (Inr [], st)"
  using assms(1,2)
  by (simp add: retrieveTranscripts_def try_retrieve_repo_thrown [OF assms(1,3)])

lemma retrieveTranscripts_headers_thrown:
  assumes "truthy (get_opt (config st) ''github_repo'')"
    and "getGitHubHeaders (config st) = Inl err"
  shows "retrieveTranscripts e proj st = (Inl err, st)"
  using assms by (simp add: retrieveTranscripts_def)

lemma in_listing_order_prefix:
  "\<exists>k. snd (in_listing_order visit xs) = concat (map (\<lambda>x. snd (visit x)) (take k xs))"
proof (induction xs)
  case Nil
  then show ?case by simp
next
  case (Cons x xs)
  obtain stop bs where v: "visit x = (stop, bs)" by (cases "visit x")
  show ?case
  proof (cases stop)
    case True
    with v have "snd (in_listing_order visit (x # xs))
                   = concat (map (\<lambda>x. snd (visit x)) (take (Suc 0) (x # xs)))"
      by simp
    then show ?thesis by blast
  next
    case False
    from Cons.IH obtain k where
      k: "snd (in_listing_order visit xs) = concat (map (\<lambda>x. snd (visit x)) (take k xs))"
      by blast
    with v False have "snd (in_listing_order visit (x # xs))
                   = concat (map (\<lambda>x. snd (visit x)) (take (Suc k) (x # xs)))"
      by (auto split: prod.splits)
    then show ?thesis by blast
  qed
qed

lemma in_listing_order_all:
  "\<forall>x \<in> set xs. \<not> fst (visit x) \<Longrightarrow>
   in_listing_order visit xs = (False, concat (map (\<lambda>x. snd (visit x)) xs))"
  by (induction xs) (auto split: prod.splits bool.splits)

text \<open>
  C1. \<open>retrieveTranscripts\<close> returns the bodies in discovery order: with a repository
  configured whose name and whose headers can be built, the result is the body of the
  root \<^verbatim>\<open>latest.md\<close> if retrieved, and for a project, then that of the project's
  \<^verbatim>\<open>latest.md\<close> if retrieved, then the archived bodies, so that every archived body
  comes after the two; the bodies of a listing are those of its entries, in the order of
  the listing, up to the entry at which an exception ended it (all entries when there is
  no exception). A project or a repository name that cannot be converted to a string
  gives the empty sequence; headers that cannot be built, or no repository configured,
  give an exception and no sequence.
\<close>

theorem retrieve_in_discovery_order:
  "(truthy (get_opt (config st) ''github_repo'') \<and> getGitHubHeaders (config st) = Inr hs
      \<and> ToString (get_opt (config st) ''github_repo'') = Inr repo \<and> \<not> truthy proj
      \<longrightarrow> fst (retrieveTranscripts e proj st) = Inr (discovery_order e hs repo None))
   \<and> (truthy (get_opt (config st) ''github_repo'') \<and> getGitHubHeaders (config st) = Inr hs
      \<and> ToString (get_opt (config st) ''github_repo'') = Inr repo
      \<and> truthy proj \<and> ToString proj = Inr p
      \<longrightarrow> fst (retrieveTranscripts e proj st) = Inr (discovery_order e hs repo (Some p)))
   \<and> discovery_order e hs repo None = latest_bodies e hs (contents repo ''transcripts/latest.md'')
   \<and> discovery_order e hs repo (Some p) =
        latest_bodies e hs (contents repo ''transcripts/latest.md'')
        @ latest_bodies e hs (contents repo (''transcripts/'' @ p @ ''/latest.md''))
        @ archive_bodies e hs (contents repo (''transcripts/'' @ p))
   \<and> (\<exists>k. snd (in_listing_order visit xs) = concat (map (\<lambda>x. snd (visit x)) (take k xs)))
   \<and> ((\<forall>x \<in> set xs. \<not> fst (visit x)) \<longrightarrow>
          snd (in_listing_order visit xs) = concat (map (\<lambda>x. snd (visit x)) xs))
   \<and> (truthy (get_opt (config st) ''github_repo'') \<and> getGitHubHeaders (config st) = Inr hs
      \<and> ToString (get_opt (config st) ''github_repo'') = Inr repo
      \<and> truthy proj \<and> ToString proj = Inl err
      \<longrightarrow> fst (retrieveTranscripts e proj st) = Inr [])
   \<and> (truthy (get_opt (config st) ''github_repo'') \<and> getGitHubHeaders (config st) = Inr hs
      \<and> ToString (get_opt (config st) ''github_repo'') = Inl err
      \<longrightarrow> retrieveTranscripts e proj st = (Inr [], st))
   \<and> (truthy (get_opt (config st) ''github_repo'') \<and> getGitHubHeaders (config st) = Inl err
      \<longrightarrow> retrieveTranscripts e proj st = (Inl err, st))
   \<and> (\<not> truthy (get_opt (config st) ''github_repo'')
      \<longrightarrow> retrieveTranscripts e proj st = (Inl (Error ''GitHub repo not configured''), st))"
proof (intro conjI impI)
  assume "truthy (get_opt (config st) ''github_repo'') \<and> getGitHubHeaders (config st) = Inr hs
      \<and> ToString (get_opt (config st) ''github_repo'') = Inr repo \<and> \<not> truthy proj"
  then show "fst (retrieveTranscripts e proj st) = Inr (discovery_order e hs repo None)"
    by (simp add: retrieveTranscripts_no_project)
next
  assume "truthy (get_opt (config st) ''github_repo'') \<and> getGitHubHeaders (config st) = Inr hs
      \<and> ToString (get_opt (config st) ''github_repo'') = Inr repo
      \<and> truthy proj \<and> ToString proj = Inr p"
  then show "fst (retrieveTranscripts e proj st) = Inr (discovery_order e hs repo (Some p))"
    by (simp add: retrieveTranscripts_project)
next
  assume "truthy (get_opt (config st) ''github_repo'') \<and> getGitHubHeaders (config st) = Inr hs
      \<and> ToString (get_opt (config st) ''github_repo'') = Inr repo
      \<and> truthy proj \<and> ToString proj = Inl err"
  then show "fst (retrieveTranscripts e proj st) = Inr []"
    by (simp add: retrieveTranscripts_project_thrown)
next
  assume "truthy (get_opt (config st) ''github_repo'') \<and> getGitHubHeaders (config st) = Inr hs
      \<and> ToString (get_opt (config st) ''github_repo'') = Inl err"
  then show "retrieveTranscripts e proj st = (Inr [], st)"
    by (simp add: retrieveTranscripts_repo_thrown)
next
  assume "truthy (get_opt (config st) ''github_repo'') \<and> getGitHubHeaders (config st) = Inl err"
  then show "retrieveTranscripts e proj st = (Inl err, st)"
    by (simp add: retrieveTranscripts_headers_thrown)
next
  assume "\<not> truthy (get_opt (config st) ''github_repo'')"
  then show "retrieveTranscripts e proj st = (Inl (Error ''GitHub repo not configured''), st)"
    by (simp add: retrieveTranscripts_def)
next
  show "\<exists>k. snd (in_listing_order visit xs) = concat (map (\<lambda>x. snd (visit x)) (take k xs))"
    by (rule in_listing_order_prefix)
next
  assume "\<forall>x \<in> set xs. \<not> fst (visit x)"
  then show "snd (in_listing_order visit xs) = concat (map (\<lambda>x. snd (visit x)) xs)"
    by (simp add: in_listing_order_all)
qed (simp_all add: discovery_order_def)

lemmas order_eval =
  discovery_order_def latest_bodies_def archive_bodies_def year_bodies_def item_visit_def
  date_visit_def file_visit_def fetchFileBody_def listDirectory_def md_file_def malformed_def
  nullish_def year_dir_def broken_def is_dir_def is_year_def is_digit_def ends_with_def
  contents_def answer_def GET_def ok_def json_def Let_def

lemma discovery_online:
  "discovery_order online hs ''john/chat-transcripts'' (Some ''p'')
     = [''ROOT'', ''P'', ''A'', ''S'']"
  by (simp add: order_eval example_eval json_eval)

lemma discovery_online_root:
  "discovery_order online hs ''john/chat-transcripts'' None = [''ROOT'']"
  by (simp add: order_eval example_eval json_eval)


lemma example_headers:
  "getGitHubHeaders (example_config (JStr ''ghp_a'')) =
     Inr [(''Accept'', ''application/vnd.github+json''),
          (''User-Agent'', ''Claude-GitHub-Logger/1.0''),
          (''Authorization'', ''token ghp_a'')]"
  by (simp add: getGitHubHeaders_def example_config_def)

theorem retrieve_in_discovery_order_witness:
  "fst (retrieveTranscripts online (JStr ''p'')
          (configured\<lparr>config := example_config (JStr ''ghp_a'')\<rparr>))
     = Inr [''ROOT'', ''P'', ''A'', ''S'']
   \<and> fst (retrieveTranscripts online JUndefined
          (configured\<lparr>config := example_config (JStr ''ghp_a'')\<rparr>))
     = Inr [''ROOT'']
   \<and> fst (retrieveTranscripts online unconvertible
          (configured\<lparr>config := example_config (JStr ''ghp_a'')\<rparr>))
     = Inr []
   \<and> fst (retrieveTranscripts online (JStr ''p'')
          (configured\<lparr>config := JObj [(''github_repo'', unconvertible)]\<rparr>))
     = Inr []
   \<and> fst (retrieveTranscripts online (JStr ''p'')
          (configured\<lparr>config := example_config unconvertible\<rparr>))
     = Inl not_primitive
   \<and> fst (retrieveTranscripts online (JStr ''p'') (configured\<lparr>config := JObj []\<rparr>))
     = Inl (Error ''GitHub repo not configured'')"
proof -
  let ?st = "configured\<lparr>config := example_config (JStr ''ghp_a'')\<rparr>"
  let ?hs = "[(''Accept'', ''application/vnd.github+json''),
          (''User-Agent'', ''Claude-GitHub-Logger/1.0''),
          (''Authorization'', ''token ghp_a'')]"
  let ?sr = "configured\<lparr>config := JObj [(''github_repo'', unconvertible)]\<rparr>"
  let ?sh = "configured\<lparr>config := example_config unconvertible\<rparr>"
  let ?s0 = "configured\<lparr>config := JObj []\<rparr>"
  have t: "truthy (get_opt (config ?st) ''github_repo'')"
    "getGitHubHeaders (config ?st) = Inr ?hs"
    "ToString (get_opt (config ?st) ''github_repo'') = Inr ''john/chat-transcripts''"
    using example_headers by (simp_all add: example_config_def)
  have a: "fst (retrieveTranscripts online (JStr ''p'') ?st) = Inr [''ROOT'', ''P'', ''A'', ''S'']"
    using retrieve_in_discovery_order [where st = ?st and hs = ?hs and e = online
        and repo = "''john/chat-transcripts''" and proj = "JStr ''p''" and p = "''p''",
        THEN conjunct2, THEN conjunct1] t
    by (simp add: discovery_online)
  have b: "fst (retrieveTranscripts online JUndefined ?st) = Inr [''ROOT'']"
    using retrieve_in_discovery_order [where st = ?st and hs = ?hs and e = online
        and repo = "''john/chat-transcripts''" and proj = JUndefined, THEN conjunct1] t
    by (simp add: discovery_online_root)
  have c: "fst (retrieveTranscripts online unconvertible ?st) = Inr []"
    using retrieve_in_discovery_order [where st = ?st and hs = ?hs and e = online
        and repo = "''john/chat-transcripts''" and proj = unconvertible
        and err = not_primitive, THEN conjunct2, THEN conjunct2, THEN conjunct2, THEN conjunct2, THEN conjunct2, THEN conjunct2, THEN conjunct1] t
    by (simp add: unconvertible_def)
  have d: "retrieveTranscripts online (JStr ''p'') ?sr = (Inr [], ?sr)"
    using retrieve_in_discovery_order [where st = ?sr and e = online and proj = "JStr ''p''"
        and err = not_primitive
        and hs = "[(''Accept'', ''application/vnd.github+json''),
                   (''User-Agent'', ''Claude-GitHub-Logger/1.0'')]",
        THEN conjunct2, THEN conjunct2, THEN conjunct2, THEN conjunct2, THEN conjunct2, THEN conjunct2, THEN conjunct2, THEN conjunct1]
    by (simp add: unconvertible_def getGitHubHeaders_def)
  have f: "retrieveTranscripts online (JStr ''p'') ?sh = (Inl not_primitive, ?sh)"
    using retrieve_in_discovery_order [where st = ?sh and e = online and proj = "JStr ''p''"
        and err = not_primitive, THEN conjunct2, THEN conjunct2, THEN conjunct2, THEN conjunct2, THEN conjunct2, THEN conjunct2, THEN conjunct2, THEN conjunct2, THEN conjunct1]
    by (simp add: unconvertible_def getGitHubHeaders_def example_config_def)
  have g: "retrieveTranscripts online (JStr ''p'') ?s0
             = (Inl (Error ''GitHub repo not configured''), ?s0)"
    using retrieve_in_discovery_order [where st = ?s0 and e = online and proj = "JStr ''p''",
        THEN conjunct2, THEN conjunct2, THEN conjunct2, THEN conjunct2, THEN conjunct2, THEN conjunct2, THEN conjunct2, THEN conjunct2, THEN conjunct2]
    by simp
  from a b c d f g show ?thesis
    by simp
qed

subsection \<open>Which entries are visited\<close>


lemma is_dir_not_nullish: "is_dir d \<Longrightarrow> \<not> nullish d"
  by (cases d) (simp_all add: is_dir_def nullish_def)

lemma years_loop_filter:
  "years_loop e hs items w = years_loop e hs (filter (\<lambda>i. broken i \<or> year_dir i) items) w"
proof (induction items arbitrary: w)
  case Nil
  then show ?case by simp
next
  case (Cons item items)
  show ?case
  proof (cases "broken item")
    case True
    then obtain err where "\<And>rest w. years_loop e hs (item # rest) w = (Inl err, w)"
      using years_loop_broken by blast
    with True show ?thesis
      by (simp del: years_loop.simps)
  next
    case False
    show ?thesis
    proof (cases "year_dir item")
      case True
      with False Cons.IH show ?thesis
        by (simp add: years_loop_descend del: years_loop.simps)
    next
      case noyear: False
      with False Cons.IH show ?thesis
        by (simp add: years_loop_skip del: years_loop.simps)
    qed
  qed
qed

lemma dates_loop_filter:
  "dates_loop e hs ds w = dates_loop e hs (filter (\<lambda>d. nullish d \<or> is_dir d) ds) w"
proof (induction ds arbitrary: w)
  case Nil
  then show ?case by simp
next
  case (Cons d ds)
  show ?case
  proof (cases "nullish d")
    case True
    then obtain err where "\<And>rest w. dates_loop e hs (d # rest) w = (Inl err, w)"
      using dates_loop_nullish by blast
    with True show ?thesis
      by (simp del: dates_loop.simps)
  next
    case False
    show ?thesis
    proof (cases "is_dir d")
      case True
      with False Cons.IH show ?thesis
        by (simp add: dates_loop_dir del: dates_loop.simps split: sum.splits prod.splits)
    next
      case nodir: False
      with False Cons.IH show ?thesis
        by (simp add: dates_loop_skip del: dates_loop.simps)
    qed
  qed
qed

lemma files_loop_filter:
  "files_loop e hs fs w = files_loop e hs (filter (\<lambda>f. malformed f \<or> md_file f) fs) w"
proof (induction fs arbitrary: w)
  case Nil
  then show ?case by simp
next
  case (Cons f fs)
  show ?case
  proof (cases "malformed f")
    case True
    then obtain err where "\<And>rest w. files_loop e hs (f # rest) w = (Inl err, w)"
      using files_loop_malformed by blast
    with True show ?thesis
      by (simp del: files_loop.simps)
  next
    case False
    show ?thesis
    proof (cases "md_file f")
      case True
      with False Cons.IH show ?thesis
        by (simp add: files_loop_md del: files_loop.simps split: sum.splits)
    next
      case nomd: False
      with False Cons.IH show ?thesis
        by (simp add: files_loop_skip del: files_loop.simps)
    qed
  qed
qed

lemma sent_logged: "sent (logged rq w) = sent w @ request_of rq"
  by (simp add: logged_def request_of_def split: sum.splits)

lemma files_loop_requests:
  "fst (files_loop e hs fs w) = Inr () \<Longrightarrow>
   sent (snd (files_loop e hs fs w))
     = sent w @ concat (map (\<lambda>f. request_of (GET (get_opt f ''download_url'') hs))
                            (filter md_file fs))"
proof (induction fs arbitrary: w)
  case Nil
  then show ?case by simp
next
  case (Cons f fs)
  show ?case
  proof (cases "malformed f")
    case True
    then obtain err where "files_loop e hs (f # fs) w = (Inl err, w)"
      using files_loop_malformed by blast
    with Cons.prems show ?thesis by simp
  next
    case False
    show ?thesis
    proof (cases "md_file f")
      case True
      let ?r = "GET (get_opt f ''download_url'') hs"
      let ?w1 = "logged ?r w"
      note step = files_loop_md [OF False True, of e hs fs w]
      show ?thesis
      proof (cases "answer e ?r")
        case (Inl err)
        with step Cons.prems show ?thesis by simp
      next
        case (Inr r)
        with step
        have s: "files_loop e hs (f # fs) w =
                   files_loop e hs fs (if ok r then push (body r) ?w1 else ?w1)"
          by simp
        with Cons.prems
        have "fst (files_loop e hs fs (if ok r then push (body r) ?w1 else ?w1)) = Inr ()"
          by simp
        from Cons.IH [OF this] True show ?thesis
          by (simp only: s) (simp add: push_def sent_logged)
      qed
    next
      case nomd: False
      have s: "files_loop e hs (f # fs) w = files_loop e hs fs w"
        using False nomd by (rule files_loop_skip)
      with Cons.prems have "fst (files_loop e hs fs w) = Inr ()" by simp
      from Cons.IH [OF this] nomd show ?thesis
        by (simp only: s) simp
    qed
  qed
qed

subsection \<open>A block that runs to its end\<close>

lemma in_listing_order_no_stop:
  "\<not> fst (in_listing_order visit xs) \<Longrightarrow>
   (\<forall>x \<in> set xs. \<not> fst (visit x))
   \<and> snd (in_listing_order visit xs) = concat (map (\<lambda>x. snd (visit x)) xs)"
  by (induction xs) (auto split: prod.splits bool.splits)

lemma concat_map_selected:
  "\<forall>x \<in> set xs. g x = (if P x then h x else []) \<Longrightarrow>
   concat (map g xs) = concat (map h (filter P xs))"
  by (induction xs) auto

lemma file_visit_no_stop:
  "\<not> fst (file_visit e hs f) \<Longrightarrow>
   snd (file_visit e hs f) = (if md_file f then download e hs f else [])"
  by (simp add: file_visit_def download_def split: if_splits)

lemma files_no_stop:
  assumes "\<not> fst (in_listing_order (file_visit e hs) fs)"
  shows "snd (in_listing_order (file_visit e hs) fs)
           = concat (map (download e hs) (filter md_file fs))"
proof -
  from in_listing_order_no_stop [OF assms]
  have n: "\<forall>f \<in> set fs. \<not> fst (file_visit e hs f)"
    and s: "snd (in_listing_order (file_visit e hs) fs)
              = concat (map (\<lambda>f. snd (file_visit e hs f)) fs)"
    by simp_all
  from n have "\<forall>f \<in> set fs. snd (file_visit e hs f) = (if md_file f then download e hs f else [])"
    by (simp add: file_visit_no_stop)
  then have "concat (map (\<lambda>f. snd (file_visit e hs f)) fs)
               = concat (map (download e hs) (filter md_file fs))"
    by (rule concat_map_selected)
  with s show ?thesis by simp
qed

lemma files_loop_complete:
  assumes "fst (files_loop e hs fs w) = Inr ()"
  shows "transcripts (snd (files_loop e hs fs w))
           = transcripts w @ concat (map (download e hs) (filter md_file fs))"
proof -
  from assms files_loop_yield [of e hs fs w]
  have "\<not> fst (in_listing_order (file_visit e hs) fs)"
    by simp
  from files_no_stop [OF this] files_loop_yield [of e hs fs w] show ?thesis
    by simp
qed

lemma date_visit_no_stop:
  assumes "\<not> fst (date_visit e hs d)"
  shows "snd (date_visit e hs d) = (if is_dir d then date_bodies e hs d else [])"
proof (cases "is_dir d")
  case False
  with assms show ?thesis
    by (simp add: date_visit_def split: if_splits)
next
  case True
  then have n: "\<not> nullish d"
    by (rule is_dir_not_nullish)
  show ?thesis
  proof (cases "listDirectory e hs (get_opt d ''url'')")
    case (Inl err)
    with assms True n show ?thesis
      by (simp add: date_visit_def)
  next
    case (Inr fs)
    with assms True n have "\<not> fst (in_listing_order (file_visit e hs) fs)"
      by (simp add: date_visit_def)
    from files_no_stop [OF this] True n Inr show ?thesis
      by (simp add: date_visit_def date_bodies_def)
  qed
qed

lemma dates_no_stop:
  assumes "\<not> fst (in_listing_order (date_visit e hs) ds)"
  shows "snd (in_listing_order (date_visit e hs) ds)
           = concat (map (date_bodies e hs) (filter is_dir ds))"
proof -
  from in_listing_order_no_stop [OF assms]
  have n: "\<forall>d \<in> set ds. \<not> fst (date_visit e hs d)"
    and s: "snd (in_listing_order (date_visit e hs) ds)
              = concat (map (\<lambda>d. snd (date_visit e hs d)) ds)"
    by simp_all
  from n have "\<forall>d \<in> set ds. snd (date_visit e hs d) = (if is_dir d then date_bodies e hs d else [])"
    by (simp add: date_visit_no_stop)
  then have "concat (map (\<lambda>d. snd (date_visit e hs d)) ds)
               = concat (map (date_bodies e hs) (filter is_dir ds))"
    by (rule concat_map_selected)
  with s show ?thesis by simp
qed

lemma dates_loop_complete:
  assumes "fst (dates_loop e hs ds w) = Inr ()"
  shows "transcripts (snd (dates_loop e hs ds w))
           = transcripts w @ concat (map (date_bodies e hs) (filter is_dir ds))"
proof -
  from assms dates_loop_yield [of e hs ds w]
  have "\<not> fst (in_listing_order (date_visit e hs) ds)"
    by simp
  from dates_no_stop [OF this] dates_loop_yield [of e hs ds w] show ?thesis
    by simp
qed

lemma year_folder_complete:
  assumes "fst (try_year_folder e hs url w) = Inr ()"
    and "listDirectory e hs url = Inr ds"
  shows "transcripts (getTranscriptsFromYearFolder e hs url w)
           = transcripts w @ concat (map (date_bodies e hs) (filter is_dir ds))"
proof -
  from assms have "fst (dates_loop e hs ds (logged (GET url hs) w)) = Inr ()"
    by (simp add: try_year_folder_eq)
  from dates_loop_complete [OF this] assms(2) show ?thesis
    by (simp add: getTranscriptsFromYearFolder_def try_year_folder_eq transcripts_logged)
qed

lemma item_visit_no_stop:
  "\<not> fst (item_visit e hs item) \<Longrightarrow>
   snd (item_visit e hs item)
     = (if year_dir item then year_bodies e hs (get_opt item ''url'') else [])"
  by (simp add: item_visit_def split: if_splits)

lemma years_loop_complete:
  assumes "fst (years_loop e hs items w) = Inr ()"
  shows "transcripts (snd (years_loop e hs items w))
           = transcripts w
             @ concat (map (\<lambda>i. year_bodies e hs (get_opt i ''url'')) (filter year_dir items))"
proof -
  from assms years_loop_yield [of e hs items w]
  have "\<not> fst (in_listing_order (item_visit e hs) items)"
    by simp
  from in_listing_order_no_stop [OF this]
  have n: "\<forall>i \<in> set items. \<not> fst (item_visit e hs i)"
    and s: "snd (in_listing_order (item_visit e hs) items)
              = concat (map (\<lambda>i. snd (item_visit e hs i)) items)"
    by simp_all
  from n have "\<forall>i \<in> set items. snd (item_visit e hs i)
      = (if year_dir i then year_bodies e hs (get_opt i ''url'') else [])"
    by (simp add: item_visit_no_stop)
  then have "concat (map (\<lambda>i. snd (item_visit e hs i)) items)
      = concat (map (\<lambda>i. year_bodies e hs (get_opt i ''url'')) (filter year_dir items))"
    by (rule concat_map_selected)
  with s years_loop_yield [of e hs items w] show ?thesis
    by simp
qed

lemma project_folder_complete:
  assumes "fst (try_project_folder e hs url w) = Inr ()"
    and "listDirectory e hs (JStr url) = Inr items"
  shows "transcripts (browse_project_folder e hs url w)
           = transcripts w
             @ concat (map (\<lambda>i. year_bodies e hs (get_opt i ''url'')) (filter year_dir items))"
proof -
  from assms have "fst (years_loop e hs items (logged (GET (JStr url) hs) w)) = Inr ()"
    by (simp add: try_project_folder_eq)
  from years_loop_complete [OF this] assms(2) show ?thesis
    by (simp add: browse_project_folder_def try_project_folder_eq transcripts_logged)
qed

lemma md_file_object:
  "md_file (JObj ps) \<longleftrightarrow>
     (\<exists>s. property ps ''name'' = JStr s \<and> ends_with s ''.md'')
     \<and> truthy (property ps ''download_url'')"
  by (cases "property ps ''name''") (simp_all add: md_file_def)

lemma year_dir_object:
  "year_dir (JObj ps) \<longleftrightarrow>
     property ps ''type'' = JStr ''dir''
     \<and> (\<exists>s. ToString (property ps ''name'') = Inr s \<and> length s = 4 \<and> list_all is_digit s)"
  by (cases "ToString (property ps ''name'')") (simp_all add: year_dir_def is_dir_def is_year_def)

text \<open>
  C7, amended. In the walk of a project folder the entries that are not directories named
  by four digits have no effect: the loop over the folder is the loop over its year
  directories (and its broken entries, at which it stops); every year directory is
  descended into, and when the block runs to its end, what the walk of the project folder
  adds to the bodies collected is what its year directories yield, in listing order. In a
  year folder the entries that are not directories have no effect, and when the function
  runs to its end, it adds what the directories of the folder yield. In a date folder the
  entries whose name does not end in \<^verbatim>\<open>.md\<close> or that carry no download URL have no
  effect; when the loop runs to its end, the requests it has sent are the downloads of
  exactly the entries whose name ends in \<^verbatim>\<open>.md\<close> and that carry a download URL, and the
  bodies it adds are theirs, in listing order. The type of an entry of a date folder is
  not read: an entry named \<^verbatim>\<open>*.md\<close> with a download URL is downloaded whatever its type.
\<close>

theorem only_year_folders_and_md_files:
  "years_loop e hs items w = years_loop e hs (filter (\<lambda>i. broken i \<or> year_dir i) items) w
   \<and> dates_loop e hs ds w = dates_loop e hs (filter (\<lambda>d. nullish d \<or> is_dir d) ds) w
   \<and> files_loop e hs fs w = files_loop e hs (filter (\<lambda>f. malformed f \<or> md_file f) fs) w
   \<and> transcripts (getTranscriptsFromYearFolder e hs yurl w) = transcripts w @ year_bodies e hs yurl
   \<and> transcripts (browse_project_folder e hs url w) = transcripts w @ archive_bodies e hs url
   \<and> (md_file (JObj ps) \<longleftrightarrow>
        (\<exists>s. property ps ''name'' = JStr s \<and> ends_with s ''.md'')
        \<and> truthy (property ps ''download_url''))
   \<and> (year_dir (JObj ps) \<longleftrightarrow>
        property ps ''type'' = JStr ''dir''
        \<and> (\<exists>s. ToString (property ps ''name'') = Inr s \<and> length s = 4 \<and> list_all is_digit s))
   \<and> (year_dir item \<longrightarrow>
        years_loop e hs (item # items) w =
          years_loop e hs items (getTranscriptsFromYearFolder e hs (get_opt item ''url'') w))
   \<and> (fst (try_project_folder e hs url w) = Inr () \<and> listDirectory e hs (JStr url) = Inr items
        \<longrightarrow> transcripts (browse_project_folder e hs url w)
              = transcripts w
                @ concat (map (\<lambda>i. year_bodies e hs (get_opt i ''url'')) (filter year_dir items)))
   \<and> (fst (try_year_folder e hs yurl w) = Inr () \<and> listDirectory e hs yurl = Inr ds
        \<longrightarrow> transcripts (getTranscriptsFromYearFolder e hs yurl w)
              = transcripts w @ concat (map (date_bodies e hs) (filter is_dir ds)))
   \<and> (listDirectory e hs (get_opt d ''url'') = Inr fs
        \<longrightarrow> date_bodies e hs d = concat (map (download e hs) (filter md_file fs)))
   \<and> (fst (files_loop e hs fs w) = Inr ()
        \<longrightarrow> transcripts (snd (files_loop e hs fs w))
              = transcripts w @ concat (map (download e hs) (filter md_file fs))
            \<and> sent (snd (files_loop e hs fs w))
              = sent w @ concat (map (\<lambda>f. request_of (GET (get_opt f ''download_url'') hs))
                                     (filter md_file fs)))
   \<and> (answer e (GET (get_opt f ''download_url'') hs) = Inr r
        \<longrightarrow> download e hs f = (if ok r then [body r] else []))"
  using years_loop_filter [of e hs items w] dates_loop_filter [of e hs ds w]
    files_loop_filter [of e hs fs w] year_folder_yield [of e hs yurl w]
    project_folder_yield [of e hs url w] md_file_object [of ps] year_dir_object [of ps]
    years_loop_descend [of item e hs items w]
    project_folder_complete [of e hs url w items] year_folder_complete [of e hs yurl w ds]
    files_loop_complete [of e hs fs w] files_loop_requests [of e hs fs w]
  by (simp add: date_bodies_def download_def fetchFileBody_def
      del: years_loop.simps dates_loop.simps files_loop.simps)

lemmas loop_eval =
  fetch_w_def fetch_def GET_def ok_def json_def push_def md_file_def malformed_def nullish_def
  year_dir_def broken_def is_dir_def is_year_def is_digit_def ends_with_def answer_def
  listDirectory_def

theorem only_year_folders_and_md_files_witness:
  "years_loop online []
      [remote_entry ''latest.md'' ''file'' ''u1'' (JStr ''https://raw.test/p/latest.md''),
       remote_entry ''notes'' ''dir'' ''https://api.test/notes'' JNull,
       remote_entry ''2025'' ''dir'' ''https://api.test/2025'' JNull] \<lparr>transcripts = [], sent = []\<rparr>
   = years_loop online [] [remote_entry ''2025'' ''dir'' ''https://api.test/2025'' JNull]
       \<lparr>transcripts = [], sent = []\<rparr>
   \<and> years_loop online [] [remote_entry ''2025'' ''dir'' ''https://api.test/2025'' JNull]
       \<lparr>transcripts = [], sent = []\<rparr>
   = years_loop online [] []
       (getTranscriptsFromYearFolder online [] (JStr ''https://api.test/2025'') \<lparr>transcripts = [], sent = []\<rparr>)
   \<and> dates_loop online []
      [remote_entry ''a.md'' ''file'' ''u2'' (JStr ''https://raw.test/a.md''),
       remote_entry ''2025-09-14'' ''dir'' ''https://api.test/d14'' JNull] \<lparr>transcripts = [], sent = []\<rparr>
   = dates_loop online [] [remote_entry ''2025-09-14'' ''dir'' ''https://api.test/d14'' JNull]
       \<lparr>transcripts = [], sent = []\<rparr>
   \<and> files_loop online []
      [remote_entry ''a.md'' ''file'' ''u2'' (JStr ''https://raw.test/a.md''),
       remote_entry ''b.txt'' ''file'' ''u3'' (JStr ''https://raw.test/b.txt''),
       remote_entry ''c.md'' ''file'' ''u5'' JNull] \<lparr>transcripts = [], sent = []\<rparr>
   = files_loop online [] [remote_entry ''a.md'' ''file'' ''u2'' (JStr ''https://raw.test/a.md'')]
       \<lparr>transcripts = [], sent = []\<rparr>
   \<and> transcripts (snd (files_loop online []
      [remote_entry ''a.md'' ''file'' ''u2'' (JStr ''https://raw.test/a.md''),
       remote_entry ''b.txt'' ''file'' ''u3'' (JStr ''https://raw.test/b.txt''),
       remote_entry ''c.md'' ''file'' ''u5'' JNull] \<lparr>transcripts = [], sent = []\<rparr>))
     = [''A'']
   \<and> sent (snd (files_loop online []
      [remote_entry ''a.md'' ''file'' ''u2'' (JStr ''https://raw.test/a.md''),
       remote_entry ''b.txt'' ''file'' ''u3'' (JStr ''https://raw.test/b.txt''),
       remote_entry ''c.md'' ''file'' ''u5'' JNull] \<lparr>transcripts = [], sent = []\<rparr>))
     = [\<lparr>req_method = ''GET'', req_url = ''https://raw.test/a.md'', req_headers = [], req_body = None\<rparr>]
   \<and> date_bodies online [] (remote_entry ''2025-09-13'' ''dir'' ''https://api.test/d13'' JNull) = [''A'']
   \<and> transcripts (getTranscriptsFromYearFolder online [] (JStr ''https://api.test/2025'')
         \<lparr>transcripts = [''ROOT'', ''P''], sent = []\<rparr>)
     = [''ROOT'', ''P'', ''A'', ''S'']
   \<and> transcripts (browse_project_folder online [] (api ''transcripts/p'')
         \<lparr>transcripts = [''ROOT'', ''P''], sent = []\<rparr>)
     = [''ROOT'', ''P'', ''A'', ''S'']"
proof -
  let ?w = "\<lparr>transcripts = [], sent = []\<rparr>"
  let ?w2 = "\<lparr>transcripts = [''ROOT'', ''P''], sent = []\<rparr>"
  let ?l = "remote_entry ''latest.md'' ''file'' ''u1'' (JStr ''https://raw.test/p/latest.md'')"
  let ?n = "remote_entry ''notes'' ''dir'' ''https://api.test/notes'' JNull"
  let ?y = "remote_entry ''2025'' ''dir'' ''https://api.test/2025'' JNull"
  let ?a = "remote_entry ''a.md'' ''file'' ''u2'' (JStr ''https://raw.test/a.md'')"
  let ?b = "remote_entry ''b.txt'' ''file'' ''u3'' (JStr ''https://raw.test/b.txt'')"
  let ?c = "remote_entry ''c.md'' ''file'' ''u5'' JNull"
  let ?s = "remote_entry ''session.md'' ''file'' ''u4'' (JStr ''https://raw.test/session.md'')"
  let ?d13 = "remote_entry ''2025-09-13'' ''dir'' ''https://api.test/d13'' JNull"
  let ?d14 = "remote_entry ''2025-09-14'' ''dir'' ''https://api.test/d14'' JNull"
  let ?items = "[?l, ?n, ?y]"
  let ?fs = "[?a, ?b, ?c]"
  let ?ds = "[?a, ?d14]"
  let ?ra = "\<lparr>req_method = ''GET'', req_url = ''https://raw.test/a.md'', req_headers = [], req_body = None\<rparr>"
  note th = only_year_folders_and_md_files
  have y: "year_dir ?y"
    by (simp add: remote_entry_def loop_eval)
  have fi: "filter (\<lambda>i. broken i \<or> year_dir i) ?items = [?y]"
    by (simp add: remote_entry_def loop_eval)
  have fy: "filter year_dir ?items = [?y]"
    by (simp add: remote_entry_def loop_eval)
  have ff: "filter (\<lambda>f. malformed f \<or> md_file f) ?fs = [?a]"
    by (simp add: remote_entry_def loop_eval)
  have fm: "filter md_file ?fs = [?a]" "filter md_file [?a, ?b] = [?a]" "filter md_file [?s] = [?s]"
    by (simp_all add: remote_entry_def loop_eval)
  have fd: "filter (\<lambda>d. nullish d \<or> is_dir d) ?ds = [?d14]"
    by (simp add: remote_entry_def loop_eval)
  have fdd: "filter is_dir [?d13, ?d14] = [?d13, ?d14]"
    by (simp add: remote_entry_def loop_eval)
  have u: "get_opt ?a ''download_url'' = JStr ''https://raw.test/a.md''"
     "get_opt ?s ''download_url'' = JStr ''https://raw.test/session.md''"
     "get_opt ?y ''url'' = JStr ''https://api.test/2025''"
     "get_opt ?d13 ''url'' = JStr ''https://api.test/d13''" "get_opt ?d14 ''url'' = JStr ''https://api.test/d14''"
    by (simp_all add: remote_entry_def)
  have l: "listDirectory online [] (JStr (api ''transcripts/p'')) = Inr ?items"
     "listDirectory online [] (JStr ''https://api.test/2025'') = Inr [?d13, ?d14]"
     "listDirectory online [] (JStr ''https://api.test/d13'') = Inr [?a, ?b]"
     "listDirectory online [] (JStr ''https://api.test/d14'') = Inr [?s]"
    by (simp_all add: remote_entry_def loop_eval example_eval json_eval)
  have n: "answer online (GET (JStr ''https://raw.test/a.md'') []) = reply ''A''"
     "answer online (GET (JStr ''https://raw.test/session.md'') []) = reply ''S''"
    by (simp_all add: loop_eval example_eval)
  have g: "request_of (GET (JStr ''https://raw.test/a.md'') []) = [?ra]"
    by (simp add: request_of_def GET_def)
  have c1: "years_loop online [] ?items ?w = years_loop online [] [?y] ?w"
    using th [where e = online and hs = "[]" and items = ?items and w = ?w, THEN conjunct1]
    by (simp only: fi)
  have c2: "dates_loop online [] ?ds ?w = dates_loop online [] [?d14] ?w"
    using th [where e = online and hs = "[]" and ds = ?ds and w = ?w,
        THEN conjunct2, THEN conjunct1]
    by (simp only: fd)
  have c3: "files_loop online [] ?fs ?w = files_loop online [] [?a] ?w"
    using th [where e = online and hs = "[]" and fs = ?fs and w = ?w,
        THEN conjunct2, THEN conjunct2, THEN conjunct1]
    by (simp only: ff)
  have c8: "years_loop online [] [?y] ?w =
           years_loop online [] [] (getTranscriptsFromYearFolder online [] (JStr ''https://api.test/2025'') ?w)"
    using th [where e = online and hs = "[]" and item = ?y and items = "[]" and w = ?w,
        THEN conjunct2, THEN conjunct2, THEN conjunct2, THEN conjunct2, THEN conjunct2,
        THEN conjunct2, THEN conjunct2, THEN conjunct1, THEN mp, OF y]
    by (simp only: u)
  have c13: "download online [] ?a = [''A'']" "download online [] ?s = [''S'']"
    using th [where e = online and hs = "[]" and f = ?a
          and r = "\<lparr>status = 200, statusText = ''OK'', body = ''A''\<rparr>",
        THEN conjunct2, THEN conjunct2, THEN conjunct2, THEN conjunct2, THEN conjunct2,
        THEN conjunct2, THEN conjunct2, THEN conjunct2, THEN conjunct2, THEN conjunct2,
        THEN conjunct2, THEN conjunct2]
      th [where e = online and hs = "[]" and f = ?s
          and r = "\<lparr>status = 200, statusText = ''OK'', body = ''S''\<rparr>",
        THEN conjunct2, THEN conjunct2, THEN conjunct2, THEN conjunct2, THEN conjunct2,
        THEN conjunct2, THEN conjunct2, THEN conjunct2, THEN conjunct2, THEN conjunct2,
        THEN conjunct2, THEN conjunct2]
    by (simp_all add: u n reply_def ok_def)
  have r12: "fst (files_loop online [] ?fs ?w) = Inr ()"
    by (simp add: remote_entry_def loop_eval example_eval)
  have c12: "transcripts (snd (files_loop online [] ?fs ?w)) = [''A'']"
     "sent (snd (files_loop online [] ?fs ?w)) = [?ra]"
    using th [where e = online and hs = "[]" and fs = ?fs and w = ?w,
        THEN conjunct2, THEN conjunct2, THEN conjunct2, THEN conjunct2, THEN conjunct2,
        THEN conjunct2, THEN conjunct2, THEN conjunct2, THEN conjunct2, THEN conjunct2,
        THEN conjunct2, THEN conjunct1, THEN mp, OF r12]
    by (simp_all only: fm u g c13 list.map concat.simps append_Nil append_Nil2 walk.simps)
  have c11: "date_bodies online [] ?d13 = [''A'']" "date_bodies online [] ?d14 = [''S'']"
    using th [where e = online and hs = "[]" and d = ?d13 and fs = "[?a, ?b]",
        THEN conjunct2, THEN conjunct2, THEN conjunct2, THEN conjunct2, THEN conjunct2,
        THEN conjunct2, THEN conjunct2, THEN conjunct2, THEN conjunct2, THEN conjunct2,
        THEN conjunct1]
      th [where e = online and hs = "[]" and d = ?d14 and fs = "[?s]",
        THEN conjunct2, THEN conjunct2, THEN conjunct2, THEN conjunct2, THEN conjunct2,
        THEN conjunct2, THEN conjunct2, THEN conjunct2, THEN conjunct2, THEN conjunct2,
        THEN conjunct1]
    by (simp_all only: u l fm c13 list.map concat.simps append_Nil append_Nil2 simp_thms)
  have r10: "fst (try_year_folder online [] (JStr ''https://api.test/2025'') ?w2) = Inr ()
             \<and> listDirectory online [] (JStr ''https://api.test/2025'') = Inr [?d13, ?d14]"
    using l(2) by (simp add: try_year_folder_def remote_entry_def loop_eval example_eval json_eval)
  have c10: "transcripts (getTranscriptsFromYearFolder online [] (JStr ''https://api.test/2025'') ?w2)
               = [''ROOT'', ''P'', ''A'', ''S'']"
    using th [where e = online and hs = "[]" and yurl = "JStr ''https://api.test/2025''" and w = ?w2
          and ds = "[?d13, ?d14]",
        THEN conjunct2, THEN conjunct2, THEN conjunct2, THEN conjunct2, THEN conjunct2,
        THEN conjunct2, THEN conjunct2, THEN conjunct2, THEN conjunct2, THEN conjunct1,
        THEN mp, OF r10]
    by (simp only: fdd c11 list.map concat.simps append_Nil2 walk.simps) simp
  have yb: "year_bodies online [] (JStr ''https://api.test/2025'') = [''A'', ''S'']"
    using th [where e = online and hs = "[]" and yurl = "JStr ''https://api.test/2025''" and w = ?w2,
        THEN conjunct2, THEN conjunct2, THEN conjunct2, THEN conjunct1] c10
    by simp
  have r9: "fst (try_project_folder online [] (api ''transcripts/p'') ?w2) = Inr ()
             \<and> listDirectory online [] (JStr (api ''transcripts/p'')) = Inr ?items"
    using l(1)
    by (simp add: try_project_folder_def getTranscriptsFromYearFolder_def
          remote_entry_def loop_eval example_eval json_eval)
  have c9: "transcripts (browse_project_folder online [] (api ''transcripts/p'') ?w2)
               = [''ROOT'', ''P'', ''A'', ''S'']"
    using th [where e = online and hs = "[]" and url = "api ''transcripts/p''" and w = ?w2
          and items = ?items,
        THEN conjunct2, THEN conjunct2, THEN conjunct2, THEN conjunct2, THEN conjunct2,
        THEN conjunct2, THEN conjunct2, THEN conjunct2, THEN conjunct1, THEN mp, OF r9]
    by (simp only: fy u yb list.map concat.simps append_Nil2 walk.simps) simp
  from c1 c2 c3 c8 c9 c10 c11 c12 show ?thesis
    by blast
qed

text \<open>
  Against C7 as stated: in the date folder \<^verbatim>\<open>2025-09-14\<close> of the repository
  \<open>mislabelled\<close> the one entry, \<^verbatim>\<open>session.md\<close>, is of type \<^verbatim>\<open>dir\<close>; its body is
  downloaded all the same and is in the result of the retrieval.
\<close>

theorem entry_typed_dir_is_downloaded:
  "fst (retrieveTranscripts mislabelled (JStr ''p'')
          (configured\<lparr>config := example_config (JStr ''ghp_a'')\<rparr>))
     = Inr [''ROOT'', ''P'', ''A'', ''S'']
   \<and> listDirectory mislabelled [] (JStr ''https://api.test/d14'')
     = Inr [remote_entry ''session.md'' ''dir'' ''u4'' (JStr ''https://raw.test/session.md'')]
   \<and> get_opt (remote_entry ''session.md'' ''dir'' ''u4'' (JStr ''https://raw.test/session.md'')) ''type''
     = JStr ''dir''
   \<and> files_loop mislabelled []
         [remote_entry ''session.md'' ''dir'' ''u4'' (JStr ''https://raw.test/session.md'')]
         \<lparr>transcripts = [], sent = []\<rparr>
     = (Inr (),
        \<lparr>transcripts = [''S''],
           sent = [\<lparr>req_method = ''GET'', req_url = ''https://raw.test/session.md'', req_headers = [],
                    req_body = None\<rparr>]\<rparr>)"
proof -
  let ?st = "configured\<lparr>config := example_config (JStr ''ghp_a'')\<rparr>"
  let ?hs = "[(''Accept'', ''application/vnd.github+json''),
          (''User-Agent'', ''Claude-GitHub-Logger/1.0''),
          (''Authorization'', ''token ghp_a'')]"
  have t: "truthy (get_opt (config ?st) ''github_repo'')"
    "getGitHubHeaders (config ?st) = Inr ?hs"
    "ToString (get_opt (config ?st) ''github_repo'') = Inr ''john/chat-transcripts''"
    using example_headers by (simp_all add: example_config_def)
  have d: "discovery_order mislabelled ?hs ''john/chat-transcripts'' (Some ''p'')
             = [''ROOT'', ''P'', ''A'', ''S'']"
    by (simp add: order_eval example_eval mislabelled_def json_eval)
  have a: "fst (retrieveTranscripts mislabelled (JStr ''p'') ?st)
             = Inr [''ROOT'', ''P'', ''A'', ''S'']"
    using retrieveTranscripts_project [OF t, of "JStr ''p''" "''p''" mislabelled] d
    by simp
  have b: "listDirectory mislabelled [] (JStr ''https://api.test/d14'')
     = Inr [remote_entry ''session.md'' ''dir'' ''u4'' (JStr ''https://raw.test/session.md'')]"
    by (simp add: remote_entry_def loop_eval example_eval mislabelled_def json_eval)
  have c: "files_loop mislabelled []
         [remote_entry ''session.md'' ''dir'' ''u4'' (JStr ''https://raw.test/session.md'')]
         \<lparr>transcripts = [], sent = []\<rparr>
     = (Inr (),
        \<lparr>transcripts = [''S''],
           sent = [\<lparr>req_method = ''GET'', req_url = ''https://raw.test/session.md'', req_headers = [],
                    req_body = None\<rparr>]\<rparr>)"
    by (simp add: remote_entry_def loop_eval example_eval mislabelled_def)
  from a b c show ?thesis
    by (simp add: remote_entry_def)
qed

subsection \<open>Failures\<close>










end
